(* ===== verification/Pay_Prelude.thy ===== *)
theory Pay_Prelude
  imports Main "HOL-Library.Word" "HOL-Library.Char_ord"
begin

text \<open>
  Shared vocabulary of the development: Go errors and their unwrapping, results of fallible
  calls, decimal digit strings and the two conversions of \<open>math/big\<close> the backend uses
  (\<open>big.Int.String\<close> and \<open>big.Int.SetString\<close> in base 10), and the list lemmas the
  component theories rely on.
\<close>

unbundle bit_operations_syntax

named_theorems digit_simps \<open>evaluation of decimal digit strings\<close>
named_theorems err_simps \<open>unwrapping of Go errors\<close>

type_synonym byte = "8 word"
type_synonym u8 = "8 word"
type_synonym u32 = "32 word"
type_synonym u64 = "64 word"
type_synonym i64 = "64 word" \<comment> \<open>read with \<^const>\<open>sint\<close>\<close>

section \<open>Go errors\<close>

text \<open>
  A Go error is a sentinel (a package variable made by \<open>errors.New\<close>, compared by identity,
  here by its unique text), an error made by code outside the repository (\<open>Opaque\<close>), or a
  wrapper: \<open>fmt.Errorf("msg: %w", e)\<close> is \<open>Wrap msg e\<close>, and \<open>fmt.Errorf("%w: %v", e, m)\<close> is
  \<open>Annot e m\<close>. \<open>errors_Is\<close> is \<open>errors.Is\<close>; \<open>err_text\<close> is the \<open>Error()\<close> method.
\<close>

datatype go_error =
    Sentinel string
  | Opaque string
  | Wrap string go_error
  | Annot go_error string

type_synonym 'a res = "go_error + 'a"

primrec errors_Is :: "go_error \<Rightarrow> go_error \<Rightarrow> bool" where
  "errors_Is (Sentinel s) t = (Sentinel s = t)"
| "errors_Is (Opaque s) t = False"
| "errors_Is (Wrap m e) t = errors_Is e t"
| "errors_Is (Annot e m) t = errors_Is e t"

primrec err_text :: "go_error \<Rightarrow> string" where
  "err_text (Sentinel s) = s"
| "err_text (Opaque s) = s"
| "err_text (Wrap m e) = m @ '': '' @ err_text e"
| "err_text (Annot e m) = err_text e @ '': '' @ m"

text \<open>\<open>v, err := f(); if err != nil { return err }\<close> followed by the rest.\<close>

definition res_bind :: "'a res \<Rightarrow> ('a \<Rightarrow> 'b res) \<Rightarrow> 'b res" where
  "res_bind r f = (case r of Inl e \<Rightarrow> Inl e | Inr x \<Rightarrow> f x)"

lemma res_bind_simps [simp]: "res_bind (Inl e) f = Inl e" "res_bind (Inr x) f = f x"
  by (simp_all add: res_bind_def)

lemma res_bind_Inr: "res_bind r f = Inr y \<longleftrightarrow> (\<exists>x. r = Inr x \<and> f x = Inr y)"
  by (cases r) simp_all

lemma errors_Is_sentinel [err_simps]:
  "errors_Is e (Sentinel s) \<Longrightarrow> errors_Is e (Sentinel t) \<Longrightarrow> s = t"
  by (induction e) auto

section \<open>Decimal digit strings\<close>

definition is_digit :: "char \<Rightarrow> bool" where
  "is_digit c \<longleftrightarrow> 48 \<le> (of_char c :: nat) \<and> (of_char c :: nat) \<le> 57"

definition digit_val :: "char \<Rightarrow> nat" where
  "digit_val c = of_char c - 48"

definition digit_char :: "nat \<Rightarrow> char" where
  "digit_char d = char_of (48 + d)"

abbreviation all_digits :: "string \<Rightarrow> bool" where
  "all_digits s \<equiv> list_all is_digit s"

definition nat_of_digits :: "string \<Rightarrow> nat" where
  "nat_of_digits s = foldl (\<lambda>n c. 10 * n + digit_val c) 0 s"

fun string_of_nat :: "nat \<Rightarrow> string" where
  "string_of_nat n =
     (if n < 10 then [digit_char n] else string_of_nat (n div 10) @ [digit_char (n mod 10)])"

declare string_of_nat.simps [simp del]

lemma of_char_digit_char: "d < 10 \<Longrightarrow> (of_char (digit_char d) :: nat) = 48 + d"
  by (simp add: digit_char_def)

lemma is_digit_digit_char [simp]: "d < 10 \<Longrightarrow> is_digit (digit_char d)"
  by (simp add: is_digit_def of_char_digit_char)

lemma digit_val_digit_char [simp]: "d < 10 \<Longrightarrow> digit_val (digit_char d) = d"
  by (simp add: digit_val_def of_char_digit_char)

lemma digit_val_less: "is_digit c \<Longrightarrow> digit_val c < 10"
  by (auto simp: is_digit_def digit_val_def)

lemma digit_char_digit_val: "is_digit c \<Longrightarrow> digit_char (digit_val c) = c"
  by (simp add: is_digit_def digit_val_def digit_char_def)

lemma digit_0 [simp, digit_simps]: "is_digit CHR ''0''" "digit_val CHR ''0'' = 0"
  by (simp_all add: is_digit_def digit_val_def)

lemma not_digit [simp, digit_simps]: "\<not> is_digit CHR ''.''" "\<not> is_digit CHR ''-''"
  by (simp_all add: is_digit_def)

lemma nat_of_digits_Nil [simp, digit_simps]: "nat_of_digits [] = 0"
  by (simp add: nat_of_digits_def)

lemma foldl_digits:
  "foldl (\<lambda>n c. 10 * n + digit_val c) k s = k * 10 ^ length s + nat_of_digits s"
proof (induction s rule: rev_induct)
  case Nil
  show ?case by simp
next
  case (snoc c s)
  then show ?case by (simp add: nat_of_digits_def)
qed

lemma nat_of_digits_append [digit_simps]:
  "nat_of_digits (s @ t) = nat_of_digits s * 10 ^ length t + nat_of_digits t"
  by (metis foldl_append foldl_digits nat_of_digits_def)

lemma nat_of_digits_Cons [digit_simps]:
  "nat_of_digits (c # s) = digit_val c * 10 ^ length s + nat_of_digits s"
  using foldl_digits [of "digit_val c" s] by (simp add: nat_of_digits_def)

lemma nat_of_digits_zeros [simp]: "nat_of_digits (replicate k CHR ''0'') = 0"
  by (induction k) (simp_all add: digit_simps)

lemma all_digits_zeros [simp]: "all_digits (replicate k CHR ''0'')"
  by (simp add: list_all_iff)

lemma nat_of_digits_bound: "all_digits s \<Longrightarrow> nat_of_digits s < 10 ^ length s"
proof (induction s)
  case Nil
  then show ?case by simp
next
  case (Cons c s)
  then have "digit_val c \<le> 9" "nat_of_digits s < 10 ^ length s"
    using digit_val_less [of c] by auto
  from this(1) have "digit_val c * 10 ^ length s \<le> 9 * 10 ^ length s"
    by (rule mult_le_mono1)
  with \<open>nat_of_digits s < 10 ^ length s\<close> show ?case
    unfolding nat_of_digits_Cons length_Cons power_Suc by linarith
qed

lemma string_of_nat_digits [simp]: "all_digits (string_of_nat n)"
  by (induction n rule: string_of_nat.induct) (subst string_of_nat.simps, simp)

lemma string_of_nat_nonempty [simp]: "string_of_nat n \<noteq> []"
  by (subst string_of_nat.simps) simp

lemma nat_of_digits_string_of_nat [simp]: "nat_of_digits (string_of_nat n) = n"
proof (induction n rule: string_of_nat.induct)
  case (1 n)
  show ?case
  proof (cases "n < 10")
    case True
    then show ?thesis by (subst string_of_nat.simps) (simp add: digit_simps)
  next
    case False
    with "1.IH" have "nat_of_digits (string_of_nat (n div 10)) = n div 10" by simp
    with False show ?thesis
      by (subst string_of_nat.simps) (simp add: digit_simps)
  qed
qed

section \<open>The conversions of math/big\<close>

text \<open>
  \<open>big.Int.String\<close>: the decimal digits, with a leading minus for a negative number.
  \<open>SetString(s, 10)\<close>: an optional sign and at least one decimal digit; anything else is
  refused. (The underscore separators of \<open>math/big\<close> are legal for base 0 only.)
\<close>

definition bigint_String :: "int \<Rightarrow> string" where
  "bigint_String n =
     (if n < 0 then CHR ''-'' # string_of_nat (nat (- n)) else string_of_nat (nat n))"

fun bigint_SetString :: "string \<Rightarrow> int option" where
  "bigint_SetString s =
     (let neg = (s \<noteq> [] \<and> hd s = CHR ''-'');
          ds = (if s \<noteq> [] \<and> (hd s = CHR ''-'' \<or> hd s = CHR ''+'') then tl s else s)
      in if ds \<noteq> [] \<and> all_digits ds
         then Some (if neg then - int (nat_of_digits ds) else int (nat_of_digits ds))
         else None)"

lemma string_of_nat_hd: "is_digit (hd (string_of_nat n))"
  using string_of_nat_digits [of n] string_of_nat_nonempty [of n]
  by (cases "string_of_nat n") simp_all

lemma SetString_digits:
  assumes "ds \<noteq> []" and "all_digits ds"
  shows "bigint_SetString ds = Some (int (nat_of_digits ds))"
proof -
  from assms have "is_digit (hd ds)" by (cases ds) simp_all
  then have "hd ds \<noteq> CHR ''-''" and "hd ds \<noteq> CHR ''+''" by (auto simp: is_digit_def)
  with assms show ?thesis by simp
qed

lemma SetString_String [simp]: "bigint_SetString (bigint_String n) = Some n"
proof (cases "n < 0")
  case True
  then show ?thesis by (simp add: bigint_String_def)
next
  case False
  then show ?thesis
    using SetString_digits [of "string_of_nat (nat n)"]
    by (simp add: bigint_String_def del: bigint_SetString.simps)
qed

declare bigint_SetString.simps [simp del]

section \<open>Lists\<close>

lemma find_map_other:
  "(\<And>x. x \<in> set xs \<Longrightarrow> P (f x) = P x) \<Longrightarrow> find P (map f xs) = map_option f (find P xs)"
  by (induction xs) auto

lemma find_append: "find P (xs @ ys) = (case find P xs of None \<Rightarrow> find P ys | Some x \<Rightarrow> Some x)"
  by (induction xs) auto

lemma list_ex_key: "list_ex (\<lambda>r. f r = x) xs \<longleftrightarrow> x \<in> f ` set xs"
  by (auto simp: list_ex_iff)

lemma find_SomeD: "find P xs = Some x \<Longrightarrow> x \<in> set xs \<and> P x"
  by (induction xs) (auto split: if_splits)

lemma distinct_map_unique:
  "distinct (map f xs) \<Longrightarrow> x \<in> set xs \<Longrightarrow> y \<in> set xs \<Longrightarrow> f x = f y \<Longrightarrow> x = y"
  by (simp add: distinct_map inj_on_def)

lemma find_distinct:
  "distinct (map f xs) \<Longrightarrow> x \<in> set xs \<Longrightarrow> find (\<lambda>y. f y = f x) xs = Some x"
  by (induction xs) auto

end
