(* ===== verification/Money.thy ===== *)
theory Money
  imports Pay_Prelude
begin

text \<open>
  \<open>backend/pkg/money\<close>: fixed-point amounts. \<open>Amount\<close> is \<open>Raw * 10^-Decimals\<close> units of an
  asset, parsed from and printed to decimal strings. The zero value \<open>Amount{}\<close> with a nil
  \<open>Raw\<close>, which the code returns next to an error and no caller reads, is not represented:
  \<open>Raw\<close> is an integer. Decimal counts are \<open>uint8\<close>.
\<close>

record AssetID =
  Code :: string
  Issuer :: string
  ContractID :: string

record Amount =
  Raw :: int
  Decimals :: u8
  Asset :: AssetID

definition Zero :: "AssetID \<Rightarrow> u8 \<Rightarrow> Amount" where
  "Zero asset decimals = \<lparr>Raw = 0, Decimals = decimals, Asset = asset\<rparr>"

function zeroPad :: "string \<Rightarrow> nat \<Rightarrow> string" where
  "zeroPad s width = (if length s < width then zeroPad (CHR ''0'' # s) width else s)"
  by pat_completeness auto
termination
  by (relation "measure (\<lambda>(s, width). width - length s)") auto

declare zeroPad.simps [simp del]

definition zerosString :: "int \<Rightarrow> string" where
  "zerosString n = (if n \<le> 0 then [] else replicate (nat n) CHR ''0'')"

text \<open>
  \<open>Amount.String\<close>: pad the digits of \<open>|Raw|\<close> to at least \<open>decimals + 1\<close>, cut before the last
  \<open>decimals\<close> of them, and put the sign back.
\<close>

definition Amount_String :: "Amount \<Rightarrow> string" where
  "Amount_String a =
     (let negative = Raw a < 0;
          s = bigint_String \<bar>Raw a\<bar>;
          decimals = unat (Decimals a);
          s = (if length s < decimals + 1 then zeroPad s (decimals + 1) else s);
          whole = take (length s - decimals) s;
          whole = (if whole = [] then ''0'' else whole);
          out = (if decimals > 0 then whole @ ''.'' @ drop (length s - decimals) s else whole)
      in if negative then ''-'' @ out else out)"

text \<open>
  The submatches of \<open>decimalStringRe = ^(-?)(\d+)(?:\.(\d+))?$\<close>. Go's \<open>$\<close> without the
  multi-line flag matches at the end of the text only, and \<open>\d\<close> is the ASCII digits.
\<close>

definition decimalStringRe :: "string \<Rightarrow> (string \<times> string \<times> string) option" where
  "decimalStringRe s =
     (let sign = (if s \<noteq> [] \<and> hd s = CHR ''-'' then ''-'' else []);
          r = drop (length sign) s;
          w = takeWhile is_digit r;
          t = dropWhile is_digit r
      in if w = [] then None
         else if t = [] then Some (sign, w, [])
         else if hd t = CHR ''.'' \<and> tl t \<noteq> [] \<and> all_digits (tl t) then Some (sign, w, tl t)
         else None)"

definition ParseAmount :: "string \<Rightarrow> AssetID \<Rightarrow> u8 \<Rightarrow> Amount res" where
  "ParseAmount s asset decimals =
     (case decimalStringRe s of
        None \<Rightarrow> Inl (Opaque (''money: not a decimal string: '' @ s))
      | Some (sign, wholeStr, fracStr) \<Rightarrow>
          if length fracStr > unat decimals
          then Inl (Opaque (''money: too many fractional digits: '' @ s))
          else
            let fracStr = fracStr @ zerosString (int (unat decimals) - int (length fracStr))
            in (case bigint_SetString (wholeStr @ fracStr) of
                  None \<Rightarrow> Inl (Opaque (''money: not a decimal string: '' @ s))
                | Some raw \<Rightarrow>
                    Inr \<lparr>Raw = (if sign = ''-'' then - raw else raw),
                         Decimals = decimals, Asset = asset\<rparr>))"

definition FromStroops :: "i64 \<Rightarrow> AssetID \<Rightarrow> Amount" where
  "FromStroops stroops asset = \<lparr>Raw = sint stroops, Decimals = 7, Asset = asset\<rparr>"

text \<open>\<open>FromI128\<close>: assemble the unsigned 128-bit pattern, then read it as two's complement.\<close>

definition FromI128 :: "i64 \<Rightarrow> u64 \<Rightarrow> u8 \<Rightarrow> AssetID \<Rightarrow> Amount res" where
  "FromI128 hi lo decimals asset =
     (let raw = push_bit 64 (uint hi) OR uint lo;
          raw = (if sint hi < 0 then raw - push_bit 128 1 else raw)
      in Inr \<lparr>Raw = raw, Decimals = decimals, Asset = asset\<rparr>)"

section \<open>Padding and matching\<close>

lemma zeroPad_eq: "zeroPad s width = replicate (width - length s) CHR ''0'' @ s"
proof (induction s width rule: zeroPad.induct)
  case (1 s width)
  show ?case
  proof (cases "length s < width")
    case True
    with 1 have "zeroPad s width = replicate (width - Suc (length s)) CHR ''0'' @ CHR ''0'' # s"
      by (subst zeroPad.simps) simp
    also have "\<dots> = replicate (Suc (width - Suc (length s))) CHR ''0'' @ s"
      by (simp add: replicate_app_Cons_same)
    finally show ?thesis using True by (simp add: Suc_diff_Suc)
  next
    case False
    then show ?thesis by (subst zeroPad.simps) simp
  qed
qed

lemma dropWhile_head: "dropWhile P xs = y # ys \<Longrightarrow> \<not> P y"
  by (induction xs) (auto split: if_splits)

lemma decimalStringRe_iff:
  "decimalStringRe s = Some (sign, w, f) \<longleftrightarrow>
     s = sign @ w @ (if f = [] then [] else CHR ''.'' # f) \<and>
     (sign = [] \<or> sign = ''-'') \<and> w \<noteq> [] \<and> all_digits w \<and> all_digits f"
  (is "?L \<longleftrightarrow> ?R")
proof
  assume L: ?L
  define sg where "sg = (if s \<noteq> [] \<and> hd s = CHR ''-'' then ''-'' else [])"
  define r where "r = drop (length sg) s"
  have s: "s = sg @ r" by (cases s) (auto simp: sg_def r_def)
  have r: "r = takeWhile is_digit r @ dropWhile is_digit r" by simp
  have "(if takeWhile is_digit r = [] then None
         else if dropWhile is_digit r = [] then Some (sg, takeWhile is_digit r, [])
         else if hd (dropWhile is_digit r) = CHR ''.'' \<and> tl (dropWhile is_digit r) \<noteq> [] \<and>
                 all_digits (tl (dropWhile is_digit r))
              then Some (sg, takeWhile is_digit r, tl (dropWhile is_digit r))
         else None) = Some (sign, w, f)"
    using L unfolding decimalStringRe_def Let_def sg_def [symmetric] r_def [symmetric] .
  then have "sg = sign" "w = takeWhile is_digit r" "takeWhile is_digit r \<noteq> []"
    and t: "dropWhile is_digit r = (if f = [] then [] else CHR ''.'' # f)" "all_digits f"
    by (cases "dropWhile is_digit r"; auto split: if_splits)+
  moreover have "all_digits (takeWhile is_digit r)"
    by (auto simp: list_all_iff dest: set_takeWhileD)
  moreover have "sg = [] \<or> sg = ''-''" by (simp add: sg_def)
  ultimately show ?R using s r by metis
next
  assume R: ?R
  let ?t = "if f = [] then [] else CHR ''.'' # f"
  have tw: "takeWhile is_digit (w @ ?t) = w" "dropWhile is_digit (w @ ?t) = ?t"
    using R by (simp_all add: list_all_iff takeWhile_append2 dropWhile_append2)
  obtain c w' where w: "w = c # w'" "is_digit c" using R by (cases w) auto
  then have "c \<noteq> CHR ''-''" by auto
  with R w have "(if s \<noteq> [] \<and> hd s = CHR ''-'' then ''-'' else []) = sign"
    by auto
  moreover have "drop (length sign) s = w @ ?t" using R by simp
  ultimately show ?L
    using R tw by (simp add: decimalStringRe_def Let_def list_all_iff)
qed

section \<open>Parsing is exact\<close>

lemma decimalStringRe_None:
  "decimalStringRe s = None \<longleftrightarrow>
     (\<nexists>sign w f. s = sign @ w @ (if f = [] then [] else CHR ''.'' # f) \<and>
        (sign = [] \<or> sign = ''-'') \<and> w \<noteq> [] \<and> all_digits w \<and> all_digits f)"
  unfolding decimalStringRe_iff [symmetric]
  by (cases "decimalStringRe s") (auto simp: split_paired_all)

text \<open>The raw value of a matched string, scaled to \<open>d\<close> decimals.\<close>

definition scaled_value :: "string \<Rightarrow> string \<Rightarrow> string \<Rightarrow> nat \<Rightarrow> int" where
  "scaled_value sign w f d =
     (if sign = ''-'' then - 1 else 1) *
     int ((nat_of_digits w * 10 ^ length f + nat_of_digits f) * 10 ^ (d - length f))"

lemma parse_digits:
  assumes "w \<noteq> []" "all_digits w" "all_digits f" "length f \<le> d"
  shows "bigint_SetString (w @ f @ zerosString (int d - int (length f))) =
           Some (int ((nat_of_digits w * 10 ^ length f + nat_of_digits f) * 10 ^ (d - length f)))"
proof -
  have z: "zerosString (int d - int (length f)) = replicate (d - length f) CHR ''0''"
    using assms(4) by (auto simp: zerosString_def nat_diff_distrib)
  have "bigint_SetString (w @ f @ replicate (d - length f) CHR ''0'') =
          Some (int (nat_of_digits (w @ f @ replicate (d - length f) CHR ''0'')))"
    using assms by (intro SetString_digits) simp_all
  then show ?thesis
    by (simp add: z nat_of_digits_append algebra_simps power_add)
qed

lemma ParseAmount_cases:
  "ParseAmount s asset d =
     (case decimalStringRe s of
        None \<Rightarrow> Inl (Opaque (''money: not a decimal string: '' @ s))
      | Some (sign, w, f) \<Rightarrow>
          if length f > unat d then Inl (Opaque (''money: too many fractional digits: '' @ s))
          else Inr \<lparr>Raw = scaled_value sign w f (unat d), Decimals = d, Asset = asset\<rparr>)"
proof (cases "decimalStringRe s")
  case None
  then show ?thesis by (simp add: ParseAmount_def)
next
  case (Some m)
  obtain sign w f where m: "m = (sign, w, f)" by (cases m)
  with Some have "w \<noteq> []" "all_digits w" "all_digits f"
    by (auto simp: decimalStringRe_iff)
  then show ?thesis
    using Some m parse_digits [of w f "unat d"]
    by (auto simp: ParseAmount_def Let_def scaled_value_def)
qed

lemma ParseAmount_shape:
  "ParseAmount s asset d = Inr a \<Longrightarrow> Decimals a = d \<and> Asset a = asset"
  by (auto simp: ParseAmount_cases split: option.splits if_splits)

lemma ParseAmount_matched:
  assumes "sign = [] \<or> sign = ''-''" "w \<noteq> []" "all_digits w" "all_digits f" "length f \<le> unat d"
  shows "ParseAmount (sign @ w @ (if f = [] then [] else CHR ''.'' # f)) asset d =
           Inr \<lparr>Raw = scaled_value sign w f (unat d), Decimals = d, Asset = asset\<rparr>"
proof -
  have "decimalStringRe (sign @ w @ (if f = [] then [] else CHR ''.'' # f)) = Some (sign, w, f)"
    unfolding decimalStringRe_iff using assms by blast
  then show ?thesis using assms by (simp add: ParseAmount_cases)
qed

section \<open>Printing\<close>

lemma Amount_String_shape:
  fixes a :: Amount
  defines "d \<equiv> unat (Decimals a)" and "ds \<equiv> string_of_nat (nat \<bar>Raw a\<bar>)"
  defines "s \<equiv> replicate (d + 1 - length ds) CHR ''0'' @ ds"
  shows "Amount_String a =
     (if Raw a < 0 then ''-'' else []) @ take (length s - d) s @
     (if drop (length s - d) s = [] then [] else CHR ''.'' # drop (length s - d) s)"
    and "take (length s - d) s \<noteq> []" and "length (drop (length s - d) s) = d"
    and "all_digits s" and "int (nat_of_digits s) = \<bar>Raw a\<bar>"
proof -
  have len: "length s \<ge> d + 1" by (simp add: s_def)
  then show ne: "take (length s - d) s \<noteq> []" and dl: "length (drop (length s - d) s) = d"
    by auto
  show "all_digits s" by (simp add: s_def ds_def)
  show "int (nat_of_digits s) = \<bar>Raw a\<bar>"
    by (simp add: s_def ds_def nat_of_digits_append)
  have pad: "(if length ds < d + 1 then zeroPad ds (d + 1) else ds) = s"
    by (simp add: zeroPad_eq s_def)
  have "(d > 0) = (drop (length s - d) s \<noteq> [])" using dl by auto
  with pad ne show "Amount_String a =
     (if Raw a < 0 then ''-'' else []) @ take (length s - d) s @
     (if drop (length s - d) s = [] then [] else CHR ''.'' # drop (length s - d) s)"
    unfolding Amount_String_def Let_def bigint_String_def
    by (auto simp: d_def [symmetric] ds_def [symmetric])
qed

lemma scaled_value_full:
  assumes "length f = d"
  shows "scaled_value sign w f d = (if sign = ''-'' then - 1 else 1) * int (nat_of_digits (w @ f))"
  using assms by (simp add: scaled_value_def nat_of_digits_append)

section \<open>Two's complement\<close>

lemma uint_or_halves:
  "push_bit 64 (uint (hi :: u64)) OR uint (lo :: u64) = uint hi * 2 ^ 64 + uint lo"
proof -
  have "push_bit 64 (uint hi) AND uint lo = 0"
    by (auto simp: bit_eq_iff bit_simps dest: bit_imp_le_length)
  then have "push_bit 64 (uint hi) + uint lo = push_bit 64 (uint hi) OR uint lo"
    by (rule disjunctive_add_eq_or)
  then show ?thesis by (simp add: push_bit_eq_mult)
qed

lemma sint_uint_64: "sint (hi :: 64 word) = (if sint hi < 0 then uint hi - 2 ^ 64 else uint hi)"
proof -
  have u: "uint hi = sint hi mod 2 ^ 64"
    by (simp add: uint_sint take_bit_eq_mod)
  have r: "- (2 ^ 63) \<le> sint hi" "sint hi < 2 ^ 63"
    using sint_greater_eq [of hi] sint_less [of hi] by simp_all
  show ?thesis
  proof (cases "sint hi < 0")
    case True
    have "sint hi mod 2 ^ 64 = (sint hi + 2 ^ 64) mod 2 ^ 64" by simp
    also have "\<dots> = sint hi + 2 ^ 64" using True r by (intro mod_pos_pos_trivial) simp_all
    finally show ?thesis using True u by simp
  next
    case False
    then show ?thesis using r u by simp
  qed
qed

lemma i128_value:
  "(let raw = push_bit 64 (uint (hi :: i64)) OR uint (lo :: u64)
    in if sint hi < 0 then raw - push_bit 128 1 else raw) = sint hi * 2 ^ 64 + uint lo"
  using sint_uint_64 [of hi] unfolding Let_def uint_or_halves
  by (auto simp: push_bit_eq_mult algebra_simps)

section \<open>Properties\<close>

text \<open>
  C11. Printing an amount and parsing the string back, with the amount's own asset and decimal
  count, returns exactly that amount: every sign, every raw value and every \<open>uint8\<close> decimal
  count, the cases padded with zeros included.
\<close>

theorem ParseAmount_String: "ParseAmount (Amount_String a) (Asset a) (Decimals a) = Inr a"
proof -
  define d where "d = unat (Decimals a)"
  define ds where "ds = string_of_nat (nat \<bar>Raw a\<bar>)"
  define s where "s = replicate (d + 1 - length ds) CHR ''0'' @ ds"
  define w where "w = take (length s - d) s"
  define f where "f = drop (length s - d) s"
  define sign where "sign = (if Raw a < 0 then ''-'' else [])"
  note shape = Amount_String_shape [of a, folded d_def ds_def, folded s_def, folded w_def f_def sign_def]
  have dig: "all_digits w" "all_digits f"
    using shape(4) by (auto simp: w_def f_def list_all_iff dest: in_set_takeD in_set_dropD)
  have "scaled_value sign w f d = (if sign = ''-'' then - 1 else 1) * int (nat_of_digits (w @ f))"
    by (rule scaled_value_full [OF shape(3)])
  also have "w @ f = s" by (simp add: w_def f_def)
  also have "int (nat_of_digits s) = \<bar>Raw a\<bar>" by (rule shape(5))
  finally have "scaled_value sign w f d = Raw a" by (auto simp: sign_def)
  moreover have "length f \<le> unat (Decimals a)" using shape(3) by (simp add: d_def)
  ultimately show ?thesis
    unfolding shape(1)
    using ParseAmount_matched [of sign w f "Decimals a" "Asset a"] shape(2) dig
    by (auto simp: sign_def d_def)
qed

text \<open>
  \<open>ParseAmount\<close> accepts exactly the decimal strings with an optional minus, at least one
  digit and an optional fraction of at most \<open>decimals\<close> digits, and the raw value is the exact
  decimal value scaled by \<open>10^decimals\<close>: nothing is rounded or truncated, every other string
  is an error.
\<close>

theorem ParseAmount_exact:
  "ParseAmount s asset d = Inr a \<longleftrightarrow>
     (\<exists>sign w f. s = sign @ w @ (if f = [] then [] else CHR ''.'' # f) \<and>
        (sign = [] \<or> sign = ''-'') \<and> w \<noteq> [] \<and> all_digits w \<and> all_digits f \<and>
        length f \<le> unat d \<and>
        a = \<lparr>Raw = (if sign = ''-'' then - 1 else 1) *
                int ((nat_of_digits w * 10 ^ length f + nat_of_digits f) * 10 ^ (unat d - length f)),
             Decimals = d, Asset = asset\<rparr>)"
  (is "?L \<longleftrightarrow> ?R")
proof
  assume ?L
  then obtain sign w f where m: "decimalStringRe s = Some (sign, w, f)" "length f \<le> unat d"
      "a = \<lparr>Raw = scaled_value sign w f (unat d), Decimals = d, Asset = asset\<rparr>"
    by (auto simp: ParseAmount_cases split: option.splits if_splits)
  from m(1) [unfolded decimalStringRe_iff] m(2,3) show ?R
    unfolding scaled_value_def by blast
next
  assume ?R
  then show ?L
    using ParseAmount_matched [of _ _ _ d asset] unfolding scaled_value_def by blast
qed

text \<open>
  \<open>FromI128\<close> reads the two halves as one two's complement 128-bit number: the signed high
  word times \<open>2^64\<close> plus the unsigned low word.
\<close>

theorem FromI128_value:
  "FromI128 hi lo decimals asset =
     Inr \<lparr>Raw = sint hi * 2 ^ 64 + uint lo, Decimals = decimals, Asset = asset\<rparr>"
  using i128_value [of hi lo] by (simp add: FromI128_def Let_def)

end
