(* ===== verification/Base64.thy ===== *)
theory Base64
  imports Pay_Prelude
begin

text \<open>
  \<open>encoding/base64\<close>'s \<open>StdEncoding\<close>, which the cheque service uses for authorization entries
  and payload hashes: \<open>EncodeToString\<close> and \<open>DecodeString\<close>. The decoder skips carriage returns
  and line feeds, wants padding, refuses anything after it, and (like Go's non-strict
  encoding) ignores the unused low bits of the last sextet.
\<close>

text \<open>The alphabet: \<open>A-Z\<close>, \<open>a-z\<close>, \<open>0-9\<close>, \<open>+\<close>, \<open>/\<close>.\<close>

definition b64_char :: "nat \<Rightarrow> char" where
  "b64_char i =
     (if i < 26 then char_of (65 + i)
      else if i < 52 then char_of (71 + i)
      else if i < 62 then char_of (i - 4)
      else if i = 62 then CHR ''+'' else CHR ''/'')"

definition b64_val :: "char \<Rightarrow> nat option" where
  "b64_val c =
     (let n = (of_char c :: nat)
      in if 65 \<le> n \<and> n \<le> 90 then Some (n - 65)
         else if 97 \<le> n \<and> n \<le> 122 then Some (n - 71)
         else if 48 \<le> n \<and> n \<le> 57 then Some (n + 4)
         else if n = 43 then Some 62
         else if n = 47 then Some 63
         else None)"

fun b64_EncodeToString :: "byte list \<Rightarrow> string" where
  "b64_EncodeToString [] = []"
| "b64_EncodeToString [a] =
     (let v = unat a * 16
      in [b64_char (v div 64), b64_char (v mod 64), CHR ''='', CHR ''=''])"
| "b64_EncodeToString [a, b] =
     (let v = (unat a * 256 + unat b) * 4
      in [b64_char (v div 4096), b64_char (v div 64 mod 64), b64_char (v mod 64), CHR ''=''])"
| "b64_EncodeToString (a # b # c # bs) =
     (let v = unat a * 65536 + unat b * 256 + unat c
      in b64_char (v div 262144) # b64_char (v div 4096 mod 64) # b64_char (v div 64 mod 64)
         # b64_char (v mod 64) # b64_EncodeToString bs)"

fun b64_groups :: "string \<Rightarrow> byte list option" where
  "b64_groups [] = Some []"
| "b64_groups (a # b # c # d # cs) =
     (case (b64_val a, b64_val b) of
        (Some i, Some j) \<Rightarrow>
          (case (b64_val c, b64_val d) of
             (Some k, Some l) \<Rightarrow>
               (let v = i * 262144 + j * 4096 + k * 64 + l
                in map_option (\<lambda>bs. of_nat (v div 65536) # of_nat (v div 256 mod 256) # of_nat (v mod 256) # bs)
                     (b64_groups cs))
           | (Some k, None) \<Rightarrow>
               (if d = CHR ''='' \<and> cs = []
                then (let v = i * 4096 + j * 64 + k
                      in Some [of_nat (v div 1024), of_nat (v div 4 mod 256)])
                else None)
           | (None, _) \<Rightarrow>
               (if c = CHR ''='' \<and> d = CHR ''='' \<and> cs = [] then Some [of_nat ((i * 64 + j) div 16)]
                else None))
      | _ \<Rightarrow> None)"
| "b64_groups _ = None"

definition b64_DecodeString :: "string \<Rightarrow> byte list res" where
  "b64_DecodeString s =
     (case b64_groups (filter (\<lambda>c. c \<noteq> char_of (10::nat) \<and> c \<noteq> char_of (13::nat)) s) of
        None \<Rightarrow> Inl (Opaque ''illegal base64 data'')
      | Some bs \<Rightarrow> Inr bs)"

section \<open>Round trip\<close>

lemma b64_val_char [simp]: "i < 64 \<Longrightarrow> b64_val (b64_char i) = Some i"
  by (auto simp: b64_val_def b64_char_def Let_def)

lemma b64_char_inj: "i < 64 \<Longrightarrow> b64_val c = None \<Longrightarrow> b64_char i \<noteq> c"
  using b64_val_char by fastforce

lemma b64_val_newline [simp]: "b64_val (char_of (10::nat)) = None" "b64_val (char_of (13::nat)) = None"
  by (simp_all add: b64_val_def)

lemma b64_val_pad [simp]: "b64_val CHR ''='' = None"
  by (simp add: b64_val_def)

lemma b64_char_not_newline [simp]:
  "i < 64 \<Longrightarrow> b64_char i \<noteq> char_of (10::nat)" "i < 64 \<Longrightarrow> b64_char i \<noteq> char_of (13::nat)"
  using b64_char_inj by simp_all

lemma pad_not_newline [simp]: "CHR ''='' \<noteq> char_of (10::nat)" "CHR ''='' \<noteq> char_of (13::nat)"
  by (simp_all add: char_of_def bit_numeral_rec)

lemma unat_byte_less [simp]: "unat (b :: byte) < 256"
  using unsigned_less [of b, where ?'a = nat] by simp

text \<open>The arithmetic of one, two and three bytes.\<close>

lemma div_mod_radix: "(r::nat) < k \<Longrightarrow> (q * k + r) div k = q" "(r::nat) < k \<Longrightarrow> (q * k + r) mod k = r"
  by simp_all

lemma radix_64: "(v::nat) div 64 * 64 + v mod 64 = v"
  by simp

lemma radix_step:
  "(v::nat) = q * 64 + r \<Longrightarrow> q = a * 4096 + b * 64 + c \<Longrightarrow> a * 262144 + b * 4096 + c * 64 + r = v"
  "(v::nat) = q * 64 + r \<Longrightarrow> q = b * 64 + c \<Longrightarrow> b * 4096 + c * 64 + r = v"
  by simp_all

lemma radix_64_2: "(v::nat) div 4096 * 4096 + v div 64 mod 64 * 64 + v mod 64 = v"
proof (rule radix_step(2))
  show "v = v div 64 * 64 + v mod 64" by simp
  have "v div 4096 = v div 64 div 64" by (simp add: div_mult2_eq [symmetric])
  then show "v div 64 = v div 4096 * 64 + v div 64 mod 64" by (simp only: radix_64)
qed

lemma radix_64_3:
  "(v::nat) div 262144 * 262144 + v div 4096 mod 64 * 4096 + v div 64 mod 64 * 64 + v mod 64 = v"
proof (rule radix_step(1))
  show "v = v div 64 * 64 + v mod 64" by simp
  have "v div 262144 = v div 64 div 4096" "v div 4096 = v div 64 div 64"
    by (simp_all add: div_mult2_eq [symmetric])
  then show "v div 64 = v div 262144 * 4096 + v div 4096 mod 64 * 64 + v div 64 mod 64"
    by (simp only: radix_64_2)
qed

lemma sextets_1:
  assumes "(x::nat) < 256"
  shows "x * 16 div 64 < 64" "(x * 16 div 64 * 64 + x * 16 mod 64) div 16 = x"
  unfolding radix_64 using assms by simp_all

lemma sextets_2:
  assumes "(x::nat) < 256" "y < 256"
  defines "v \<equiv> (x * 256 + y) * 4"
  shows "v div 4096 < 64" "v div 1024 = x" "v div 4 mod 256 = y"
proof -
  show "v div 4096 < 64" using assms by (simp add: v_def)
  have "v = x * 1024 + y * 4" by (simp add: v_def)
  then show "v div 1024 = x" using assms div_mod_radix(1) [of "y * 4" 1024 x] by simp
  show "v div 4 mod 256 = y" using assms div_mod_radix(2) [of y 256 x] by (simp add: v_def)
qed

lemma sextets_3:
  assumes "(x::nat) < 256" "y < 256" "z < 256"
  defines "v \<equiv> x * 65536 + y * 256 + z"
  shows "v div 262144 < 64" "v div 65536 = x" "v div 256 mod 256 = y" "v mod 256 = z"
proof -
  have v: "v = (x * 256 + y) * 256 + z" by (simp add: v_def)
  have q: "v div 256 = x * 256 + y" "v mod 256 = z"
    using assms div_mod_radix [of z 256 "x * 256 + y"] unfolding v by simp_all
  show "v mod 256 = z" by (rule q)
  show "v div 256 mod 256 = y" unfolding q using assms div_mod_radix(2) [of y 256 x] by simp
  have "v div 65536 = v div 256 div 256" by (simp add: div_mult2_eq [symmetric])
  then show "v div 65536 = x" unfolding q using assms div_mod_radix(1) [of y 256 x] by simp
  show "v div 262144 < 64" using assms by (simp add: v_def)
qed

lemma b64_groups_Encode: "b64_groups (b64_EncodeToString bs) = Some bs"
proof (induction bs rule: b64_EncodeToString.induct)
  case 1
  show ?case by simp
next
  case (2 a)
  show ?case using sextets_1 [of "unat a"] by (simp add: Let_def)
next
  case (3 a b)
  show ?case using sextets_2 [of "unat a" "unat b"] by (simp add: Let_def radix_64_2)
next
  case (4 a b c bs)
  then show ?case
    using sextets_3 [of "unat a" "unat b" "unat c"] by (simp add: Let_def radix_64_3)
qed

lemma b64_Encode_no_newline:
  "filter (\<lambda>c. c \<noteq> char_of (10::nat) \<and> c \<noteq> char_of (13::nat)) (b64_EncodeToString bs) =
     b64_EncodeToString bs"
proof (induction bs rule: b64_EncodeToString.induct)
  case (2 a)
  show ?case using sextets_1 [of "unat a"] by (simp add: Let_def)
next
  case (3 a b)
  show ?case using sextets_2 [of "unat a" "unat b"] by (simp add: Let_def)
next
  case (4 a b c bs)
  then show ?case using sextets_3 [of "unat a" "unat b" "unat c"] by (simp add: Let_def)
qed simp

lemma Decode_Encode [simp]: "b64_DecodeString (b64_EncodeToString bs) = Inr bs"
  by (simp add: b64_DecodeString_def b64_Encode_no_newline b64_groups_Encode)

end
