(* ===== verification/StellarX.thy ===== *)
theory StellarX
  imports Money Base64 "HOL-Library.Multiset"
begin

text \<open>
  \<open>backend/pkg/stellarx\<close>: building and decoding Soroban values, contract invocations, the
  \<open>force_collect\<close> pre-authorization and the simulate-then-assemble step. The Stellar SDK
  (strkey, xdr, txnbuild, keypair), the ULID package and SHA-256 are not part of the
  repository: they are the fields of a record \<open>sdk\<close> that every definition takes. The shapes of
  the XDR values the code builds and takes apart are datatypes with the cases it names and one
  case for the rest.
\<close>

section \<open>XDR values\<close>

datatype ScAddr = ScAddressAccount "byte list" | ScAddressContract "byte list"

datatype ScVal =
    ScvVoid
  | ScvU64 u64
  | ScvI128 i64 u64
  | ScvSymbol string
  | ScvBytes "byte list"
  | ScvAddress ScAddr
  | ScvVec "ScVal list option"
  | ScvMap "(ScVal \<times> ScVal) list option"
  | ScvOther string

record InvokeContractArgs =
  ContractAddress :: ScAddr
  FunctionName :: string
  Args :: "ScVal list"

datatype SorobanAuthorizedInvocation =
  AuthorizedInvocation InvokeContractArgs "SorobanAuthorizedInvocation list"

record SorobanAddressCredentials =
  cred_Address :: ScAddr
  cred_Nonce :: i64
  cred_SignatureExpirationLedger :: u32
  cred_Signature :: ScVal

datatype SorobanCredentials =
    CredentialsSourceAccount
  | CredentialsAddress SorobanAddressCredentials

record SorobanAuthorizationEntry =
  Credentials :: SorobanCredentials
  RootInvocation :: SorobanAuthorizedInvocation

record HashIdPreimage =
  pre_NetworkId :: "byte list"
  pre_Nonce :: i64
  pre_SignatureExpirationLedger :: u32
  pre_Invocation :: SorobanAuthorizedInvocation

record InvokeHostFunction =
  HostFunction :: InvokeContractArgs
  op_SourceAccount :: string
  op_Auth :: "SorobanAuthorizationEntry list"
  op_Ext :: "string option" \<comment> \<open>decoded SorobanTransactionData, when attached\<close>

datatype tx_asset = NativeAsset | CreditAsset string string

datatype tx_memo = MemoID u64 | MemoText string

datatype operation =
    OpInvoke InvokeHostFunction
  | OpChangeTrust string string string \<comment> \<open>code, issuer, source account\<close>
  | OpPayment string string tx_asset string \<comment> \<open>destination, amount, asset, source account\<close>

record TransactionParams =
  SourceAccountID :: string
  SourceSequence :: int
  IncrementSequenceNum :: bool
  Operations :: "operation list"
  TxMemo :: "tx_memo option"
  BaseFee :: int
  TimeoutSeconds :: int

record keypair =
  kp_seed :: string
  kp_address :: string

record 'tx sdk =
  strkey_IsValidEd25519PublicKey :: "string \<Rightarrow> bool"
  strkey_DecodeContract :: "string \<Rightarrow> byte list res"
  xdr_AddressToAccountId :: "string \<Rightarrow> byte list res"
  xdr_ScAddressString :: "ScAddr \<Rightarrow> string res"
  xdr_UnmarshalScVal :: "string \<Rightarrow> ScVal res"
  xdr_UnmarshalSorobanData :: "string \<Rightarrow> string res"
  xdr_UnmarshalAuthEntryB64 :: "string \<Rightarrow> SorobanAuthorizationEntry res"
  xdr_UnmarshalAuthEntry :: "byte list \<Rightarrow> SorobanAuthorizationEntry res"
  xdr_MarshalAuthEntry :: "SorobanAuthorizationEntry \<Rightarrow> byte list res"
  xdr_MarshalPreimage :: "HashIdPreimage \<Rightarrow> byte list res"
  sha256_Sum256 :: "byte list \<Rightarrow> byte list"
  txnbuild_MinBaseFee :: int
  txnbuild_NewTransaction :: "TransactionParams \<Rightarrow> 'tx res"
  txnbuild_TransactionFromXDR :: "string \<Rightarrow> 'tx option res" \<comment> \<open>None: a fee-bump transaction\<close>
  tx_Sign :: "'tx \<Rightarrow> string \<Rightarrow> keypair \<Rightarrow> 'tx res"
  tx_Base64 :: "'tx \<Rightarrow> string res"
  keypair_ParseFull :: "string \<Rightarrow> keypair res"
  ulid_ParseStrict :: "string \<Rightarrow> byte list res"
  ulid_String :: "byte list \<Rightarrow> string"

definition string_bytes :: "string \<Rightarrow> byte list" where
  "string_bytes s = map of_char s"

text \<open>\<open>var cid xdr.ContractId; copy(cid[:], decoded)\<close>: a zeroed 32-byte array, overwritten.\<close>

definition copy32 :: "byte list \<Rightarrow> byte list" where
  "copy32 bs = take 32 bs @ replicate (32 - length bs) 0"

section \<open>Encoding\<close>

definition IsValidAccountAddress :: "'tx sdk \<Rightarrow> string \<Rightarrow> bool" where
  "IsValidAccountAddress k s = strkey_IsValidEd25519PublicKey k s"

definition IsValidContractAddress :: "'tx sdk \<Rightarrow> string \<Rightarrow> bool" where
  "IsValidContractAddress k s = (case strkey_DecodeContract k s of Inl _ \<Rightarrow> False | Inr _ \<Rightarrow> True)"

definition ScAddress :: "'tx sdk \<Rightarrow> string \<Rightarrow> ScVal res" where
  "ScAddress k address =
     (if strkey_IsValidEd25519PublicKey k address
      then (case xdr_AddressToAccountId k address of
              Inl e \<Rightarrow> Inl (Wrap (''stellarx: bad account address '' @ address) e)
            | Inr accountID \<Rightarrow> Inr (ScvAddress (ScAddressAccount accountID)))
      else (case strkey_DecodeContract k address of
              Inl e \<Rightarrow> Inl (Opaque (''stellarx: not a valid account or contract address: '' @ address))
            | Inr decoded \<Rightarrow> Inr (ScvAddress (ScAddressContract (copy32 decoded)))))"

definition ScI128 :: "int \<Rightarrow> ScVal res" where
  "ScI128 raw =
     (let unsigned_raw = (if raw < 0 then raw + push_bit 128 1 else raw);
          mask64 = uint (- 1 :: u64);
          lo = word_of_int (unsigned_raw AND mask64);
          hiBig = drop_bit 64 unsigned_raw AND mask64;
          hi = word_of_int hiBig
      in Inr (ScvI128 hi lo))"

definition ScSymbol :: "string \<Rightarrow> ScVal res" where
  "ScSymbol s =
     (if length s > 32 then Inl (Opaque (''stellarx: symbol exceeds 32 chars: '' @ s))
      else Inr (ScvSymbol s))"

definition ScBytes :: "byte list \<Rightarrow> ScVal res" where
  "ScBytes b = Inr (ScvBytes b)"

definition ScUint64 :: "u64 \<Rightarrow> ScVal res" where
  "ScUint64 v = Inr (ScvU64 v)"

section \<open>Decoding\<close>

definition DecodeScAddress :: "'tx sdk \<Rightarrow> ScVal \<Rightarrow> string res" where
  "DecodeScAddress k val =
     (case val of ScvAddress addr \<Rightarrow> xdr_ScAddressString k addr
      | _ \<Rightarrow> Inl (Opaque ''stellarx: expected an address ScVal''))"

definition DecodeScI128 :: "ScVal \<Rightarrow> int res" where
  "DecodeScI128 val =
     (case val of
        ScvI128 hi lo \<Rightarrow>
          (let raw = push_bit 64 (uint hi) OR uint lo
           in Inr (if sint hi < 0 then raw - push_bit 128 1 else raw))
      | _ \<Rightarrow> Inl (Opaque ''stellarx: expected an i128 ScVal''))"

definition DecodeScUint64 :: "ScVal \<Rightarrow> u64 res" where
  "DecodeScUint64 val =
     (case val of ScvU64 v \<Rightarrow> Inr v | _ \<Rightarrow> Inl (Opaque ''stellarx: expected a u64 ScVal''))"

definition DecodeScSymbol :: "ScVal \<Rightarrow> string res" where
  "DecodeScSymbol val =
     (case val of ScvSymbol s \<Rightarrow> Inr s | _ \<Rightarrow> Inl (Opaque ''stellarx: expected a symbol ScVal''))"

definition DecodeOptional :: "ScVal \<Rightarrow> ScVal option" where
  "DecodeOptional val = (if val = ScvVoid then None else Some val)"

fun scMapGet :: "(ScVal \<times> ScVal) list \<Rightarrow> string \<Rightarrow> ScVal option" where
  "scMapGet [] name = None"
| "scMapGet ((key, v) # m) name =
     (case DecodeScSymbol key of
        Inr s \<Rightarrow> if s = name then Some v else scMapGet m name
      | Inl _ \<Rightarrow> scMapGet m name)"

definition decodeMap :: "ScVal \<Rightarrow> (ScVal \<times> ScVal) list res" where
  "decodeMap val =
     (case val of ScvMap (Some m) \<Rightarrow> Inr m | _ \<Rightarrow> Inl (Opaque ''stellarx: expected a map ScVal''))"

definition decodeUnitEnum :: "ScVal \<Rightarrow> string res" where
  "decodeUnitEnum val =
     (case DecodeScSymbol val of
        Inr s \<Rightarrow> Inr s
      | Inl _ \<Rightarrow>
          (case val of
             ScvVec (Some [v]) \<Rightarrow> DecodeScSymbol v
           | _ \<Rightarrow> Inl (Opaque ''stellarx: expected a unit-enum ScVal'')))"

record ChequeRecordView =
  v_Sender :: string
  v_Receiver :: string
  v_Token :: string
  v_Amount :: int
  v_ExpiresAt :: u64
  v_State :: string

record PoolRecordView =
  p_Token :: string
  p_Amount :: int
  p_LastDepositAt :: u64

text \<open>
  One field of a record: the local closure \<open>get\<close> and the decoder applied to what it returns,
  with the two error wrappers the code puts around them.
\<close>

definition decode_field ::
  "string \<Rightarrow> (ScVal \<times> ScVal) list \<Rightarrow> string \<Rightarrow> (ScVal \<Rightarrow> 'a res) \<Rightarrow> 'a res" where
  "decode_field rec m field decode =
     (case scMapGet m field of
        None \<Rightarrow> Inl (Opaque (''stellarx: '' @ rec @ '' missing field '' @ field))
      | Some v \<Rightarrow>
          (case decode v of
             Inl e \<Rightarrow> Inl (Wrap (''stellarx: '' @ rec @ ''.'' @ field) e)
           | Inr x \<Rightarrow> Inr x))"

text \<open>\<open>(view, present, err)\<close> as \<open>Inl err\<close>, \<open>Inr None\<close> (absent) or \<open>Inr (Some view)\<close>.\<close>

definition DecodeChequeRecord :: "'tx sdk \<Rightarrow> ScVal \<Rightarrow> ChequeRecordView option res" where
  "DecodeChequeRecord k val =
     (case DecodeOptional val of
        None \<Rightarrow> Inr None
      | Some inner \<Rightarrow>
          (case decodeMap inner of
             Inl e \<Rightarrow> Inl (Wrap ''stellarx: decode ChequeRecord'' e)
           | Inr m \<Rightarrow>
               res_bind (decode_field ''ChequeRecord'' m ''sender'' (DecodeScAddress k)) (\<lambda>sender.
               res_bind (decode_field ''ChequeRecord'' m ''receiver'' (DecodeScAddress k)) (\<lambda>receiver.
               res_bind (decode_field ''ChequeRecord'' m ''token'' (DecodeScAddress k)) (\<lambda>token.
               res_bind (decode_field ''ChequeRecord'' m ''amount'' DecodeScI128) (\<lambda>amount.
               res_bind (decode_field ''ChequeRecord'' m ''expires_at'' DecodeScUint64) (\<lambda>expiresAt.
               res_bind (decode_field ''ChequeRecord'' m ''state'' decodeUnitEnum) (\<lambda>state.
               Inr (Some \<lparr>v_Sender = sender, v_Receiver = receiver, v_Token = token,
                          v_Amount = amount, v_ExpiresAt = expiresAt, v_State = state\<rparr>)))))))))"

definition DecodePoolRecord :: "'tx sdk \<Rightarrow> ScVal \<Rightarrow> PoolRecordView option res" where
  "DecodePoolRecord k val =
     (case DecodeOptional val of
        None \<Rightarrow> Inr None
      | Some inner \<Rightarrow>
          (case decodeMap inner of
             Inl e \<Rightarrow> Inl (Wrap ''stellarx: decode PoolRecord'' e)
           | Inr m \<Rightarrow>
               res_bind (decode_field ''PoolRecord'' m ''token'' (DecodeScAddress k)) (\<lambda>token.
               res_bind (decode_field ''PoolRecord'' m ''amount'' DecodeScI128) (\<lambda>amount.
               res_bind (decode_field ''PoolRecord'' m ''last_deposit_at'' DecodeScUint64) (\<lambda>lastDepositAt.
               Inr (Some \<lparr>p_Token = token, p_Amount = amount, p_LastDepositAt = lastDepositAt\<rparr>))))))"

section \<open>Invocations\<close>

definition InvokeContract ::
  "'tx sdk \<Rightarrow> string \<Rightarrow> string \<Rightarrow> string \<Rightarrow> ScVal list \<Rightarrow> InvokeHostFunction res" where
  "InvokeContract k contractAddress sourceAccount function args =
     (case strkey_DecodeContract k contractAddress of
        Inl e \<Rightarrow> Inl (Wrap (''stellarx: bad contract address '' @ contractAddress) e)
      | Inr decoded \<Rightarrow>
          Inr \<lparr>HostFunction = \<lparr>ContractAddress = ScAddressContract (copy32 decoded),
                               FunctionName = function, Args = args\<rparr>,
               op_SourceAccount = sourceAccount, op_Auth = [], op_Ext = None\<rparr>)"

definition BuildForceCollectAuthEntry ::
  "'tx sdk \<Rightarrow> string \<Rightarrow> string \<Rightarrow> string \<Rightarrow> string \<Rightarrow> string \<Rightarrow> int \<Rightarrow> byte list \<Rightarrow> u64 \<Rightarrow> u32 \<Rightarrow> i64
    \<Rightarrow> (byte list \<times> byte list) res" where
  "BuildForceCollectAuthEntry k networkPassphrase contractAddress sender receiver token amount
      chequeID expiresAtUnix expirationLedger nonce =
     res_bind (ScAddress k sender) (\<lambda>senderSc.
     res_bind (ScAddress k receiver) (\<lambda>receiverSc.
     res_bind (ScAddress k token) (\<lambda>tokenSc.
     res_bind (ScI128 amount) (\<lambda>amountSc.
     res_bind (ScBytes chequeID) (\<lambda>chequeIDSc.
     res_bind (ScUint64 expiresAtUnix) (\<lambda>expiresAtSc.
       (case strkey_DecodeContract k contractAddress of
          Inl e \<Rightarrow> Inl (Wrap (''stellarx: bad contract address '' @ contractAddress) e)
        | Inr decoded \<Rightarrow>
            (let invocation = AuthorizedInvocation
                   \<lparr>ContractAddress = ScAddressContract (copy32 decoded),
                    FunctionName = ''force_collect'',
                    Args = [senderSc, chequeIDSc, receiverSc, tokenSc, amountSc, expiresAtSc]\<rparr> [];
                 preimage = \<lparr>pre_NetworkId = sha256_Sum256 k (string_bytes networkPassphrase),
                             pre_Nonce = nonce, pre_SignatureExpirationLedger = expirationLedger,
                             pre_Invocation = invocation\<rparr>
             in res_bind (xdr_MarshalPreimage k preimage) (\<lambda>preimageBytes.
                let payloadHash = sha256_Sum256 k preimageBytes;
                    entry = \<lparr>Credentials = (case senderSc of
                               ScvAddress addr \<Rightarrow> CredentialsAddress
                                 \<lparr>cred_Address = addr, cred_Nonce = nonce,
                                  cred_SignatureExpirationLedger = expirationLedger,
                                  cred_Signature = ScvVoid\<rparr>
                             | _ \<Rightarrow> CredentialsSourceAccount),
                             RootInvocation = invocation\<rparr>
                in res_bind (xdr_MarshalAuthEntry k entry) (\<lambda>entryBytes.
                   Inr (entryBytes, payloadHash)))))))))))"

definition AttachAuthEntry ::
  "'tx sdk \<Rightarrow> InvokeHostFunction \<Rightarrow> byte list \<Rightarrow> InvokeHostFunction res" where
  "AttachAuthEntry k op signedEntryXDR =
     (case xdr_UnmarshalAuthEntry k signedEntryXDR of
        Inl e \<Rightarrow> Inl (Wrap ''stellarx: decode signed auth entry'' e)
      | Inr entry \<Rightarrow> Inr (op\<lparr>op_Auth := op_Auth op @ [entry]\<rparr>))"

section \<open>Assembly\<close>

record SimulationResult =
  sim_TransactionDataXDR :: string
  sim_AuthXDR :: "string list"

type_synonym Simulator = "string \<Rightarrow> SimulationResult res"

definition buildInvokeTx :: "'tx sdk \<Rightarrow> string \<Rightarrow> int \<Rightarrow> InvokeHostFunction \<Rightarrow> 'tx res" where
  "buildInvokeTx k sourceAccount sequence op =
     txnbuild_NewTransaction k
       \<lparr>SourceAccountID = sourceAccount, SourceSequence = sequence, IncrementSequenceNum = True,
        Operations = [OpInvoke op], TxMemo = None, BaseFee = txnbuild_MinBaseFee k,
        TimeoutSeconds = 300\<rparr>"

fun decode_auth_entries :: "'tx sdk \<Rightarrow> string list \<Rightarrow> SorobanAuthorizationEntry list res" where
  "decode_auth_entries k [] = Inr []"
| "decode_auth_entries k (b64 # rest) =
     (case xdr_UnmarshalAuthEntryB64 k b64 of
        Inl e \<Rightarrow> Inl (Wrap ''stellarx: decode simulated auth entry'' e)
      | Inr entry \<Rightarrow>
          (case decode_auth_entries k rest of
             Inl e \<Rightarrow> Inl e
           | Inr entries \<Rightarrow> Inr (entry # entries)))"

definition AssembleInvocation ::
  "'tx sdk \<Rightarrow> Simulator \<Rightarrow> string \<Rightarrow> string \<Rightarrow> int \<Rightarrow> InvokeHostFunction \<Rightarrow> string res" where
  "AssembleInvocation k simulate networkPassphrase sourceAccount sequence op =
     (case buildInvokeTx k sourceAccount sequence op of
        Inl e \<Rightarrow> Inl (Wrap ''stellarx: build tx for simulation'' e)
      | Inr unsignedForSim \<Rightarrow>
     (case tx_Base64 k unsignedForSim of
        Inl e \<Rightarrow> Inl (Wrap ''stellarx: encode simulation tx'' e)
      | Inr simXDR \<Rightarrow>
     (case simulate simXDR of
        Inl e \<Rightarrow> Inl (Wrap ''stellarx: simulate'' e)
      | Inr sim \<Rightarrow>
     (case xdr_UnmarshalSorobanData k (sim_TransactionDataXDR sim) of
        Inl e \<Rightarrow> Inl (Wrap ''stellarx: decode simulated transaction data'' e)
      | Inr sorobanData \<Rightarrow>
     (case (if op_Auth op = [] \<and> sim_AuthXDR sim \<noteq> []
            then decode_auth_entries k (sim_AuthXDR sim) else Inr (op_Auth op)) of
        Inl e \<Rightarrow> Inl e
      | Inr auth \<Rightarrow>
     (case buildInvokeTx k sourceAccount sequence (op\<lparr>op_Ext := Some sorobanData, op_Auth := auth\<rparr>) of
        Inl e \<Rightarrow> Inl (Wrap ''stellarx: build final tx'' e)
      | Inr final \<Rightarrow> tx_Base64 k final))))))"

definition KeypairFromSeed :: "'tx sdk \<Rightarrow> string \<Rightarrow> keypair res" where
  "KeypairFromSeed k seed = keypair_ParseFull k seed"

definition SignTransactionXDR :: "'tx sdk \<Rightarrow> string \<Rightarrow> string \<Rightarrow> keypair \<Rightarrow> string res" where
  "SignTransactionXDR k unsignedXDR networkPassphrase kp =
     (case txnbuild_TransactionFromXDR k unsignedXDR of
        Inl e \<Rightarrow> Inl (Wrap ''stellarx: decode tx'' e)
      | Inr None \<Rightarrow> Inl (Opaque ''stellarx: expected a simple (non-fee-bump) transaction'')
      | Inr (Some simple) \<Rightarrow>
          (case tx_Sign k simple networkPassphrase kp of
             Inl e \<Rightarrow> Inl (Wrap ''stellarx: sign tx'' e)
           | Inr signedTx \<Rightarrow> tx_Base64 k signedTx))"

section \<open>i128 arithmetic\<close>

lemma word_of_int_mask64: "word_of_int (n AND uint (- 1 :: u64)) = (word_of_int n :: u64)"
  by (rule bit_word_eqI) (simp add: bit_simps)

lemma drop_bit_add_2p128:
  "word_of_int (drop_bit 64 (raw + push_bit 128 1)) = (word_of_int (drop_bit 64 raw) :: u64)"
proof -
  have "(raw + 2 ^ 128) div 2 ^ 64 = (raw + 2 ^ 64 * 2 ^ 64) div 2 ^ 64" by simp
  also have "\<dots> = 2 ^ 64 + raw div 2 ^ 64" by (rule div_mult_self2) simp
  finally have "(raw + 2 ^ 128) div 2 ^ 64 = 2 ^ 64 + raw div 2 ^ 64" .
  then show ?thesis
    by (simp add: drop_bit_eq_div push_bit_eq_mult)
qed

lemma word_of_int_add_2p128: "word_of_int (raw + push_bit 128 1) = (word_of_int raw :: u64)"
  by (simp add: push_bit_eq_mult)

lemma ScI128_halves:
  "ScI128 raw = Inr (ScvI128 (word_of_int (drop_bit 64 raw)) (word_of_int raw))"
proof (cases "raw < 0")
  case True
  show ?thesis
    unfolding ScI128_def Let_def word_of_int_mask64 if_P [OF True]
    by (simp only: drop_bit_add_2p128 word_of_int_add_2p128)
next
  case False
  show ?thesis unfolding ScI128_def Let_def word_of_int_mask64 if_not_P [OF False] ..
qed

lemma DecodeScI128_value: "DecodeScI128 (ScvI128 hi lo) = Inr (sint hi * 2 ^ 64 + uint lo)"
  using i128_value [of hi lo] by (simp add: DecodeScI128_def Let_def)

lemma sint_word_of_int_64: "sint (word_of_int q :: 64 word) = (q + 2 ^ 63) mod 2 ^ 64 - 2 ^ 63"
  by (simp add: int_word_sint)

lemma i128_wrap:
  "sint (word_of_int (drop_bit 64 raw) :: i64) * 2 ^ 64 + uint (word_of_int raw :: u64) =
     (raw + 2 ^ 127) mod 2 ^ 128 - 2 ^ 127"
proof -
  define q where "q = raw div 2 ^ 64"
  define r where "r = raw mod 2 ^ 64"
  have a: "raw + 2 ^ 127 = r + (q + 2 ^ 63) * 2 ^ 64"
    using mult_div_mod_eq [of "2 ^ 64" raw] by (simp add: q_def r_def algebra_simps)
  have r: "0 \<le> r" "r < 2 ^ 64" by (simp_all add: r_def)
  have "(raw + 2 ^ 127) mod (2 ^ 64 * 2 ^ 64) =
          2 ^ 64 * ((raw + 2 ^ 127) div 2 ^ 64 mod 2 ^ 64) + (raw + 2 ^ 127) mod 2 ^ 64"
    by (rule zmod_zmult2_eq) simp
  moreover have "(raw + 2 ^ 127) div 2 ^ 64 = q + 2 ^ 63" "(raw + 2 ^ 127) mod 2 ^ 64 = r"
    unfolding a using r div_mult_self1 [of "2 ^ 64" r "q + 2 ^ 63"]
      mod_mult_self1 [of r "q + 2 ^ 63" "2 ^ 64"] by (simp_all only: div_pos_pos_trivial
      mod_pos_pos_trivial add_0_right)
  ultimately have "(raw + 2 ^ 127) mod 2 ^ 128 = 2 ^ 64 * ((q + 2 ^ 63) mod 2 ^ 64) + r"
    by simp
  then show ?thesis
    unfolding sint_word_of_int_64
    by (simp add: drop_bit_eq_div q_def r_def uint_word_of_int)
qed

lemma DecodeScI128_ScI128:
  "res_bind (ScI128 raw) DecodeScI128 = Inr ((raw + 2 ^ 127) mod 2 ^ 128 - 2 ^ 127)"
  using i128_wrap [of raw] by (simp add: ScI128_halves res_bind_def DecodeScI128_value)

lemma i128_in_range: "- (2 ^ 127) \<le> raw \<Longrightarrow> raw < 2 ^ 127 \<Longrightarrow> (raw + 2 ^ 127) mod 2 ^ 128 - 2 ^ 127 = (raw::int)"
  by simp

section \<open>Records as maps\<close>

lemma DecodeScSymbol_Inr: "DecodeScSymbol v = Inr s \<longleftrightarrow> v = ScvSymbol s"
  by (auto simp: DecodeScSymbol_def split: ScVal.splits)

lemma scMapGet_map_of: "scMapGet m name = map_of m (ScvSymbol name)"
  by (induction m name rule: scMapGet.induct)
     (auto simp: DecodeScSymbol_def split: ScVal.splits)

lemma scMapGet_permuted:
  assumes "mset m = mset m'" and "distinct (map fst m)"
  shows "scMapGet m = scMapGet m'"
proof -
  have "mset (map fst m) = mset (map fst m')" using assms(1) by simp
  with assms(2) have "distinct (map fst m')"
    by (metis mset_eq_imp_distinct_iff)
  moreover have "set m = set m'" using assms(1) by (rule mset_eq_setD)
  ultimately have "map_of m = map_of m'"
    using assms(2) by (simp add: map_of_inject_set)
  then show ?thesis by (simp add: fun_eq_iff scMapGet_map_of)
qed

lemma decodeMap_simps [simp]: "decodeMap (ScvMap (Some m)) = Inr m" "DecodeOptional (ScvMap x) = Some (ScvMap x)"
  by (simp_all add: decodeMap_def DecodeOptional_def)

section \<open>Assembly keeps a pre-signed entry\<close>

lemma AssembleInvocation_Inr:
  assumes "AssembleInvocation k simulate np source sequence op = Inr x"
  obtains simTx simXDR sim data auth final where
    "buildInvokeTx k source sequence op = Inr simTx" and "tx_Base64 k simTx = Inr simXDR"
    and "simulate simXDR = Inr sim"
    and "xdr_UnmarshalSorobanData k (sim_TransactionDataXDR sim) = Inr data"
    and "(if op_Auth op = [] \<and> sim_AuthXDR sim \<noteq> []
          then decode_auth_entries k (sim_AuthXDR sim) else Inr (op_Auth op)) = Inr auth"
    and "buildInvokeTx k source sequence (op\<lparr>op_Ext := Some data, op_Auth := auth\<rparr>) = Inr final"
    and "tx_Base64 k final = Inr x"
  using assms unfolding AssembleInvocation_def by (simp split: sum.splits)

lemma decode_auth_entries_length:
  "decode_auth_entries k bs = Inr es \<Longrightarrow> length es = length bs"
  by (induction k bs arbitrary: es rule: decode_auth_entries.induct) (auto split: sum.splits)

lemma ScAddress_shape: "ScAddress k s = Inr v \<Longrightarrow> \<exists>addr. v = ScvAddress addr"
  by (auto simp: ScAddress_def split: if_splits sum.splits)

section \<open>A concrete SDK\<close>

text \<open>
  An executable stand-in for the SDK, used to show that hypotheses about it can hold: account
  addresses start with G, contract addresses are 32 characters starting with C, a transaction
  is a string, and the authorization entry \<open>e\<close> has the one-byte encoding \<open>[1]\<close>.
\<close>

definition ex_sdk :: "SorobanAuthorizationEntry \<Rightarrow> ScVal \<Rightarrow> string sdk" where
  "ex_sdk e result = \<lparr>
     strkey_IsValidEd25519PublicKey = (\<lambda>s. s \<noteq> [] \<and> hd s = CHR ''G''),
     strkey_DecodeContract =
       (\<lambda>s. if length s = 32 \<and> hd s = CHR ''C'' then Inr (string_bytes s) else Inl (Opaque ''strkey'')),
     xdr_AddressToAccountId = (\<lambda>s. Inr (string_bytes s)),
     xdr_ScAddressString = (\<lambda>a. case a of
        ScAddressAccount bs \<Rightarrow> Inr (map (\<lambda>b. char_of (unat b)) bs)
      | ScAddressContract bs \<Rightarrow> Inr (map (\<lambda>b. char_of (unat b)) bs)),
     xdr_UnmarshalScVal = (\<lambda>s. Inr result),
     xdr_UnmarshalSorobanData = (\<lambda>s. Inr s),
     xdr_UnmarshalAuthEntryB64 = (\<lambda>s. Inl (Opaque ''xdr'')),
     xdr_UnmarshalAuthEntry = (\<lambda>bs. if bs = [1] then Inr e else Inl (Opaque ''xdr'')),
     xdr_MarshalAuthEntry = (\<lambda>e'. Inr (if e' = e then [1] else [0])),
     xdr_MarshalPreimage = (\<lambda>p. Inr (pre_NetworkId p)),
     sha256_Sum256 = (\<lambda>bs. take 32 (bs @ replicate 32 0)),
     txnbuild_MinBaseFee = 100,
     txnbuild_NewTransaction = (\<lambda>p. Inr ''tx''),
     txnbuild_TransactionFromXDR = (\<lambda>s. Inr (Some s)),
     tx_Sign = (\<lambda>t np kp. Inr (''signed '' @ t)),
     tx_Base64 = (\<lambda>t. Inr t),
     keypair_ParseFull = (\<lambda>s. Inr \<lparr>kp_seed = s, kp_address = CHR ''G'' # s\<rparr>),
     ulid_ParseStrict =
       (\<lambda>s. if length s = 26 then Inr (take 16 (string_bytes s)) else Inl (Opaque ''ulid'')),
     ulid_String = (\<lambda>b. map (\<lambda>b. char_of (unat b)) b @ replicate 10 CHR ''0'')\<rparr>"

definition ex_entry :: SorobanAuthorizationEntry where
  "ex_entry = \<lparr>Credentials = CredentialsSourceAccount,
     RootInvocation = AuthorizedInvocation
       \<lparr>ContractAddress = ScAddressContract [], FunctionName = ''force_collect'', Args = []\<rparr> []\<rparr>"

definition ex_op :: InvokeHostFunction where
  "ex_op = \<lparr>HostFunction = \<lparr>ContractAddress = ScAddressContract [], FunctionName = ''force_collect'',
              Args = []\<rparr>, op_SourceAccount = ''GB'', op_Auth = [ex_entry], op_Ext = None\<rparr>"

lemma char_of_unat_of_char [simp]: "char_of (unat (of_char c :: byte)) = c"
proof -
  have "unat (of_nat (of_char c) :: byte) = of_char c"
    using nat_of_char_less_256 [of c] by (simp add: unat_of_nat)
  then show ?thesis by (simp add: of_nat_of_char)
qed

lemma string_bytes_inverse [simp]: "map (\<lambda>b. char_of (unat b)) (string_bytes s) = s"
  by (simp add: string_bytes_def comp_def)

lemma length_string_bytes [simp]: "length (string_bytes s) = length s"
  by (simp add: string_bytes_def)

text \<open>
  The documented behaviour of strkey and xdr addresses that decoding relies on: printing the
  address a string was parsed to gives the string back.
\<close>

definition address_roundtrip :: "'tx sdk \<Rightarrow> bool" where
  "address_roundtrip k \<longleftrightarrow>
     (\<forall>s addr. ScAddress k s = Inr (ScvAddress addr) \<longrightarrow> xdr_ScAddressString k addr = Inr s)"

lemma ex_sdk_address_roundtrip: "address_roundtrip (ex_sdk e r)"
  by (auto simp: address_roundtrip_def ScAddress_def ex_sdk_def copy32_def split: if_splits)

section \<open>Properties\<close>

text \<open>
  C12. Encoding an integer as an i128 and decoding it again gives the integer back exactly when
  it is in the i128 range; outside it the encoder does not fail but wraps modulo \<open>2^128\<close>.
\<close>

theorem ScI128_roundtrip:
  "res_bind (ScI128 raw) DecodeScI128 = Inr ((raw + 2 ^ 127) mod 2 ^ 128 - 2 ^ 127) \<and>
   (res_bind (ScI128 raw) DecodeScI128 = Inr raw \<longleftrightarrow> - (2 ^ 127) \<le> raw \<and> raw < 2 ^ 127)"
proof
  show eq: "res_bind (ScI128 raw) DecodeScI128 = Inr ((raw + 2 ^ 127) mod 2 ^ 128 - 2 ^ 127)"
    by (rule DecodeScI128_ScI128)
  have "0 \<le> (raw + 2 ^ 127) mod 2 ^ 128" "(raw + 2 ^ 127) mod 2 ^ 128 < 2 ^ 128" by simp_all
  then show "res_bind (ScI128 raw) DecodeScI128 = Inr raw \<longleftrightarrow> - (2 ^ 127) \<le> raw \<and> raw < 2 ^ 127"
    unfolding eq using i128_in_range [of raw] by auto
qed

text \<open>
  Decoding a cheque or pool record does not depend on the order in which the contract's
  map lists the fields.
\<close>

theorem DecodeRecord_order:
  assumes "mset m = mset m'" and "distinct (map fst m)"
  shows "DecodeChequeRecord k (ScvMap (Some m)) = DecodeChequeRecord k (ScvMap (Some m')) \<and>
         DecodePoolRecord k (ScvMap (Some m)) = DecodePoolRecord k (ScvMap (Some m'))"
  unfolding DecodeChequeRecord_def DecodePoolRecord_def decodeMap_simps sum.case option.case
    decode_field_def scMapGet_permuted [OF assms] by simp

theorem DecodeRecord_order_witness:
  "DecodePoolRecord (ex_sdk ex_entry ScvVoid)
     (ScvMap (Some [(ScvSymbol ''token'', ScvAddress (ScAddressAccount [65])),
                    (ScvSymbol ''amount'', ScvI128 0 5),
                    (ScvSymbol ''last_deposit_at'', ScvU64 7)])) =
   DecodePoolRecord (ex_sdk ex_entry ScvVoid)
     (ScvMap (Some [(ScvSymbol ''last_deposit_at'', ScvU64 7),
                    (ScvSymbol ''amount'', ScvI128 0 5),
                    (ScvSymbol ''token'', ScvAddress (ScAddressAccount [65]))]))"
  by (rule DecodeRecord_order [THEN conjunct2]) simp_all

lemma DecodeScAddress_roundtrip:
  "address_roundtrip k \<Longrightarrow> ScAddress k s = Inr v \<Longrightarrow> DecodeScAddress k v = Inr s"
  using ScAddress_shape [of k s v] by (auto simp: address_roundtrip_def DecodeScAddress_def)

lemma DecodeScI128_in_range:
  "ScI128 n = Inr v \<Longrightarrow> - (2 ^ 127) \<le> n \<Longrightarrow> n < 2 ^ 127 \<Longrightarrow> DecodeScI128 v = Inr n"
  using DecodeScI128_ScI128 [of n] by simp

text \<open>
  C13. A cheque record as the contract encodes it (a map keyed by the field names as symbols,
  the fields in any order, the state a symbol or a one-element vector of it) is decoded to
  exactly the values that went in, when the amount is an i128 and printing a parsed address
  gives it back.
\<close>

theorem DecodeChequeRecord_encoded:
  assumes "address_roundtrip k"
    and "ScAddress k sender = Inr s" and "ScAddress k receiver = Inr r" and "ScAddress k token = Inr t"
    and "ScI128 amount = Inr a" and "- (2 ^ 127) \<le> amount" and "amount < 2 ^ 127"
    and "st = ScvSymbol state \<or> st = ScvVec (Some [ScvSymbol state])"
    and "map_of m (ScvSymbol ''sender'') = Some s" and "map_of m (ScvSymbol ''receiver'') = Some r"
    and "map_of m (ScvSymbol ''token'') = Some t" and "map_of m (ScvSymbol ''amount'') = Some a"
    and "map_of m (ScvSymbol ''expires_at'') = Some (ScvU64 expires)"
    and "map_of m (ScvSymbol ''state'') = Some st"
  shows "DecodeChequeRecord k (ScvMap (Some m)) =
           Inr (Some \<lparr>v_Sender = sender, v_Receiver = receiver, v_Token = token, v_Amount = amount,
                      v_ExpiresAt = expires, v_State = state\<rparr>)"
proof -
  have "decodeUnitEnum st = Inr state"
    using assms(8) by (auto simp: decodeUnitEnum_def DecodeScSymbol_def)
  moreover have "DecodeScI128 a = Inr amount" by (rule DecodeScI128_in_range) (use assms in simp_all)
  ultimately show ?thesis
    using assms by (simp add: DecodeChequeRecord_def decode_field_def scMapGet_map_of
        DecodeScAddress_roundtrip DecodeScUint64_def)
qed

theorem DecodeChequeRecord_encoded_witness:
  "DecodeChequeRecord (ex_sdk ex_entry ScvVoid)
     (ScvMap (Some [(ScvSymbol ''amount'', ScvI128 0 25), (ScvSymbol ''expires_at'', ScvU64 900),
        (ScvSymbol ''receiver'', ScvAddress (ScAddressAccount (string_bytes ''GB''))),
        (ScvSymbol ''sender'', ScvAddress (ScAddressAccount (string_bytes ''GA''))),
        (ScvSymbol ''state'', ScvVec (Some [ScvSymbol ''Funded''])),
        (ScvSymbol ''token'', ScvAddress (ScAddressAccount (string_bytes ''GT'')))])) =
     Inr (Some \<lparr>v_Sender = ''GA'', v_Receiver = ''GB'', v_Token = ''GT'', v_Amount = 25,
                v_ExpiresAt = 900, v_State = ''Funded''\<rparr>)"
  by (rule DecodeChequeRecord_encoded [OF ex_sdk_address_roundtrip])
     (simp_all add: ScAddress_def ex_sdk_def ScI128_halves)

text \<open>
  Assembling never replaces an authorization entry that was already attached: the
  transaction that comes out is built from the same call, the same source account and exactly
  the attached entries, with only the simulated resource data added. (This is what lets
  \<open>force_collect\<close> carry the sender's pre-signed entry.)
\<close>

theorem AssembleInvocation_keeps_auth:
  assumes "AssembleInvocation k simulate np source sequence op = Inr x" and "op_Auth op \<noteq> []"
  shows "\<exists>data final.
           txnbuild_NewTransaction k
             \<lparr>SourceAccountID = source, SourceSequence = sequence, IncrementSequenceNum = True,
              Operations = [OpInvoke (op\<lparr>op_Ext := Some data\<rparr>)], TxMemo = None,
              BaseFee = txnbuild_MinBaseFee k, TimeoutSeconds = 300\<rparr> = Inr final \<and>
           tx_Base64 k final = Inr x"
  using assms(1)
proof (rule AssembleInvocation_Inr)
  fix data auth final sim
  assume auth: "(if op_Auth op = [] \<and> sim_AuthXDR sim \<noteq> []
          then decode_auth_entries k (sim_AuthXDR sim) else Inr (op_Auth op)) = Inr auth"
    and final: "buildInvokeTx k source sequence (op\<lparr>op_Ext := Some data, op_Auth := auth\<rparr>) = Inr final"
    and "tx_Base64 k final = Inr x"
  from auth assms(2) have "auth = op_Auth op" by (auto split: if_splits)
  then have "op\<lparr>op_Ext := Some data, op_Auth := auth\<rparr> = op\<lparr>op_Ext := Some data\<rparr>" by simp
  with final \<open>tx_Base64 k final = Inr x\<close> show ?thesis
    unfolding buildInvokeTx_def by metis
qed

theorem AssembleInvocation_keeps_auth_witness:
  "\<exists>data final.
     txnbuild_NewTransaction (ex_sdk ex_entry ScvVoid)
       \<lparr>SourceAccountID = ''GB'', SourceSequence = 7, IncrementSequenceNum = True,
        Operations = [OpInvoke (ex_op\<lparr>op_Ext := Some data\<rparr>)], TxMemo = None,
        BaseFee = txnbuild_MinBaseFee (ex_sdk ex_entry ScvVoid), TimeoutSeconds = 300\<rparr> = Inr final \<and>
     tx_Base64 (ex_sdk ex_entry ScvVoid) final = Inr ''tx''"
  by (rule AssembleInvocation_keeps_auth
        [of _ "\<lambda>_. Inr \<lparr>sim_TransactionDataXDR = ''d'', sim_AuthXDR = [''a'']\<rparr>" "''np''"])
     (simp_all add: AssembleInvocation_def buildInvokeTx_def ex_op_def ex_sdk_def)

end
