(* ===== verification/Ports.thy ===== *)
theory Ports
  imports StellarX
begin

text \<open>
  \<open>backend/ports/ports.go\<close>: the data every service exchanges with the chain gateway, and the
  gateway itself. The gateway's answers are the fields of a record of functions: one value of
  it is what the network answers during one request.
\<close>

record Balance =
  AssetCode :: string
  AssetIssuer :: string
  bal_Balance :: string
  bal_Limit :: string

record AccountInfo =
  acc_Address :: string
  acc_Sequence :: i64
  acc_Balances :: "Balance list"
  acc_Exists :: bool

record TrustlineInfo =
  tl_Exists :: bool
  tl_Balance :: string
  tl_Limit :: string

record LedgerInfo =
  ldg_Sequence :: i64
  ldg_CloseTime :: i64

record SimulateResult =
  sr_Success :: bool
  sr_Error :: string
  sr_TransactionDataXDR :: string
  sr_MinResourceFee :: i64
  sr_ResultXDR :: string
  sr_AuthXDR :: "string list"

record SubmitResult =
  sub_Hash :: string
  sub_Successful :: bool
  sub_ResultCode :: string
  sub_LedgerSeq :: i64

record ChainGateway =
  GetAccount :: "string \<Rightarrow> AccountInfo res"
  GetTrustline :: "string \<Rightarrow> string \<Rightarrow> string \<Rightarrow> TrustlineInfo res"
  GetLedger :: "LedgerInfo res"
  SimulateTransaction :: "string \<Rightarrow> SimulateResult res"
  SubmitClassic :: "string \<Rightarrow> SubmitResult res"
  SubmitSoroban :: "string \<Rightarrow> SubmitResult res"
  Fund :: "string \<Rightarrow> unit res"

text \<open>
  Times are \<open>time.Time\<close> instants: nanoseconds since the Unix epoch. \<open>Unix()\<close> rounds down to
  seconds; PostgreSQL's \<open>timestamptz\<close> keeps microseconds.
\<close>

type_synonym time = int

definition time_Unix :: "time \<Rightarrow> int" where
  "time_Unix t = t div 1000000000"

definition pg_timestamp :: "time \<Rightarrow> time" where
  "pg_timestamp t = t div 1000 * 1000"

definition unix_u64 :: "time \<Rightarrow> u64" where
  "unix_u64 t = word_of_int (time_Unix t)"

lemma time_Unix_pg_timestamp [simp]: "time_Unix (pg_timestamp t) = time_Unix t"
proof -
  have "t div 1000 * 1000 div 1000000000 = t div 1000 div 1000000"
    using div_mult2_eq' [of "t div 1000 * 1000" 1000 1000000] by (simp flip: div_mult2_eq')
  moreover have "t div 1000 div 1000000 = t div 1000000000"
    using zdiv_zmult2_eq [of 1000000 t 1000] by simp
  ultimately show ?thesis by (simp add: time_Unix_def pg_timestamp_def)
qed

lemma unix_u64_pg_timestamp [simp]: "unix_u64 (pg_timestamp t) = unix_u64 t"
  by (simp add: unix_u64_def)

end
