(* ===== verification/ChequeRepo.thy ===== *)
theory ChequeRepo
  imports Ports Systems
begin

text \<open>
  \<open>backend/services/cheque/model.go\<close> and \<open>repository.go\<close> over the schema of
  \<open>deploy/migrations\<close>. Every table is a list of rows in a record \<open>pay_db\<close>; the constraints of
  the schema (primary keys, CHECKs, the partial unique indexes, NUMERIC(40,0) and VARCHAR(56)
  widths, foreign keys) are the failing branches of the statements. A statement takes the next
  entry of \<open>faults\<close>: the connection may fail before the statement (\<open>Fail\<close>) or after it took
  effect (\<open>Lost\<close>: the answer never arrives). A transaction that does not commit restores the
  tables it started from. \<open>db_clock\<close> is what \<open>now()\<close> returns. Ids are compared as written (the
  blank padding of CHAR(26) is not represented: every id the service stores has 26 characters).
\<close>

section \<open>The model: states, cheques, pool deposits\<close>

datatype State =
    StateTaslak | StateImzaliRezerve | StateFonlaniyor | StateHavuzda | StateTalepEdildi
  | StateOnaylandi | StateKapandi | StateIadeEdilebilir | StateIadeEdildi | StateHukumsuz
  | StateZorlaTahsilDenendi | StateKarsiliksiz

primrec State_string :: "State \<Rightarrow> string" where
  "State_string StateTaslak = ''TASLAK''"
| "State_string StateImzaliRezerve = ''IMZALI_REZERVE''"
| "State_string StateFonlaniyor = ''FONLANIYOR''"
| "State_string StateHavuzda = ''HAVUZDA''"
| "State_string StateTalepEdildi = ''TALEP_EDILDI''"
| "State_string StateOnaylandi = ''ONAYLANDI''"
| "State_string StateKapandi = ''KAPANDI''"
| "State_string StateIadeEdilebilir = ''IADE_EDILEBILIR''"
| "State_string StateIadeEdildi = ''IADE_EDILDI''"
| "State_string StateHukumsuz = ''HUKUMSUZ''"
| "State_string StateZorlaTahsilDenendi = ''ZORLA_TAHSIL_DENENDI''"
| "State_string StateKarsiliksiz = ''KARSILIKSIZ''"

instantiation State :: enum
begin

definition enum_State_def:
  "enum_class.enum = [StateTaslak, StateImzaliRezerve, StateFonlaniyor, StateHavuzda,
     StateTalepEdildi, StateOnaylandi, StateKapandi, StateIadeEdilebilir, StateIadeEdildi,
     StateHukumsuz, StateZorlaTahsilDenendi, StateKarsiliksiz]"

definition enum_all_State_def: "enum_class.enum_all P \<longleftrightarrow> list_all P (enum_class.enum :: State list)"

definition enum_ex_State_def: "enum_class.enum_ex P \<longleftrightarrow> list_ex P (enum_class.enum :: State list)"

instance
proof
  show u: "(UNIV :: State set) = set enum_class.enum"
  proof (rule set_eqI)
    fix s :: State
    show "s \<in> UNIV \<longleftrightarrow> s \<in> set enum_class.enum" by (cases s) (simp_all add: enum_State_def)
  qed
  show "distinct (enum_class.enum :: State list)" by (simp add: enum_State_def)
  show "enum_class.enum_all P \<longleftrightarrow> Ball (UNIV :: State set) P" for P :: "State \<Rightarrow> bool"
    unfolding u enum_all_State_def by (simp add: list_all_iff)
  show "enum_class.enum_ex P \<longleftrightarrow> Bex (UNIV :: State set) P" for P :: "State \<Rightarrow> bool"
    unfolding u enum_ex_State_def by (simp add: list_ex_iff)
qed

end

definition terminalStates :: "State list" where
  "terminalStates = [StateKapandi, StateIadeEdildi, StateHukumsuz, StateKarsiliksiz]"

definition IsTerminal :: "State \<Rightarrow> bool" where
  "IsTerminal s \<longleftrightarrow> s \<in> set terminalStates"

record Cheque =
  ID :: string
  SenderAddress :: string
  ReceiverAddress :: string
  RequestID :: string
  TokenContract :: string
  AmountRaw :: string
  ChequeDecimals :: u8
  ChequeState :: State
  ExpiresAt :: time
  LockTxHash :: string
  PreauthEntryXDR :: string
  CreatedAt :: time
  UpdatedAt :: time
  ChainVerified :: "bool option"

record PoolDeposit =
  OwnerAddress :: string
  PoolAmountRaw :: string
  PoolDecimals :: u8
  LastDepositLedger :: i64
  LastDepositAt :: time
  PoolUpdatedAt :: time
  PoolChainVerified :: "bool option"

section \<open>Tables\<close>

record cheque_row =
  row_id :: string
  sender_address :: string
  receiver_address :: string
  token_contract :: string
  amount_raw :: int
  decimals :: u8
  state :: State
  expires_at :: time
  lock_tx_hash :: "string option"
  preauth_entry_xdr :: "string option"
  created_at :: time
  updated_at :: time
  request_id :: "string option"

record transition_row =
  tr_cheque_id :: string
  from_state :: State
  to_state :: State
  cause :: string
  tr_tx_hash :: "string option"

datatype reservation_state = Active | Released

record reservation_row =
  rs_cheque_id :: string
  account :: string
  rs_amount_raw :: int
  rs_state :: reservation_state

record pool_row =
  owner_address :: string
  pl_amount_raw :: int
  pl_decimals :: u8
  last_deposit_ledger :: "i64 option"
  last_deposit_at :: "time option"
  pl_ledger_seq :: "i64 option"
  pl_updated_at :: time

record audit_row =
  actor :: string
  action :: string
  details :: "(string \<times> string) list"

text \<open>
  The tables of the other services in the same schema: the idempotency keys and submissions of
  the tx service, the users of the auth service, the anchor's transactions. The stored JSON
  response of an idempotency key is the response it encodes.
\<close>

record SubmitResponse =
  resp_Hash :: string
  resp_Successful :: bool
  resp_ResultCode :: string
  resp_Replayed :: bool

record idempotency_row =
  ik_key :: string
  ik_stellar_address :: string
  ik_request_hash :: string
  ik_response_json :: "SubmitResponse option"
  ik_status :: string
  ik_expires_at :: time

record submission_row =
  sb_idempotency_key :: string
  sb_stellar_address :: string
  sb_purpose :: string
  sb_tx_hash :: "string option"
  sb_state :: string
  sb_result_code :: "string option"
  sb_created_at :: time
  sb_updated_at :: time

record user_row =
  us_id :: int
  us_stellar_address :: string
  us_display_name :: "string option"
  us_created_at :: time

record anchor_row =
  at_id :: string
  at_anchor_id :: string
  at_stellar_address :: string
  at_kind :: string
  at_state :: string
  at_amount_raw :: "string option" \<comment> \<open>the text of the numeric\<close>
  at_decimals :: "u8 option"
  at_stellar_tx_hash :: "string option"
  at_started_at :: time
  at_updated_at :: time

record trustline_row =
  tr_stellar_address :: string
  tr_asset_code :: string
  tr_asset_issuer :: string
  tr_state :: string
  tr_ledger_seq :: i64
  tr_updated_at :: time

datatype fault = Fail | Lost

record pay_db =
  cheques :: "cheque_row list"
  cheque_transitions :: "transition_row list"
  reservations :: "reservation_row list"
  pool_deposits :: "pool_row list"
  idempotency_keys :: "idempotency_row list"
  submissions :: "submission_row list"
  users :: "user_row list"
  anchor_transactions :: "anchor_row list"
  trustlines :: "trustline_row list"
  audit_log :: "audit_row list"
  db_clock :: time
  faults :: "fault option list"

section \<open>Statements and transactions\<close>

datatype pg_error = PgError string string \<comment> \<open>SQLSTATE, constraint name\<close> | PgConn

definition pgErr :: "pg_error \<Rightarrow> go_error" where
  "pgErr e = (case e of PgError sqlstate cn \<Rightarrow> Opaque (''ERROR: (SQLSTATE '' @ sqlstate @ '')'')
              | PgConn \<Rightarrow> Opaque ''pgx: connection failed'')"

type_synonym 'a stmt = "pay_db \<Rightarrow> pg_error + 'a \<times> pay_db"

definition next_fault :: "pay_db \<Rightarrow> fault option \<times> pay_db" where
  "next_fault db = (case faults db of [] \<Rightarrow> (None, db) | f # fs \<Rightarrow> (f, db\<lparr>faults := fs\<rparr>))"

text \<open>One statement on the wire.\<close>

definition exec :: "'a stmt \<Rightarrow> pay_db \<Rightarrow> (pg_error + 'a) \<times> pay_db" where
  "exec f db =
     (case next_fault db of
        (Some Fail, db1) \<Rightarrow> (Inl PgConn, db1)
      | (Some Lost, db1) \<Rightarrow> (case f db1 of Inl e \<Rightarrow> (Inl PgConn, db1) | Inr (x, db2) \<Rightarrow> (Inl PgConn, db2))
      | (None, db1) \<Rightarrow> (case f db1 of Inl e \<Rightarrow> (Inl e, db1) | Inr (x, db2) \<Rightarrow> (Inr x, db2)))"

definition tx_begin :: "pay_db \<Rightarrow> (pg_error + unit) \<times> pay_db" where
  "tx_begin db = exec (\<lambda>db. Inr ((), db)) db"

text \<open>Abandon a transaction: the tables of \<open>db0\<close>, with the faults that were used up.\<close>

definition rollback :: "pay_db \<Rightarrow> pay_db \<Rightarrow> pay_db" where
  "rollback db0 db = db0\<lparr>faults := faults db\<rparr>"

definition tx_commit :: "pay_db \<Rightarrow> pay_db \<Rightarrow> unit res \<times> pay_db" where
  "tx_commit db0 db =
     (case next_fault db of
        (Some Fail, db1) \<Rightarrow> (Inl (pgErr PgConn), rollback db0 db1)
      | (Some Lost, db1) \<Rightarrow> (Inl (pgErr PgConn), db1)
      | (None, db1) \<Rightarrow> (Inr (), db1))"

definition numeric_40_0 :: "int \<Rightarrow> bool" where
  "numeric_40_0 n \<longleftrightarrow> \<bar>n\<bar> < 10 ^ 40"

definition nullif_empty :: "string \<Rightarrow> string option" where
  "nullif_empty s = (if s = [] then None else Some s)"

definition coalesce_empty :: "string option \<Rightarrow> string" where
  "coalesce_empty v = (case v of None \<Rightarrow> [] | Some s \<Rightarrow> s)"

definition ErrAlreadyActiveInRepo :: go_error where
  "ErrAlreadyActiveInRepo = Sentinel ''cheque: sender already has an active cheque''"

definition ErrNotFoundInRepo :: go_error where
  "ErrNotFoundInRepo = Sentinel ''cheque: not found''"

definition ErrRequestUsedInRepo :: go_error where
  "ErrRequestUsedInRepo = Sentinel ''cheque: payment request already used''"

definition ErrBadTransitionInRepo :: go_error where
  "ErrBadTransitionInRepo = Sentinel ''cheque: transition already recorded or invalid''"

text \<open>
  INSERT INTO pay.cheques: column types first (CHAR(26), VARCHAR(56), NUMERIC(40,0)), then the
  CHECK constraints, then the unique indexes in the order of their creation.
\<close>

definition insert_cheque :: "Cheque \<Rightarrow> unit stmt" where
  "insert_cheque c db =
     (case bigint_SetString (AmountRaw c) of
        None \<Rightarrow> Inl (PgError ''22P02'' [])
      | Some amt \<Rightarrow>
          let row = \<lparr>row_id = ID c, sender_address = SenderAddress c,
                receiver_address = ReceiverAddress c, token_contract = TokenContract c,
                amount_raw = amt, decimals = ChequeDecimals c, state = ChequeState c,
                expires_at = pg_timestamp (ExpiresAt c), lock_tx_hash = None,
                preauth_entry_xdr = None, created_at = db_clock db, updated_at = db_clock db,
                request_id = nullif_empty (RequestID c)\<rparr>
          in if length (ID c) > 26 \<or> length (SenderAddress c) > 56 \<or> length (ReceiverAddress c) > 56
                \<or> length (TokenContract c) > 56 then Inl (PgError ''22001'' [])
             else if \<not> numeric_40_0 amt then Inl (PgError ''22003'' [])
             else if amt \<le> 0 then Inl (PgError ''23514'' ''cheques_amount_raw_check'')
             else if SenderAddress c = ReceiverAddress c then Inl (PgError ''23514'' ''cheques_check'')
             else if list_ex (\<lambda>r. row_id r = ID c) (cheques db)
               then Inl (PgError ''23505'' ''cheques_pkey'')
             else if request_id row \<noteq> None \<and>
                     list_ex (\<lambda>r. receiver_address r = ReceiverAddress c \<and> request_id r = request_id row)
                       (cheques db)
               then Inl (PgError ''23505'' ''uq_cheques_receiver_request'')
             else Inr ((), db\<lparr>cheques := cheques db @ [row]\<rparr>))"

definition insert_reservation :: "string \<Rightarrow> string \<Rightarrow> string \<Rightarrow> unit stmt" where
  "insert_reservation chequeID acct amountRaw db =
     (case bigint_SetString amountRaw of
        None \<Rightarrow> Inl (PgError ''22P02'' [])
      | Some amt \<Rightarrow>
          if length acct > 56 then Inl (PgError ''22001'' [])
          else if \<not> numeric_40_0 amt then Inl (PgError ''22003'' [])
          else if list_ex (\<lambda>r. rs_cheque_id r = chequeID) (reservations db)
            then Inl (PgError ''23505'' ''reservations_pkey'')
          else if list_ex (\<lambda>r. account r = acct \<and> rs_state r = Active) (reservations db)
            then Inl (PgError ''23505'' ''uq_reservations_active_account'')
          else if \<not> list_ex (\<lambda>r. row_id r = chequeID) (cheques db)
            then Inl (PgError ''23503'' ''reservations_cheque_id_fkey'')
          else Inr ((), db\<lparr>reservations := reservations db @
                 [\<lparr>rs_cheque_id = chequeID, account = acct, rs_amount_raw = amt, rs_state = Active\<rparr>]\<rparr>))"

definition insert_transition :: "string \<Rightarrow> State \<Rightarrow> State \<Rightarrow> string \<Rightarrow> string \<Rightarrow> unit stmt" where
  "insert_transition chequeID from to cs txHash db =
     (if list_ex (\<lambda>t. tr_cheque_id t = chequeID \<and> from_state t = from \<and> to_state t = to)
           (cheque_transitions db)
      then Inl (PgError ''23505'' ''cheque_transitions_cheque_id_from_state_to_state_key'')
      else if \<not> list_ex (\<lambda>r. row_id r = chequeID) (cheques db)
      then Inl (PgError ''23503'' ''cheque_transitions_cheque_id_fkey'')
      else Inr ((), db\<lparr>cheque_transitions := cheque_transitions db @
             [\<lparr>tr_cheque_id = chequeID, from_state = from, to_state = to, cause = cs,
               tr_tx_hash = nullif_empty txHash\<rparr>]\<rparr>))"

text \<open>UPDATE ... WHERE, returning the number of rows affected.\<close>

definition update_cheques :: "(cheque_row \<Rightarrow> bool) \<Rightarrow> (cheque_row \<Rightarrow> cheque_row) \<Rightarrow> nat stmt" where
  "update_cheques P f db =
     Inr (length (filter P (cheques db)),
          db\<lparr>cheques := map (\<lambda>r. if P r then (f r)\<lparr>updated_at := db_clock db\<rparr> else r) (cheques db)\<rparr>)"

definition release_reservations :: "string \<Rightarrow> nat stmt" where
  "release_reservations chequeID db =
     Inr (length (filter (\<lambda>r. rs_cheque_id r = chequeID) (reservations db)),
          db\<lparr>reservations :=
            map (\<lambda>r. if rs_cheque_id r = chequeID then r\<lparr>rs_state := Released\<rparr> else r) (reservations db)\<rparr>)"

section \<open>Repository\<close>

definition CreateReservedCheque :: "Cheque \<Rightarrow> pay_db \<Rightarrow> unit res \<times> pay_db" where
  "CreateReservedCheque c db0 =
     (case tx_begin db0 of
        (Inl e, db) \<Rightarrow> (Inl (pgErr e), db)
      | (Inr _, db) \<Rightarrow>
          (case exec (insert_cheque c) db of
             (Inl e, db1) \<Rightarrow>
               (Inl (if e = PgError ''23505'' ''uq_cheques_receiver_request''
                     then ErrRequestUsedInRepo else pgErr e), rollback db0 db1)
           | (Inr _, db1) \<Rightarrow>
               (case exec (insert_reservation (ID c) (SenderAddress c) (AmountRaw c)) db1 of
                  (Inl e, db2) \<Rightarrow> (Inl ErrAlreadyActiveInRepo, rollback db0 db2)
                | (Inr _, db2) \<Rightarrow>
                    (case exec (insert_transition (ID c) StateTaslak StateImzaliRezerve
                            ''user_action'' []) db2 of
                       (Inl e, db3) \<Rightarrow> (Inl (pgErr e), rollback db0 db3)
                     | (Inr _, db3) \<Rightarrow> tx_commit db0 db3))))"

definition scan_cheque :: "cheque_row \<Rightarrow> Cheque" where
  "scan_cheque r =
     \<lparr>ID = row_id r, SenderAddress = sender_address r, ReceiverAddress = receiver_address r,
      RequestID = coalesce_empty (request_id r), TokenContract = token_contract r,
      AmountRaw = bigint_String (amount_raw r), ChequeDecimals = decimals r, ChequeState = state r,
      ExpiresAt = expires_at r, LockTxHash = coalesce_empty (lock_tx_hash r),
      PreauthEntryXDR = coalesce_empty (preauth_entry_xdr r), CreatedAt = created_at r,
      UpdatedAt = updated_at r, ChainVerified = None\<rparr>"

definition GetCheque :: "string \<Rightarrow> pay_db \<Rightarrow> Cheque res \<times> pay_db" where
  "GetCheque chequeID db0 =
     (case exec (\<lambda>db. Inr (find (\<lambda>r. row_id r = chequeID) (cheques db), db)) db0 of
        (Inl e, db) \<Rightarrow> (Inl (pgErr e), db)
      | (Inr None, db) \<Rightarrow> (Inl ErrNotFoundInRepo, db)
      | (Inr (Some r), db) \<Rightarrow> (Inr (scan_cheque r), db))"

text \<open>
  \<open>(cheque, found, err)\<close>: \<open>Inr None\<close> when the sender has no active reservation. When the second
  query fails the code returns the error with \<open>found = true\<close>; callers test the error first.
\<close>

definition ActiveChequeForSender :: "string \<Rightarrow> pay_db \<Rightarrow> Cheque option res \<times> pay_db" where
  "ActiveChequeForSender sender db0 =
     (case exec (\<lambda>db. Inr (find (\<lambda>r. account r = sender \<and> rs_state r = Active) (reservations db), db)) db0 of
        (Inl e, db) \<Rightarrow> (Inl (pgErr e), db)
      | (Inr None, db) \<Rightarrow> (Inr None, db)
      | (Inr (Some r), db) \<Rightarrow>
          (case GetCheque (rs_cheque_id r) db of
             (Inl e, db1) \<Rightarrow> (Inl e, db1)
           | (Inr c, db1) \<Rightarrow> (Inr (Some c), db1)))"

definition SetPreauthEntry :: "string \<Rightarrow> string \<Rightarrow> pay_db \<Rightarrow> unit res \<times> pay_db" where
  "SetPreauthEntry chequeID entryXDR db0 =
     (case exec (update_cheques (\<lambda>r. row_id r = chequeID)
                   (\<lambda>r. r\<lparr>preauth_entry_xdr := Some entryXDR\<rparr>)) db0 of
        (Inl e, db) \<Rightarrow> (Inl (pgErr e), db)
      | (Inr _, db) \<Rightarrow> (Inr (), db))"

definition SetLockTxHash :: "string \<Rightarrow> string \<Rightarrow> pay_db \<Rightarrow> unit res \<times> pay_db" where
  "SetLockTxHash chequeID txHash db0 =
     (case exec (update_cheques (\<lambda>r. row_id r = chequeID)
                   (\<lambda>r. r\<lparr>lock_tx_hash := Some txHash\<rparr>)) db0 of
        (Inl e, db) \<Rightarrow> (Inl (pgErr e), db)
      | (Inr _, db) \<Rightarrow> (Inr (), db))"

definition Transition ::
  "string \<Rightarrow> State \<Rightarrow> State \<Rightarrow> string \<Rightarrow> string \<Rightarrow> pay_db \<Rightarrow> unit res \<times> pay_db" where
  "Transition chequeID from to cs txHash db0 =
     (case tx_begin db0 of
        (Inl e, db) \<Rightarrow> (Inl (pgErr e), db)
      | (Inr _, db) \<Rightarrow>
          (case exec (update_cheques (\<lambda>r. row_id r = chequeID \<and> state r = from)
                        (\<lambda>r. r\<lparr>state := to\<rparr>)) db of
             (Inl e, db1) \<Rightarrow> (Inl (pgErr e), rollback db0 db1)
           | (Inr rowsAffected, db1) \<Rightarrow>
               if rowsAffected = 0 then (Inl ErrBadTransitionInRepo, rollback db0 db1)
               else
                 (case exec (insert_transition chequeID from to cs txHash) db1 of
                    (Inl e, db2) \<Rightarrow> (Inl ErrBadTransitionInRepo, rollback db0 db2)
                  | (Inr _, db2) \<Rightarrow>
                      if IsTerminal to
                      then (case exec (release_reservations chequeID) db2 of
                              (Inl e, db3) \<Rightarrow> (Inl (pgErr e), rollback db0 db3)
                            | (Inr _, db3) \<Rightarrow> tx_commit db0 db3)
                      else tx_commit db0 db2)))"

text \<open>\<open>ORDER BY updated_at DESC LIMIT 200\<close>; rows with equal times keep the table's order here.\<close>

definition ListActiveForAddress :: "string \<Rightarrow> pay_db \<Rightarrow> Cheque list res \<times> pay_db" where
  "ListActiveForAddress address db0 =
     (case exec (\<lambda>db. Inr (take 200 (sort_key (\<lambda>r. - updated_at r)
                (filter (\<lambda>r. sender_address r = address \<or> receiver_address r = address) (cheques db))), db)) db0 of
        (Inl e, db) \<Rightarrow> (Inl (pgErr e), db)
      | (Inr rows, db) \<Rightarrow> (Inr (map scan_cheque rows), db))"

definition ExpiredFundedChequesRepo :: "time \<Rightarrow> pay_db \<Rightarrow> Cheque list res \<times> pay_db" where
  "ExpiredFundedChequesRepo asOf db0 =
     (case exec (\<lambda>db. Inr (filter (\<lambda>r. state r = StateHavuzda \<and> expires_at r \<le> pg_timestamp asOf)
                (cheques db), db)) db0 of
        (Inl e, db) \<Rightarrow> (Inl (pgErr e), db)
      | (Inr rows, db) \<Rightarrow> (Inr (map scan_cheque rows), db))"

section \<open>Repository: the pool cache\<close>

definition time_zero :: time where
  "time_zero = - 62135596800000000000"

definition GetPool :: "string \<Rightarrow> pay_db \<Rightarrow> (PoolDeposit \<times> bool) res \<times> pay_db" where
  "GetPool owner db0 =
     (case exec (\<lambda>db. Inr (find (\<lambda>r. owner_address r = owner) (pool_deposits db), db)) db0 of
        (Inl e, db) \<Rightarrow> (Inl (pgErr e), db)
      | (Inr None, db) \<Rightarrow>
          (Inr (\<lparr>OwnerAddress = owner, PoolAmountRaw = ''0'', PoolDecimals = 0, LastDepositLedger = 0,
                 LastDepositAt = time_zero, PoolUpdatedAt = time_zero, PoolChainVerified = None\<rparr>, False), db)
      | (Inr (Some r), db) \<Rightarrow>
          (Inr (\<lparr>OwnerAddress = owner, PoolAmountRaw = bigint_String (pl_amount_raw r),
                 PoolDecimals = pl_decimals r,
                 LastDepositLedger = (case last_deposit_ledger r of None \<Rightarrow> 0 | Some l \<Rightarrow> l),
                 LastDepositAt = (case last_deposit_at r of None \<Rightarrow> time_zero | Some t \<Rightarrow> t),
                 PoolUpdatedAt = pl_updated_at r, PoolChainVerified = None\<rparr>, True), db))"

text \<open>
  \<open>INSERT ... ON CONFLICT (owner_address) DO UPDATE\<close>: the new row when the owner has none, the
  row changed by \<open>upd\<close> otherwise, refused when a stored amount leaves NUMERIC(40,0).
\<close>

definition upsert_pool :: "string \<Rightarrow> string \<Rightarrow> (int \<Rightarrow> pool_row) \<Rightarrow> (int \<Rightarrow> pool_row \<Rightarrow> pool_row) \<Rightarrow> unit stmt" where
  "upsert_pool owner amountRaw new upd db =
     (case bigint_SetString amountRaw of
        None \<Rightarrow> Inl (PgError ''22P02'' [])
      | Some amt \<Rightarrow>
          if length owner > 56 then Inl (PgError ''22001'' [])
          else if \<not> numeric_40_0 amt then Inl (PgError ''22003'' [])
          else if \<not> list_ex (\<lambda>r. owner_address r = owner) (pool_deposits db)
          then Inr ((), db\<lparr>pool_deposits := pool_deposits db @ [new amt]\<rparr>)
          else if list_ex (\<lambda>r. owner_address r = owner \<and> \<not> numeric_40_0 (pl_amount_raw (upd amt r)))
                 (pool_deposits db)
          then Inl (PgError ''22003'' [])
          else Inr ((), db\<lparr>pool_deposits :=
                 map (\<lambda>r. if owner_address r = owner then upd amt r else r) (pool_deposits db)\<rparr>))"

definition RecordDeposit :: "string \<Rightarrow> string \<Rightarrow> u8 \<Rightarrow> i64 \<Rightarrow> pay_db \<Rightarrow> unit res \<times> pay_db" where
  "RecordDeposit owner amountRaw decs ledgerSeq db0 =
     (let now = db_clock db0 in
      case exec (upsert_pool owner amountRaw
             (\<lambda>amt. \<lparr>owner_address = owner, pl_amount_raw = amt, pl_decimals = decs,
                     last_deposit_ledger = Some ledgerSeq, last_deposit_at = Some now,
                     pl_ledger_seq = Some ledgerSeq, pl_updated_at = now\<rparr>)
             (\<lambda>amt r. r\<lparr>pl_amount_raw := pl_amount_raw r + amt, pl_decimals := decs,
                       last_deposit_ledger := Some ledgerSeq, last_deposit_at := Some now,
                       pl_ledger_seq := Some ledgerSeq, pl_updated_at := now\<rparr>)) db0 of
        (Inl e, db) \<Rightarrow> (Inl (pgErr e), db)
      | (Inr _, db) \<Rightarrow> (Inr (), db))"

text \<open>\<open>UPDATE ... SET amount_raw = GREATEST(amount_raw - $2, 0) WHERE owner_address = $1\<close>.\<close>

definition debit_pool :: "string \<Rightarrow> string \<Rightarrow> nat stmt" where
  "debit_pool owner amountRaw db =
     (case bigint_SetString amountRaw of
        None \<Rightarrow> Inl (PgError ''22P02'' [])
      | Some amt \<Rightarrow>
          if list_ex (\<lambda>r. owner_address r = owner \<and> \<not> numeric_40_0 (max (pl_amount_raw r - amt) 0))
               (pool_deposits db)
          then Inl (PgError ''22003'' [])
          else Inr (length (filter (\<lambda>r. owner_address r = owner) (pool_deposits db)),
                 db\<lparr>pool_deposits := map (\<lambda>r. if owner_address r = owner
                        then r\<lparr>pl_amount_raw := max (pl_amount_raw r - amt) 0, pl_updated_at := db_clock db\<rparr>
                        else r) (pool_deposits db)\<rparr>))"

definition RecordWithdraw :: "string \<Rightarrow> string \<Rightarrow> pay_db \<Rightarrow> unit res \<times> pay_db" where
  "RecordWithdraw owner amountRaw db0 =
     (case exec (debit_pool owner amountRaw) db0 of
        (Inl e, db) \<Rightarrow> (Inl (pgErr e), db)
      | (Inr rowsAffected, db) \<Rightarrow>
          if rowsAffected = 0 then (Inl (Annot ErrNotFoundInRepo ''no pool row for owner''), db)
          else (Inr (), db))"

definition SetPoolAmount :: "string \<Rightarrow> string \<Rightarrow> u8 \<Rightarrow> pay_db \<Rightarrow> unit res \<times> pay_db" where
  "SetPoolAmount owner amountRaw decs db0 =
     (let now = db_clock db0 in
      case exec (upsert_pool owner amountRaw
             (\<lambda>amt. \<lparr>owner_address = owner, pl_amount_raw = amt, pl_decimals = decs,
                     last_deposit_ledger = None, last_deposit_at = None, pl_ledger_seq = Some 0,
                     pl_updated_at = now\<rparr>)
             (\<lambda>amt r. r\<lparr>pl_amount_raw := amt, pl_decimals := decs, pl_updated_at := now\<rparr>)) db0 of
        (Inl e, db) \<Rightarrow> (Inl (pgErr e), db)
      | (Inr _, db) \<Rightarrow> (Inr (), db))"

definition InsertAudit :: "string \<Rightarrow> string \<Rightarrow> (string \<times> string) list \<Rightarrow> pay_db \<Rightarrow> unit res \<times> pay_db" where
  "InsertAudit act actn dts db0 =
     (case exec (\<lambda>db. Inr ((), db\<lparr>audit_log := audit_log db @
              [\<lparr>actor = act, action = actn, details = dts\<rparr>]\<rparr>)) db0 of
        (Inl e, db) \<Rightarrow> (Inl (pgErr e), db)
      | (Inr _, db) \<Rightarrow> (Inr (), db))"

end
