(* ===== verification/ChequeLedger.thy ===== *)
theory ChequeLedger
  imports ChequeRepo
begin

text \<open>
  The cheque database as a state system. \<open>repo_step\<close> has one rule per committed repository
  transaction and one for everything that leaves the cheque tables alone (time passing, faults,
  the other services writing their own tables);
  since every repository call is one database transaction, a run of it is an interleaving of
  any number of service calls. \<open>ledger_inv\<close> is the invariant of the tables: one reservation per
  cheque, active exactly while the cheque is not terminal, at most one active reservation per
  account, and a transition log that spells out how each cheque came to its state.
\<close>

section \<open>The graph of transitions\<close>

text \<open>
  The pairs the service passes to \<open>Transition\<close> (service.go: ConfirmLock, ClaimXDR,
  ConfirmClaim, AcknowledgeReceipt, ForceCollectXDR, ConfirmForceCollect, MarkRefunded).
\<close>

definition edges :: "(State \<times> State) list" where
  "edges =
     [(StateImzaliRezerve, StateHavuzda), (StateFonlaniyor, StateHavuzda),
      (StateImzaliRezerve, StateTalepEdildi), (StateFonlaniyor, StateTalepEdildi),
      (StateHavuzda, StateTalepEdildi), (StateTalepEdildi, StateOnaylandi),
      (StateOnaylandi, StateKapandi),
      (StateImzaliRezerve, StateZorlaTahsilDenendi), (StateFonlaniyor, StateZorlaTahsilDenendi),
      (StateZorlaTahsilDenendi, StateKapandi), (StateZorlaTahsilDenendi, StateKarsiliksiz),
      (StateHavuzda, StateIadeEdilebilir), (StateIadeEdilebilir, StateIadeEdildi)]"

primrec state_rank :: "State \<Rightarrow> nat" where
  "state_rank StateTaslak = 0"
| "state_rank StateImzaliRezerve = 1"
| "state_rank StateFonlaniyor = 2"
| "state_rank StateHavuzda = 3"
| "state_rank StateTalepEdildi = 4"
| "state_rank StateOnaylandi = 5"
| "state_rank StateZorlaTahsilDenendi = 4"
| "state_rank StateIadeEdilebilir = 4"
| "state_rank StateIadeEdildi = 6"
| "state_rank StateKapandi = 6"
| "state_rank StateKarsiliksiz = 6"
| "state_rank StateHukumsuz = 6"

text \<open>The state a log of transitions leads to; \<open>None\<close> when two entries do not connect.\<close>

fun run_log :: "State \<Rightarrow> (State \<times> State) list \<Rightarrow> State option" where
  "run_log s [] = Some s"
| "run_log s ((f, t) # es) = (if f = s then run_log t es else None)"

lemma IsTerminal_iff [simp]:
  "IsTerminal s \<longleftrightarrow> s \<in> {StateKapandi, StateIadeEdildi, StateHukumsuz, StateKarsiliksiz}"
  by (simp add: IsTerminal_def terminalStates_def)

lemma edges_up: "(f, t) \<in> set edges \<Longrightarrow> state_rank f < state_rank t"
  by (auto simp: edges_def)

lemma edges_not_terminal: "(f, t) \<in> set edges \<Longrightarrow> \<not> IsTerminal f"
  by (auto simp: edges_def)

lemma edges_not_reserved: "(f, t) \<in> set edges \<Longrightarrow> t \<noteq> StateImzaliRezerve \<and> t \<noteq> StateTaslak"
  by (auto simp: edges_def)

lemma run_log_append:
  "run_log s (es @ es') = (case run_log s es of None \<Rightarrow> None | Some t \<Rightarrow> run_log t es')"
  by (induction s es rule: run_log.induct) auto

definition all_edges :: "(State \<times> State) list" where
  "all_edges = (StateTaslak, StateImzaliRezerve) # edges"

lemma all_edges_up: "(f, t) \<in> set all_edges \<Longrightarrow> state_rank f < state_rank t"
  using edges_up by (auto simp: all_edges_def)

lemma run_log_rank:
  "run_log s es = Some t \<Longrightarrow> set es \<subseteq> set all_edges \<Longrightarrow>
     state_rank s \<le> state_rank t \<and> (\<forall>(f, g) \<in> set es. state_rank f < state_rank t)"
proof (induction s es rule: run_log.induct)
  case (2 s f u es)
  then have "run_log u es = Some t" "f = s" "state_rank f < state_rank u"
    by (auto split: if_splits dest: all_edges_up)
  with 2 show ?case by auto
qed simp

section \<open>Statements change what they say\<close>

definition same_tables :: "pay_db \<Rightarrow> pay_db \<Rightarrow> bool" where
  "same_tables db db' \<longleftrightarrow> db' = db\<lparr>faults := faults db'\<rparr>"

lemma same_tables_refl [simp]: "same_tables db db"
  by (simp add: same_tables_def)

lemma same_tables_faults [simp]: "same_tables db (db\<lparr>faults := fs\<rparr>)"
  by (simp add: same_tables_def)

lemma same_tables_proj:
  "same_tables a b \<Longrightarrow> cheques b = cheques a \<and> cheque_transitions b = cheque_transitions a \<and>
     reservations b = reservations a \<and> pool_deposits b = pool_deposits a \<and> audit_log b = audit_log a \<and>
     idempotency_keys b = idempotency_keys a \<and> submissions b = submissions a \<and> users b = users a \<and>
     anchor_transactions b = anchor_transactions a \<and> trustlines b = trustlines a \<and> db_clock b = db_clock a"
  unfolding same_tables_def by (erule ssubst) simp

lemma same_tables_rollback [simp]: "same_tables db (rollback db db')"
  by (simp add: rollback_def)

lemma next_fault_same: "next_fault db = (f, db') \<Longrightarrow> same_tables db db'"
  by (auto simp: next_fault_def split: list.splits)

lemma exec_cases:
  assumes "exec f db = (r, db')"
  obtains db1 where "same_tables db db1"
    and "db' = db1 \<and> (\<exists>e. r = Inl e) \<or> (\<exists>x. f db1 = Inr (x, db') \<and> (r = Inr x \<or> r = Inl PgConn))"
proof -
  obtain flt db1 where n: "next_fault db = (flt, db1)" by fastforce
  have "db' = db1 \<and> (\<exists>e. r = Inl e) \<or> (\<exists>x. f db1 = Inr (x, db') \<and> (r = Inr x \<or> r = Inl PgConn))"
    using assms unfolding exec_def n
    by (auto split: option.splits fault.splits sum.splits prod.splits)
  then show thesis using that next_fault_same [OF n] by blast
qed

lemma exec_Inr:
  assumes "exec f db = (Inr x, db')"
  obtains db1 where "same_tables db db1" and "f db1 = Inr (x, db')"
  using assms by (rule exec_cases) auto

lemma tx_begin_same: "tx_begin db = (r, db') \<Longrightarrow> same_tables db db'"
  unfolding tx_begin_def by (erule exec_cases) auto

lemma tx_commit_cases:
  "tx_commit db0 db = (r, db') \<Longrightarrow>
     (same_tables db0 db' \<and> (\<exists>e. r = Inl e)) \<or> (same_tables db db' \<and> (r = Inr () \<or> r = Inl (pgErr PgConn)))"
  unfolding tx_commit_def
  by (auto split: option.splits fault.splits prod.splits dest: next_fault_same)

section \<open>Steps\<close>

inductive repo_step :: "pay_db \<Rightarrow> pay_db \<Rightarrow> bool" where
  step_env: "repo_step db (db\<lparr>idempotency_keys := ik, submissions := sb, users := us,
     anchor_transactions := at, trustlines := tls, db_clock := t, faults := fs\<rparr>)"
| step_create:
    "ChequeState c = StateImzaliRezerve \<Longrightarrow> insert_cheque c db = Inr ((), db1) \<Longrightarrow>
     insert_reservation (ID c) (SenderAddress c) (AmountRaw c) db1 = Inr ((), db2) \<Longrightarrow>
     insert_transition (ID c) StateTaslak StateImzaliRezerve cs h db2 = Inr ((), db3) \<Longrightarrow>
     repo_step db db3"
| step_move:
    "(from, to) \<in> set edges \<Longrightarrow>
     update_cheques (\<lambda>r. row_id r = x \<and> state r = from) (\<lambda>r. r\<lparr>state := to\<rparr>) db = Inr (n, db1) \<Longrightarrow>
     n \<noteq> 0 \<Longrightarrow> insert_transition x from to cs h db1 = Inr ((), db2) \<Longrightarrow>
     (if IsTerminal to then release_reservations x db2 else Inr (m, db2)) = Inr (m, db3) \<Longrightarrow>
     repo_step db db3"
| step_preauth:
    "update_cheques (\<lambda>r. row_id r = x) (\<lambda>r. r\<lparr>preauth_entry_xdr := Some e\<rparr>) db = Inr (n, db1) \<Longrightarrow>
     repo_step db db1"
| step_lock_hash:
    "update_cheques (\<lambda>r. row_id r = x) (\<lambda>r. r\<lparr>lock_tx_hash := Some h\<rparr>) db = Inr (n, db1) \<Longrightarrow>
     repo_step db db1"
| step_pool_upsert:
    "upsert_pool owner a new upd db = Inr ((), db1) \<Longrightarrow>
     (\<And>amt. owner_address (new amt) = owner \<and> pl_amount_raw (new amt) = amt) \<Longrightarrow>
     (\<And>amt r. owner_address (upd amt r) = owner_address r) \<Longrightarrow> repo_step db db1"
| step_pool_debit: "debit_pool owner a db = Inr (n, db1) \<Longrightarrow> repo_step db db1"
| step_audit: "repo_step db (db\<lparr>audit_log := audit_log db @ [a]\<rparr>)"

inductive_simps repo_step_iff: "repo_step db db'"

definition empty_db :: "pay_db \<Rightarrow> bool" where
  "empty_db db \<longleftrightarrow> cheques db = [] \<and> cheque_transitions db = [] \<and> reservations db = [] \<and>
     pool_deposits db = []"

section \<open>The invariant\<close>

definition log_of :: "transition_row list \<Rightarrow> string \<Rightarrow> (State \<times> State) list" where
  "log_of ts x = map (\<lambda>t. (from_state t, to_state t)) (filter (\<lambda>t. tr_cheque_id t = x) ts)"

definition reserved :: "cheque_row \<Rightarrow> reservation_row \<Rightarrow> bool" where
  "reserved r s \<longleftrightarrow> rs_cheque_id s = row_id r \<and> account s = sender_address r \<and>
     rs_amount_raw s = amount_raw r \<and> (rs_state s = Active \<longleftrightarrow> \<not> IsTerminal (state r))"

definition row_ok :: "cheque_row \<Rightarrow> bool" where
  "row_ok r \<longleftrightarrow> 0 < amount_raw r \<and> numeric_40_0 (amount_raw r) \<and>
     sender_address r \<noteq> receiver_address r"

definition cheques_inv :: "cheque_row list \<Rightarrow> bool" where
  "cheques_inv cs \<longleftrightarrow> distinct (map row_id cs) \<and> list_all row_ok cs \<and>
     distinct (map (\<lambda>r. (receiver_address r, request_id r)) (filter (\<lambda>r. request_id r \<noteq> None) cs))"

definition active_accounts :: "reservation_row list \<Rightarrow> string list" where
  "active_accounts rs = map account (filter (\<lambda>s. rs_state s = Active) rs)"

definition reservations_inv :: "cheque_row list \<Rightarrow> reservation_row list \<Rightarrow> bool" where
  "reservations_inv cs rs \<longleftrightarrow> list_all2 reserved cs rs \<and> distinct (active_accounts rs)"

definition log_inv :: "cheque_row list \<Rightarrow> transition_row list \<Rightarrow> bool" where
  "log_inv cs ts \<longleftrightarrow>
     list_all (\<lambda>r. run_log StateTaslak (log_of ts (row_id r)) = Some (state r)) cs \<and>
     list_all (\<lambda>t. (from_state t, to_state t) \<in> set all_edges \<and> tr_cheque_id t \<in> row_id ` set cs) ts"

definition pool_inv :: "pool_row list \<Rightarrow> bool" where
  "pool_inv ps \<longleftrightarrow> distinct (map owner_address ps) \<and> list_all (\<lambda>p. numeric_40_0 (pl_amount_raw p)) ps"

definition ledger_inv :: "pay_db \<Rightarrow> bool" where
  "ledger_inv db \<longleftrightarrow> cheques_inv (cheques db) \<and> reservations_inv (cheques db) (reservations db) \<and>
     log_inv (cheques db) (cheque_transitions db) \<and> pool_inv (pool_deposits db)"


section \<open>Updates keep the invariant\<close>

text \<open>An update of rows that leaves every column under a constraint alone.\<close>

definition keeps_keys :: "(cheque_row \<Rightarrow> cheque_row) \<Rightarrow> bool" where
  "keeps_keys f \<longleftrightarrow> (\<forall>r. row_id (f r) = row_id r \<and> sender_address (f r) = sender_address r \<and>
     receiver_address (f r) = receiver_address r \<and> amount_raw (f r) = amount_raw r \<and>
     request_id (f r) = request_id r)"

lemma cheques_inv_map: "keeps_keys f \<Longrightarrow> cheques_inv (map f cs) = cheques_inv cs"
  by (simp add: keeps_keys_def cheques_inv_def list_all_iff row_ok_def comp_def filter_map)

lemma map_row_id: "keeps_keys f \<Longrightarrow> map row_id (map f cs) = map row_id cs"
  by (simp add: keeps_keys_def)

lemma keeps_state_inv:
  assumes "keeps_keys f" and "\<And>r. state (f r) = state r"
  shows "reservations_inv (map f cs) rs = reservations_inv cs rs"
    and "log_inv (map f cs) ts = log_inv cs ts"
proof -
  have "reserved (f r) s = reserved r s" for r s
    using assms by (simp add: keeps_keys_def reserved_def)
  then show "reservations_inv (map f cs) rs = reservations_inv cs rs"
    by (simp add: reservations_inv_def list_all2_map1)
  have "row_id ` set (map f cs) = row_id ` set cs"
    using assms(1) by (simp add: keeps_keys_def image_image)
  then show "log_inv (map f cs) ts = log_inv cs ts"
    using assms by (simp add: log_inv_def keeps_keys_def list.pred_map comp_def)
qed

lemma ledger_inv_update:
  assumes "ledger_inv db" and "keeps_keys f" and "\<And>r. state (f r) = state r"
    and "update_cheques P f db = Inr (n, db1)"
  shows "ledger_inv db1"
proof -
  let ?g = "\<lambda>r. if P r then (f r)\<lparr>updated_at := db_clock db\<rparr> else r"
  have "keeps_keys ?g" "\<And>r. state (?g r) = state r"
    using assms by (simp_all add: keeps_keys_def)
  with assms show ?thesis
    by (auto simp: update_cheques_def ledger_inv_def cheques_inv_map keeps_state_inv)
qed

text \<open>A new cheque, its reservation and its first log entry.\<close>

lemma insert_cheque_Inr:
  assumes "insert_cheque c db = Inr ((), db1)"
  obtains row amt where "bigint_SetString (AmountRaw c) = Some amt"
    and "row = \<lparr>row_id = ID c, sender_address = SenderAddress c,
           receiver_address = ReceiverAddress c, token_contract = TokenContract c,
           amount_raw = amt, decimals = ChequeDecimals c, state = ChequeState c,
           expires_at = pg_timestamp (ExpiresAt c), lock_tx_hash = None,
           preauth_entry_xdr = None, created_at = db_clock db, updated_at = db_clock db,
           request_id = nullif_empty (RequestID c)\<rparr>"
    and "db1 = db\<lparr>cheques := cheques db @ [row]\<rparr>" and "row_ok row"
    and "ID c \<notin> row_id ` set (cheques db)"
    and "request_id row \<noteq> None \<Longrightarrow> \<forall>r \<in> set (cheques db).
           \<not> (receiver_address r = ReceiverAddress c \<and> request_id r = request_id row)"
  using assms
  by (fastforce simp: insert_cheque_def Let_def row_ok_def list_ex_iff split: option.splits if_splits)

lemma insert_cheque_row:
  assumes "insert_cheque c db = Inr ((), db1)"
  shows "\<exists>row. db1 = db\<lparr>cheques := cheques db @ [row]\<rparr> \<and> row_ok row \<and> row_id row = ID c \<and>
    sender_address row = SenderAddress c \<and> receiver_address row = ReceiverAddress c \<and>
    state row = ChequeState c \<and> row_id row \<notin> row_id ` set (cheques db)"
  using assms
proof (rule insert_cheque_Inr)
  fix row amt
  assume "row = \<lparr>row_id = ID c, sender_address = SenderAddress c,
           receiver_address = ReceiverAddress c, token_contract = TokenContract c,
           amount_raw = amt, decimals = ChequeDecimals c, state = ChequeState c,
           expires_at = pg_timestamp (ExpiresAt c), lock_tx_hash = None,
           preauth_entry_xdr = None, created_at = db_clock db, updated_at = db_clock db,
           request_id = nullif_empty (RequestID c)\<rparr>"
    and "db1 = db\<lparr>cheques := cheques db @ [row]\<rparr>" and "row_ok row"
    and "ID c \<notin> row_id ` set (cheques db)"
  then show ?thesis by (intro exI [of _ row]) simp
qed

lemma insert_reservation_Inr:
  assumes "insert_reservation x acct a db = Inr ((), db1)"
  obtains amt where "bigint_SetString a = Some amt"
    and "db1 = db\<lparr>reservations := reservations db @
           [\<lparr>rs_cheque_id = x, account = acct, rs_amount_raw = amt, rs_state = Active\<rparr>]\<rparr>"
    and "acct \<notin> set (active_accounts (reservations db))"
  using assms
  by (fastforce simp: insert_reservation_def list_ex_iff active_accounts_def split: option.splits if_splits)

lemma insert_reservation_keeps:
  assumes "insert_reservation x acct a db = Inr ((), db1)"
  shows "cheques db1 = cheques db" and "acct \<notin> set (active_accounts (reservations db))"
  using assms by (rule insert_reservation_Inr, simp)+

lemma insert_transition_Inr:
  assumes "insert_transition x from to cs h db = Inr ((), db1)"
  shows "db1 = db\<lparr>cheque_transitions := cheque_transitions db @
           [\<lparr>tr_cheque_id = x, from_state = from, to_state = to, cause = cs, tr_tx_hash = nullif_empty h\<rparr>]\<rparr>"
    and "(from, to) \<notin> set (log_of (cheque_transitions db) x)"
    and "x \<in> row_id ` set (cheques db)"
  using assms by (auto simp: insert_transition_def list_ex_iff log_of_def split: if_splits)

lemma cheques_inv_snoc:
  assumes "cheques_inv cs" and "row_ok row" and "row_id row \<notin> row_id ` set cs"
    and "request_id row \<noteq> None \<Longrightarrow> \<forall>r \<in> set cs.
           \<not> (receiver_address r = receiver_address row \<and> request_id r = request_id row)"
  shows "cheques_inv (cs @ [row])"
  using assms by (auto simp: cheques_inv_def)

lemma log_of_append: "log_of (ts @ us) x = log_of ts x @ log_of us x"
  by (simp add: log_of_def)

lemma log_of_unknown: "log_inv cs ts \<Longrightarrow> x \<notin> row_id ` set cs \<Longrightarrow> log_of ts x = []"
  by (auto simp: log_inv_def log_of_def list_all_iff filter_empty_conv)

lemma log_inv_create:
  assumes "log_inv cs ts" and "row_id row \<notin> row_id ` set cs" and "state row = StateImzaliRezerve"
    and "t = \<lparr>tr_cheque_id = row_id row, from_state = StateTaslak, to_state = StateImzaliRezerve,
               cause = ca, tr_tx_hash = h\<rparr>"
  shows "log_inv (cs @ [row]) (ts @ [t])"
proof -
  have "log_of (ts @ [t]) (row_id r) = log_of ts (row_id r)" if "r \<in> set cs" for r
    using that assms(2,4) by (auto simp: log_of_def)
  moreover have "log_of (ts @ [t]) (row_id row) = [(StateTaslak, StateImzaliRezerve)]"
    using log_of_unknown [OF assms(1,2)] assms(4) by (simp add: log_of_def)
  ultimately show ?thesis
    using assms by (auto simp: log_inv_def list_all_iff all_edges_def)
qed

lemma ledger_inv_create:
  assumes "ledger_inv db" and "ChequeState c = StateImzaliRezerve"
    and "insert_cheque c db = Inr ((), db1)"
    and "insert_reservation (ID c) (SenderAddress c) (AmountRaw c) db1 = Inr ((), db2)"
    and "insert_transition (ID c) StateTaslak StateImzaliRezerve cs h db2 = Inr ((), db3)"
  shows "ledger_inv db3"
  using assms(3)
proof (rule insert_cheque_Inr)
  fix row amt
  assume row: "bigint_SetString (AmountRaw c) = Some amt"
    "row = \<lparr>row_id = ID c, sender_address = SenderAddress c,
           receiver_address = ReceiverAddress c, token_contract = TokenContract c,
           amount_raw = amt, decimals = ChequeDecimals c, state = ChequeState c,
           expires_at = pg_timestamp (ExpiresAt c), lock_tx_hash = None,
           preauth_entry_xdr = None, created_at = db_clock db, updated_at = db_clock db,
           request_id = nullif_empty (RequestID c)\<rparr>"
    "db1 = db\<lparr>cheques := cheques db @ [row]\<rparr>" "row_ok row" "ID c \<notin> row_id ` set (cheques db)"
    "request_id row \<noteq> None \<Longrightarrow> \<forall>r \<in> set (cheques db).
           \<not> (receiver_address r = ReceiverAddress c \<and> request_id r = request_id row)"
  let ?s = "\<lparr>rs_cheque_id = ID c, account = SenderAddress c, rs_amount_raw = amt, rs_state = Active\<rparr>"
  from insert_reservation_Inr [OF assms(4)] row(1,3)
  have db2: "db2 = db1\<lparr>reservations := reservations db @ [?s]\<rparr>"
    and free: "SenderAddress c \<notin> set (active_accounts (reservations db))" by auto
  note db3 = insert_transition_Inr(1) [OF assms(5)]
  have "reserved row ?s" using row(2) assms(2) by (simp add: reserved_def)
  with assms(1) free have "reservations_inv (cheques db @ [row]) (reservations db @ [?s])"
    by (auto simp: ledger_inv_def reservations_inv_def active_accounts_def
        intro: list_all2_appendI)
  moreover have "cheques_inv (cheques db @ [row])"
    by (rule cheques_inv_snoc) (use assms(1) row in \<open>auto simp: ledger_inv_def\<close>)
  moreover have "log_inv (cheques db @ [row]) (cheque_transitions db3)"
    unfolding db3 db2 row(3)
    using assms(1,2) row log_inv_create [of "cheques db" "cheque_transitions db" row]
    by (simp add: ledger_inv_def)
  ultimately show ?thesis
    using assms(1) db3 db2 row(3) by (simp add: ledger_inv_def)
qed

text \<open>A transition: the state, the log and, at the end, the reservation.\<close>

definition move_row :: "string \<Rightarrow> State \<Rightarrow> State \<Rightarrow> time \<Rightarrow> cheque_row \<Rightarrow> cheque_row" where
  "move_row x from to now r =
     (if row_id r = x \<and> state r = from then r\<lparr>state := to, updated_at := now\<rparr> else r)"

definition release_row :: "string \<Rightarrow> State \<Rightarrow> reservation_row \<Rightarrow> reservation_row" where
  "release_row x to s = (if rs_cheque_id s = x \<and> IsTerminal to then s\<lparr>rs_state := Released\<rparr> else s)"

definition moved :: "string \<Rightarrow> State \<Rightarrow> State \<Rightarrow> string \<Rightarrow> string \<Rightarrow> pay_db \<Rightarrow> pay_db" where
  "moved x from to cs h db =
     db\<lparr>cheques := map (move_row x from to (db_clock db)) (cheques db),
        cheque_transitions := cheque_transitions db @
          [\<lparr>tr_cheque_id = x, from_state = from, to_state = to, cause = cs, tr_tx_hash = nullif_empty h\<rparr>],
        reservations := map (release_row x to) (reservations db)\<rparr>"

lemma keeps_keys_move_row: "keeps_keys (move_row x from to now)"
  by (simp add: keeps_keys_def move_row_def)

lemma release_row_id: "\<not> IsTerminal to \<Longrightarrow> release_row x to = id"
  by (rule ext) (simp add: release_row_def)

lemma move_effect:
  assumes "update_cheques (\<lambda>r. row_id r = x \<and> state r = from) (\<lambda>r. r\<lparr>state := to\<rparr>) db = Inr (n, db1)"
    and "insert_transition x from to cs h db1 = Inr ((), db2)"
    and "(if IsTerminal to then release_reservations x db2 else Inr (m, db2)) = Inr (m, db3)"
  shows "db3 = moved x from to cs h db"
    and "n = length (filter (\<lambda>r. row_id r = x \<and> state r = from) (cheques db))"
    and "(from, to) \<notin> set (log_of (cheque_transitions db) x)"
proof -
  have db1: "db1 = db\<lparr>cheques := map (move_row x from to (db_clock db)) (cheques db)\<rparr>"
    using assms(1) by (auto simp: update_cheques_def move_row_def cong: map_cong)
  show "n = length (filter (\<lambda>r. row_id r = x \<and> state r = from) (cheques db))"
    using assms(1) by (auto simp: update_cheques_def)
  show "(from, to) \<notin> set (log_of (cheque_transitions db) x)"
    using insert_transition_Inr(2) [OF assms(2)] db1 by simp
  have "map (release_row x to) rs = (if IsTerminal to
          then map (\<lambda>r. if rs_cheque_id r = x then r\<lparr>rs_state := Released\<rparr> else r) rs else rs)" for rs
    by (simp add: release_row_def cong: map_cong)
  then show "db3 = moved x from to cs h db"
    using assms(3) insert_transition_Inr(1) [OF assms(2)] db1
    by (auto simp: moved_def release_reservations_def split: if_splits)
qed

lemma active_accounts_release:
  assumes "distinct (active_accounts rs)"
  shows "distinct (active_accounts (map (release_row x to) rs))"
proof -
  have "active_accounts (map (release_row x to) rs) = map account
          (filter (\<lambda>s. \<not> (rs_cheque_id s = x \<and> IsTerminal to)) (filter (\<lambda>s. rs_state s = Active) rs))"
    unfolding active_accounts_def by (induction rs) (simp_all add: release_row_def)
  with assms show ?thesis by (simp only: active_accounts_def distinct_map_filter)
qed

lemma ledger_inv_moved:
  assumes inv: "ledger_inv db" and edge: "(from, to) \<in> set edges"
    and r0: "r0 \<in> set (cheques db)" "row_id r0 = x" "state r0 = from"
  shows "ledger_inv (moved x from to cs h db)"
proof -
  let ?f = "move_row x from to (db_clock db)"
  have dist: "distinct (map row_id (cheques db))" using inv by (simp add: ledger_inv_def cheques_inv_def)
  have only: "r = r0" if "r \<in> set (cheques db)" "row_id r = x" for r
    using distinct_map_unique [OF dist] that r0 by simp
  have "list_all2 reserved (map ?f (cheques db)) (map (release_row x to) (reservations db))"
    unfolding list_all2_map1 list_all2_map2
  proof (rule list.rel_mono_strong)
    show "list_all2 reserved (cheques db) (reservations db)"
      using inv by (simp add: ledger_inv_def reservations_inv_def)
    show "reserved (?f r) (release_row x to s)"
      if "r \<in> set (cheques db)" "s \<in> set (reservations db)" "reserved r s" for r s
      using that only [of r] r0 edges_not_terminal [OF edge]
      by (auto simp: reserved_def move_row_def release_row_def)
  qed
  with inv have "reservations_inv (map ?f (cheques db)) (map (release_row x to) (reservations db))"
    by (simp add: ledger_inv_def reservations_inv_def active_accounts_release)
  moreover have "cheques_inv (map ?f (cheques db))"
    using inv by (simp add: ledger_inv_def cheques_inv_map keeps_keys_move_row)
  moreover have "log_inv (map ?f (cheques db)) (cheque_transitions (moved x from to cs h db))"
  proof -
    let ?ts = "cheque_transitions (moved x from to cs h db)"
    have log: "run_log StateTaslak (log_of (cheque_transitions db) (row_id r)) = Some (state r)"
      if "r \<in> set (cheques db)" for r
      using that inv by (simp add: ledger_inv_def log_inv_def list_all_iff)
    have "run_log StateTaslak (log_of ?ts (row_id (?f r))) = Some (state (?f r))"
      if "r \<in> set (cheques db)" for r
    proof (cases "row_id r = x")
      case True
      then show ?thesis using log [OF that] only [OF that] r0
        by (simp add: moved_def log_of_append run_log_append) (simp add: log_of_def move_row_def)
    next
      case False
      then show ?thesis using log [OF that]
        by (simp add: moved_def log_of_append) (simp add: log_of_def move_row_def)
    qed
    moreover have "row_id ` set (map ?f (cheques db)) = row_id ` set (cheques db)"
      by (metis map_row_id [OF keeps_keys_move_row] list.set_map)
    moreover have "list_all (\<lambda>t. (from_state t, to_state t) \<in> set all_edges \<and>
        tr_cheque_id t \<in> row_id ` set (cheques db)) ?ts"
      using inv edge r0 by (auto simp: ledger_inv_def log_inv_def moved_def all_edges_def)
    ultimately show ?thesis by (auto simp: log_inv_def list_all_iff)
  qed
  ultimately show ?thesis using inv by (simp add: ledger_inv_def moved_def)
qed

lemma pool_inv_upsert:
  assumes "pool_inv (pool_deposits db)" and "upsert_pool owner a new upd db = Inr ((), db1)"
    and "\<And>amt. owner_address (new amt) = owner \<and> pl_amount_raw (new amt) = amt"
    and "\<And>amt r. owner_address (upd amt r) = owner_address r"
  shows "pool_inv (pool_deposits db1) \<and> (\<exists>ps. db1 = db\<lparr>pool_deposits := ps\<rparr>)"
proof -
  obtain amt where amt: "bigint_SetString a = Some amt" "numeric_40_0 amt"
    using assms(2) by (auto simp: upsert_pool_def split: option.splits if_splits)
  show ?thesis
  proof (cases "list_ex (\<lambda>r. owner_address r = owner) (pool_deposits db)")
    case False
    with assms amt show ?thesis
      by (auto simp: upsert_pool_def pool_inv_def list_ex_iff split: if_splits)
  next
    case True
    let ?g = "\<lambda>r. if owner_address r = owner then upd amt r else r"
    have "distinct (map owner_address (map ?g (pool_deposits db)))"
      using assms(1,4) by (simp add: pool_inv_def comp_def if_distrib cong: if_cong)
    with assms amt True show ?thesis
      by (auto simp: upsert_pool_def pool_inv_def list_all_iff list_ex_iff simp del: map_map split: if_splits)
  qed
qed

lemma pool_inv_debit:
  assumes "pool_inv (pool_deposits db)" and "debit_pool owner a db = Inr (n, db1)"
  shows "pool_inv (pool_deposits db1) \<and> (\<exists>ps. db1 = db\<lparr>pool_deposits := ps\<rparr>)"
proof -
  obtain amt where amt: "bigint_SetString a = Some amt"
    using assms(2) by (auto simp: debit_pool_def split: option.splits if_splits)
  let ?g = "\<lambda>r. if owner_address r = owner
     then r\<lparr>pl_amount_raw := max (pl_amount_raw r - amt) 0, pl_updated_at := db_clock db\<rparr> else r"
  have "distinct (map owner_address (map ?g (pool_deposits db)))"
    using assms(1) by (simp add: pool_inv_def comp_def if_distrib cong: if_cong)
  with assms amt show ?thesis
    by (auto simp: debit_pool_def pool_inv_def list_all_iff list_ex_iff simp del: map_map split: if_splits)
qed

lemma ledger_inv_step:
  assumes "ledger_inv db" and "repo_step db db'"
  shows "ledger_inv db'"
  using assms(2,1)
proof cases
  case (step_create c db1 db2 cs h)
  with assms(1) show ?thesis by (metis ledger_inv_create)
next
  case (step_move fr to x n db1 cs h db2 m)
  from move_effect [OF step_move(2,4,5)] step_move(3) obtain r0
    where "r0 \<in> set (cheques db)" "row_id r0 = x" "state r0 = fr"
    by (auto simp: filter_empty_conv)
  with move_effect(1) [OF step_move(2,4,5)] step_move(1) assms(1) show ?thesis
    by (metis ledger_inv_moved)
next
  case (step_preauth x e n)
  show ?thesis by (rule ledger_inv_update [OF assms(1) _ _ step_preauth]) (simp_all add: keeps_keys_def)
next
  case (step_lock_hash x h n)
  show ?thesis by (rule ledger_inv_update [OF assms(1) _ _ step_lock_hash]) (simp_all add: keeps_keys_def)
next
  case (step_pool_upsert owner a new upd)
  from pool_inv_upsert [OF _ this] assms(1) show ?thesis by (auto simp: ledger_inv_def)
next
  case (step_pool_debit owner a n)
  from pool_inv_debit [OF _ this] assms(1) show ?thesis by (auto simp: ledger_inv_def)
qed (simp_all add: ledger_inv_def)

interpretation ledger: invariant_system empty_db repo_step ledger_inv
proof unfold_locales
  show "ledger_inv db" if "empty_db db" for db
    using that by (simp add: empty_db_def ledger_inv_def cheques_inv_def reservations_inv_def
        active_accounts_def log_inv_def pool_inv_def)
qed (rule ledger_inv_step)

section \<open>Repository calls\<close>

text \<open>Statements read and write tables only: they neither see nor use up faults.\<close>

definition pure_stmt :: "'a stmt \<Rightarrow> bool" where
  "pure_stmt f \<longleftrightarrow> (\<forall>db fs. f (db\<lparr>faults := fs\<rparr>) =
     map_sum id (map_prod id (\<lambda>d. d\<lparr>faults := fs\<rparr>)) (f db))"

named_theorems pure_intros \<open>statements are pure\<close>

lemma pure_read [pure_intros]:
  "(\<And>db fs. g (db\<lparr>faults := fs\<rparr>) = g db) \<Longrightarrow> pure_stmt (\<lambda>db. Inr (g db, db))"
  by (simp add: pure_stmt_def)

lemma pure_update_cheques [pure_intros]: "pure_stmt (update_cheques P f)"
  by (simp add: pure_stmt_def update_cheques_def)

lemma pure_insert_cheque [pure_intros]: "pure_stmt (insert_cheque c)"
  by (simp add: pure_stmt_def insert_cheque_def Let_def split: option.splits)

lemma pure_insert_reservation [pure_intros]: "pure_stmt (insert_reservation x acct a)"
  by (simp add: pure_stmt_def insert_reservation_def split: option.splits)

lemma pure_insert_transition [pure_intros]: "pure_stmt (insert_transition x from to cs h)"
  by (simp add: pure_stmt_def insert_transition_def)

lemma pure_release [pure_intros]: "pure_stmt (release_reservations x)"
  by (simp add: pure_stmt_def release_reservations_def)

lemma pure_upsert_pool [pure_intros]: "pure_stmt (upsert_pool owner a new upd)"
  by (simp add: pure_stmt_def upsert_pool_def split: option.splits)

lemma pure_debit_pool [pure_intros]: "pure_stmt (debit_pool owner a)"
  by (simp add: pure_stmt_def debit_pool_def split: option.splits)

lemma pure_audit [pure_intros]: "pure_stmt (\<lambda>db. Inr ((), db\<lparr>audit_log := audit_log db @ [a]\<rparr>))"
  by (simp add: pure_stmt_def)

lemma same_tables_trans: "same_tables a b \<Longrightarrow> same_tables b c \<Longrightarrow> same_tables a c"
  unfolding same_tables_def by (cases a; cases b; cases c) simp

lemma same_tables_sym: "same_tables a b \<Longrightarrow> same_tables b a"
  unfolding same_tables_def by (cases a; cases b) simp

lemma pure_stmt_same:
  assumes "pure_stmt f" and "same_tables a b" and "f b = Inr (x, b')"
  obtains a' where "f a = Inr (x, a')" and "same_tables a' b'"
proof -
  have "f b = map_sum id (map_prod id (\<lambda>d. d\<lparr>faults := faults b\<rparr>)) (f a)"
    using assms(1,2) unfolding pure_stmt_def same_tables_def by metis
  with assms(3) show thesis using that by (cases "f a") auto
qed

lemma exec_pure:
  assumes "pure_stmt f" and "same_tables a db" and "exec f db = (Inr x, db')"
  obtains a' where "f a = Inr (x, a')" and "same_tables a' db'"
  using assms(3)
proof (rule exec_Inr)
  fix db1
  assume "same_tables db db1" and f: "f db1 = Inr (x, db')"
  then have "same_tables a db1" using assms(2) by (blast intro: same_tables_trans)
  then show thesis using pure_stmt_same [OF assms(1) _ f] that by blast
qed

text \<open>A single statement outside a transaction: not executed, or executed once.\<close>

lemma exec_pure_cases:
  assumes "pure_stmt f" and "exec f db = (r, db')"
  shows "same_tables db db' \<and> (\<exists>e. r = Inl e) \<or>
         (\<exists>x d. f db = Inr (x, d) \<and> same_tables d db' \<and> (r = Inr x \<or> r = Inl PgConn))"
  using assms(2)
proof (rule exec_cases)
  fix db1
  assume s: "same_tables db db1" and
    d: "db' = db1 \<and> (\<exists>e. r = Inl e) \<or> (\<exists>x. f db1 = Inr (x, db') \<and> (r = Inr x \<or> r = Inl PgConn))"
  from d show ?thesis
  proof
    assume "\<exists>x. f db1 = Inr (x, db') \<and> (r = Inr x \<or> r = Inl PgConn)"
    then obtain x where x: "f db1 = Inr (x, db')" "r = Inr x \<or> r = Inl PgConn" by blast
    from pure_stmt_same [OF assms(1) s x(1)] x(2) show ?thesis by metis
  qed (use s in simp)
qed

text \<open>
  \<open>Transition\<close> under any faults: all or nothing. A success was applied, from the state it names
  and for the first time; an error leaves the tables alone, except that a lost answer to the
  commit may hide that it was applied.
\<close>

lemma Transition_cases:
  assumes "Transition x from to cs h db = (r, db')"
  shows "same_tables db db' \<and> (\<exists>e. r = Inl e) \<or>
    same_tables (moved x from to cs h db) db' \<and> (r = Inr () \<or> r = Inl (pgErr PgConn)) \<and>
    (\<exists>r0 \<in> set (cheques db). row_id r0 = x \<and> state r0 = from) \<and>
    (from, to) \<notin> set (log_of (cheque_transitions db) x)"
proof -
  let ?upd = "update_cheques (\<lambda>r. row_id r = x \<and> state r = from) (\<lambda>r. r\<lparr>state := to\<rparr>)"
  let ?ins = "insert_transition x from to cs h"
  obtain b db1 where b: "tx_begin db = (b, db1)" by fastforce
  note s1 = tx_begin_same [OF b]
  obtain u db2 where u: "exec ?upd db1 = (u, db2)" by fastforce
  obtain t db3 where t: "exec ?ins db2 = (t, db3)" by fastforce
  obtain l db4 where l: "exec (release_reservations x) db3 = (l, db4)" by fastforce
  consider (fails) "same_tables db db' \<and> (\<exists>e. r = Inl e)"
    | (commits) n m d4 where "u = Inr n" "n \<noteq> 0" "t = Inr ()"
        "if IsTerminal to then l = Inr m \<and> d4 = db4 else d4 = db3" "tx_commit db d4 = (r, db')"
    using assms s1 unfolding Transition_def b by (auto simp: u t l split: sum.splits if_splits)
  then show ?thesis
  proof cases
    case commits
    obtain d2 where d2: "?upd db = Inr (n, d2)" "same_tables d2 db2"
      by (rule exec_pure [OF pure_update_cheques s1 u [unfolded commits(1)]])
    obtain d3 where d3: "?ins d2 = Inr ((), d3)" "same_tables d3 db3"
      by (rule exec_pure [OF pure_insert_transition d2(2) t [unfolded commits(3)]])
    obtain d where d: "(if IsTerminal to then release_reservations x d3 else Inr (m, d3)) = Inr (m, d)"
        "same_tables d d4"
    proof (cases "IsTerminal to")
      case True
      then have "exec (release_reservations x) db3 = (Inr m, d4)" using l commits(4) by simp
      then show ?thesis using exec_pure [OF pure_release d3(2)] that True by metis
    qed (use that d3 commits(4) in auto)
    note eff = move_effect [OF d2(1) d3(1) d(1)]
    have "\<exists>r0 \<in> set (cheques db). row_id r0 = x \<and> state r0 = from"
      using eff(2) commits(2) by (auto simp: filter_empty_conv)
    then show ?thesis
      using tx_commit_cases [OF commits(5)] d(2) eff(1,3) by (metis same_tables_trans)
  qed simp
qed

lemma same_tables_step: "same_tables db db' \<Longrightarrow> repo_step db db'"
  using step_env [of db "faults db'" "db_clock db" "trustlines db" "anchor_transactions db" "users db" "submissions db"
      "idempotency_keys db"] by (simp add: same_tables_def)

lemma transition_runs:
  assumes "r0 \<in> set (cheques db)" "row_id r0 = x" "state r0 = from"
    and "(from, to) \<notin> set (log_of (cheque_transitions db) x)"
  obtains n d1 d2 m d3 where
    "update_cheques (\<lambda>r. row_id r = x \<and> state r = from) (\<lambda>r. r\<lparr>state := to\<rparr>) db = Inr (n, d1)"
    and "n \<noteq> 0" and "insert_transition x from to cs h d1 = Inr ((), d2)"
    and "(if IsTerminal to then release_reservations x d2 else Inr (m, d2)) = Inr (m, d3)"
    and "faults d1 = faults db" "faults d2 = faults db" "faults d3 = faults db"
proof -
  let ?upd = "update_cheques (\<lambda>r. row_id r = x \<and> state r = from) (\<lambda>r. r\<lparr>state := to\<rparr>)"
  obtain n d1 where d1: "?upd db = Inr (n, d1)" by (simp add: update_cheques_def)
  have n: "n \<noteq> 0" using d1 assms(1-3) by (auto simp: update_cheques_def filter_empty_conv)
  have "map row_id (cheques d1) = map row_id (cheques db)"
    and ts: "cheque_transitions d1 = cheque_transitions db" and f1: "faults d1 = faults db"
    using d1 by (auto simp: update_cheques_def)
  then have "row_id ` set (cheques d1) = row_id ` set (cheques db)" by (metis list.set_map)
  then have "x \<in> row_id ` set (cheques d1)" using assms(1,2) by auto
  then have "list_ex (\<lambda>r. row_id r = x) (cheques d1)" by (auto simp: list_ex_iff)
  moreover have "\<not> list_ex (\<lambda>t. tr_cheque_id t = x \<and> from_state t = from \<and> to_state t = to)
      (cheque_transitions d1)"
    using assms(4) ts by (force simp: list_ex_iff log_of_def)
  ultimately obtain d2 where d2: "insert_transition x from to cs h d1 = Inr ((), d2)" "faults d2 = faults db"
    using f1 by (simp add: insert_transition_def)
  show thesis
  proof (cases "IsTerminal to")
    case True
    then show thesis using that [OF d1 n d2(1) _ f1 d2(2)] d2(2) by (simp add: release_reservations_def)
  next
    case False
    then show thesis using that [OF d1 n d2(1) _ f1 d2(2)] d2(2) by auto
  qed
qed

lemma moved_step:
  assumes "(from, to) \<in> set edges" and "r0 \<in> set (cheques db)" "row_id r0 = x" "state r0 = from"
    and "(from, to) \<notin> set (log_of (cheque_transitions db) x)"
  shows "repo_step db (moved x from to cs h db)"
  using assms(2-)
proof (rule transition_runs [where cs = cs and h = h])
  fix n d1 d2 m d3
  assume d: "update_cheques (\<lambda>r. row_id r = x \<and> state r = from) (\<lambda>r. r\<lparr>state := to\<rparr>) db = Inr (n, d1)"
    "n \<noteq> 0" "insert_transition x from to cs h d1 = Inr ((), d2)"
    "(if IsTerminal to then release_reservations x d2 else Inr (m, d2)) = Inr (m, d3)"
  show ?thesis using step_move [OF assms(1) d] move_effect(1) [OF d(1,3,4)] by simp
qed

lemma Transition_steps:
  assumes "Transition x from to cs h db = (r, db')" and "(from, to) \<in> set edges"
  shows "repo_step\<^sup>*\<^sup>* db db'"
  using Transition_cases [OF assms(1)]
proof
  assume a: "same_tables (moved x from to cs h db) db' \<and> (r = Inr () \<or> r = Inl (pgErr PgConn)) \<and>
    (\<exists>r0 \<in> set (cheques db). row_id r0 = x \<and> state r0 = from) \<and>
    (from, to) \<notin> set (log_of (cheque_transitions db) x)"
  then have "repo_step db (moved x from to cs h db)" using moved_step [OF assms(2)] by blast
  with a show ?thesis by (meson r_into_rtranclp rtranclp.rtrancl_into_rtrancl same_tables_step)
qed (blast intro: same_tables_step)

lemma no_repeated_edge:
  assumes "ledger_inv db" and "r \<in> set (cheques db)" and "(state r, to) \<in> set edges"
  shows "(state r, to) \<notin> set (log_of (cheque_transitions db) (row_id r))"
proof -
  have "set (log_of (cheque_transitions db) (row_id r)) \<subseteq> set all_edges"
    using assms(1) by (auto simp: ledger_inv_def log_inv_def log_of_def list_all_iff)
  moreover have "run_log StateTaslak (log_of (cheque_transitions db) (row_id r)) = Some (state r)"
    using assms(1,2) by (simp add: ledger_inv_def log_inv_def list_all_iff)
  ultimately show ?thesis using run_log_rank by fastforce
qed

lemma exec_no_faults:
  "faults db = [] \<Longrightarrow> exec f db = (case f db of Inl e \<Rightarrow> (Inl e, db) | Inr (x, d) \<Rightarrow> (Inr x, d))"
  by (simp add: exec_def next_fault_def)

lemma tx_no_faults:
  "faults db = [] \<Longrightarrow> tx_begin db = (Inr (), db)"
  "faults db = [] \<Longrightarrow> faults d = [] \<Longrightarrow> rollback db d = db"
  "faults d = [] \<Longrightarrow> tx_commit db d = (Inr (), d)"
  by (simp_all add: tx_begin_def exec_no_faults rollback_def tx_commit_def next_fault_def)

lemma moved_faults [simp]: "faults (moved x from to cs h db) = faults db"
  by (simp add: moved_def)

text \<open>
  Without faults and on a table that satisfies the invariant, the guard on the state decides:
  the UNIQUE constraint of the log is never what stops a transition along an edge of the graph.
\<close>

lemma Transition_no_faults:
  assumes "faults db = []" and "ledger_inv db" and "(from, to) \<in> set edges"
  shows "Transition x from to cs h db =
     (if \<exists>r \<in> set (cheques db). row_id r = x \<and> state r = from then (Inr (), moved x from to cs h db)
      else (Inl ErrBadTransitionInRepo, db))"
proof (cases "\<exists>r \<in> set (cheques db). row_id r = x \<and> state r = from")
  case False
  then have f: "filter (\<lambda>r. row_id r = x \<and> state r = from) (cheques db) = []"
    by (auto simp: filter_empty_conv)
  show ?thesis
    unfolding Transition_def using assms(1) False f
    by (simp add: tx_no_faults exec_no_faults update_cheques_def)
next
  case True
  then obtain r0 where r0: "r0 \<in> set (cheques db)" "row_id r0 = x" "state r0 = from" by blast
  have "(from, to) \<notin> set (log_of (cheque_transitions db) x)"
    using no_repeated_edge [OF assms(2) r0(1)] r0 assms(3) by auto
  with r0 show ?thesis
  proof (rule transition_runs [where cs = cs and h = h])
    fix n d1 d2 m d3
    assume d: "update_cheques (\<lambda>r. row_id r = x \<and> state r = from) (\<lambda>r. r\<lparr>state := to\<rparr>) db = Inr (n, d1)"
      "n \<noteq> 0" "insert_transition x from to cs h d1 = Inr ((), d2)"
      "(if IsTerminal to then release_reservations x d2 else Inr (m, d2)) = Inr (m, d3)"
      "faults d1 = faults db" "faults d2 = faults db" "faults d3 = faults db"
    have "Transition x from to cs h db = (Inr (), d3)"
    proof (cases "IsTerminal to")
      case True
      then show ?thesis
        unfolding Transition_def using assms(1) d by (simp add: tx_no_faults exec_no_faults)
    next
      case False
      then show ?thesis
        unfolding Transition_def using assms(1) d by (simp add: tx_no_faults exec_no_faults)
    qed
    then show ?thesis using True move_effect(1) [OF d(1,3,4)] by simp
  qed
qed

text \<open>The three inserts of a new cheque, as one update of the tables.\<close>

definition create_stmts :: "Cheque \<Rightarrow> unit stmt" where
  "create_stmts c db =
     (case insert_cheque c db of Inl e \<Rightarrow> Inl e | Inr (_, d1) \<Rightarrow>
        (case insert_reservation (ID c) (SenderAddress c) (AmountRaw c) d1 of
           Inl e \<Rightarrow> Inl e
         | Inr (_, d2) \<Rightarrow> insert_transition (ID c) StateTaslak StateImzaliRezerve ''user_action'' [] d2))"

lemma create_stmts_Inr:
  assumes "create_stmts c db = Inr ((), d)"
  obtains d1 d2 where "insert_cheque c db = Inr ((), d1)"
    and "insert_reservation (ID c) (SenderAddress c) (AmountRaw c) d1 = Inr ((), d2)"
    and "insert_transition (ID c) StateTaslak StateImzaliRezerve ''user_action'' [] d2 = Inr ((), d)"
  using assms by (auto simp: create_stmts_def split: sum.splits)

lemma create_stmts_step:
  "ChequeState c = StateImzaliRezerve \<Longrightarrow> create_stmts c db = Inr ((), d) \<Longrightarrow> repo_step db d"
  by (erule create_stmts_Inr) (rule step_create)

lemma CreateReservedCheque_cases:
  assumes "CreateReservedCheque c db = (r, db')"
  shows "same_tables db db' \<and> (\<exists>e. r = Inl e) \<or>
    (\<exists>d. create_stmts c db = Inr ((), d) \<and> same_tables d db' \<and> (r = Inr () \<or> r = Inl (pgErr PgConn)))"
proof -
  let ?res = "insert_reservation (ID c) (SenderAddress c) (AmountRaw c)"
  let ?ins = "insert_transition (ID c) StateTaslak StateImzaliRezerve ''user_action'' []"
  obtain b db1 where b: "tx_begin db = (b, db1)" by fastforce
  note s1 = tx_begin_same [OF b]
  obtain u db2 where u: "exec (insert_cheque c) db1 = (u, db2)" by fastforce
  obtain t db3 where t: "exec ?res db2 = (t, db3)" by fastforce
  obtain l db4 where l: "exec ?ins db3 = (l, db4)" by fastforce
  consider (fails) "same_tables db db' \<and> (\<exists>e. r = Inl e)"
    | (commits) "u = Inr ()" "t = Inr ()" "l = Inr ()" "tx_commit db db4 = (r, db')"
    using assms s1 unfolding CreateReservedCheque_def b by (auto simp: u t l split: sum.splits)
  then show ?thesis
  proof cases
    case commits
    obtain d2 where d2: "insert_cheque c db = Inr ((), d2)" "same_tables d2 db2"
      by (rule exec_pure [OF pure_insert_cheque s1 u [unfolded commits(1)]])
    obtain d3 where d3: "?res d2 = Inr ((), d3)" "same_tables d3 db3"
      by (rule exec_pure [OF pure_insert_reservation d2(2) t [unfolded commits(2)]])
    obtain d where d: "?ins d3 = Inr ((), d)" "same_tables d db4"
      by (rule exec_pure [OF pure_insert_transition d3(2) l [unfolded commits(3)]])
    have "create_stmts c db = Inr ((), d)" using d2(1) d3(1) d(1) by (simp add: create_stmts_def)
    then show ?thesis
      using tx_commit_cases [OF commits(4)] d(2) by (metis same_tables_trans)
  qed simp
qed

lemma CreateReservedCheque_steps:
  assumes "CreateReservedCheque c db = (r, db')" and "ChequeState c = StateImzaliRezerve"
  shows "repo_step\<^sup>*\<^sup>* db db'"
  using CreateReservedCheque_cases [OF assms(1)]
proof
  assume "\<exists>d. create_stmts c db = Inr ((), d) \<and> same_tables d db' \<and> (r = Inr () \<or> r = Inl (pgErr PgConn))"
  then show ?thesis
    using create_stmts_step [OF assms(2)]
    by (meson r_into_rtranclp rtranclp.rtrancl_into_rtrancl same_tables_step)
qed (blast intro: same_tables_step)

text \<open>Single statements.\<close>

lemma exec_steps:
  assumes "exec f db = (r, db')" and "pure_stmt f" and "\<And>x d. f db = Inr (x, d) \<Longrightarrow> repo_step db d"
  shows "repo_step\<^sup>*\<^sup>* db db'"
  using exec_pure_cases [OF assms(2,1)]
proof
  assume "\<exists>x d. f db = Inr (x, d) \<and> same_tables d db' \<and> (r = Inr x \<or> r = Inl PgConn)"
  then show ?thesis
    using assms(3) by (meson r_into_rtranclp rtranclp.rtrancl_into_rtrancl same_tables_step)
qed (blast intro: same_tables_step)

lemma exec_read_same:
  assumes "exec (\<lambda>db. Inr (g db, db)) db = (r, db')"
  shows "same_tables db db'" and "r = Inr y \<Longrightarrow> \<exists>db1. same_tables db db1 \<and> y = g db1"
  using assms by (auto elim!: exec_cases)

lemma GetCheque_cases:
  assumes "GetCheque x db = (r, db')"
  shows "same_tables db db'"
    and "r = Inr c \<Longrightarrow> \<exists>row. find (\<lambda>r. row_id r = x) (cheques db) = Some row \<and> c = scan_cheque row"
proof -
  let ?q = "\<lambda>db. find (\<lambda>r. row_id r = x) (cheques db)"
  obtain u db1 where u: "exec (\<lambda>db. Inr (?q db, db)) db = (u, db1)" by fastforce
  have db1: "db' = db1" using assms by (auto simp: GetCheque_def u split: sum.splits option.splits)
  with exec_read_same(1) [OF u] show "same_tables db db'" by simp
  show "\<exists>row. ?q db = Some row \<and> c = scan_cheque row" if "r = Inr c"
  proof -
    from assms that obtain row where "u = Inr (Some row)" "c = scan_cheque row"
      by (auto simp: GetCheque_def u split: sum.splits option.splits)
    moreover from this exec_read_same(2) [OF u, of "Some row"]
    have "\<exists>db1. same_tables db db1 \<and> Some row = ?q db1" by simp
    moreover have "?q db = ?q db1" if "same_tables db db1" for db1
      using that unfolding same_tables_def by (cases db; cases db1) simp
    ultimately show ?thesis by metis
  qed
qed

lemma SetPreauthEntry_steps:
  assumes "SetPreauthEntry x e db = (r, db')"
  shows "repo_step\<^sup>*\<^sup>* db db'"
proof -
  obtain u where "exec (update_cheques (\<lambda>r. row_id r = x) (\<lambda>r. r\<lparr>preauth_entry_xdr := Some e\<rparr>)) db = (u, db')"
    using assms by (auto simp: SetPreauthEntry_def split: prod.splits sum.splits)
  then show ?thesis by (rule exec_steps) (auto intro: pure_intros step_preauth)
qed

lemma SetLockTxHash_steps:
  assumes "SetLockTxHash x h db = (r, db')"
  shows "repo_step\<^sup>*\<^sup>* db db'"
proof -
  obtain u where "exec (update_cheques (\<lambda>r. row_id r = x) (\<lambda>r. r\<lparr>lock_tx_hash := Some h\<rparr>)) db = (u, db')"
    using assms by (auto simp: SetLockTxHash_def split: prod.splits sum.splits)
  then show ?thesis by (rule exec_steps) (auto intro: pure_intros step_lock_hash)
qed

lemma InsertAudit_steps:
  assumes "InsertAudit ac an dt db = (r, db')"
  shows "repo_step\<^sup>*\<^sup>* db db'"
proof -
  let ?a = "\<lparr>actor = ac, action = an, details = dt\<rparr>"
  obtain u where "exec (\<lambda>db. Inr ((), db\<lparr>audit_log := audit_log db @ [?a]\<rparr>)) db = (u, db')"
    using assms by (auto simp: InsertAudit_def split: prod.splits sum.splits)
  then show ?thesis by (rule exec_steps) (auto intro: pure_intros step_audit)
qed

lemma RecordDeposit_steps:
  assumes "RecordDeposit owner a d l db = (r, db')"
  shows "repo_step\<^sup>*\<^sup>* db db'"
proof -
  obtain u new upd where e: "exec (upsert_pool owner a new upd) db = (u, db')"
    and n: "\<And>amt. owner_address (new amt) = owner \<and> pl_amount_raw (new amt) = amt"
    and p: "\<And>amt r. owner_address (upd amt r) = owner_address r"
    using assms by (simp add: RecordDeposit_def Let_def split: prod.splits sum.splits)
  show ?thesis
  proof (rule exec_steps [OF e pure_upsert_pool])
    show "repo_step db d" if "upsert_pool owner a new upd db = Inr (y, d)" for y d
      using that n p by (intro step_pool_upsert [of owner a new upd]) simp_all
  qed
qed

lemma SetPoolAmount_steps:
  assumes "SetPoolAmount owner a d db = (r, db')"
  shows "repo_step\<^sup>*\<^sup>* db db'"
proof -
  obtain u new upd where e: "exec (upsert_pool owner a new upd) db = (u, db')"
    and n: "\<And>amt. owner_address (new amt) = owner \<and> pl_amount_raw (new amt) = amt"
    and p: "\<And>amt r. owner_address (upd amt r) = owner_address r"
    using assms by (simp add: SetPoolAmount_def Let_def split: prod.splits sum.splits)
  show ?thesis
  proof (rule exec_steps [OF e pure_upsert_pool])
    show "repo_step db d" if "upsert_pool owner a new upd db = Inr (y, d)" for y d
      using that n p by (intro step_pool_upsert [of owner a new upd]) simp_all
  qed
qed

lemma RecordWithdraw_steps:
  assumes "RecordWithdraw owner a db = (r, db')"
  shows "repo_step\<^sup>*\<^sup>* db db'"
proof -
  obtain u where "exec (debit_pool owner a) db = (u, db')"
    using assms by (auto simp: RecordWithdraw_def split: prod.splits sum.splits if_splits)
  then show ?thesis by (rule exec_steps) (auto intro: pure_intros step_pool_debit)
qed

lemmas repo_call_steps =
  Transition_steps CreateReservedCheque_steps SetPreauthEntry_steps SetLockTxHash_steps
  InsertAudit_steps RecordDeposit_steps SetPoolAmount_steps RecordWithdraw_steps

section \<open>What a step does to the rows\<close>

text \<open>The columns no statement ever updates.\<close>

definition cheque_terms :: "cheque_row \<Rightarrow> string \<times> string \<times> string \<times> int \<times> u8 \<times> time \<times> time \<times> string option" where
  "cheque_terms r = (sender_address r, receiver_address r, token_contract r, amount_raw r, decimals r,
     expires_at r, created_at r, request_id r)"

definition row_step :: "cheque_row \<Rightarrow> cheque_row \<Rightarrow> bool" where
  "row_step r r' \<longleftrightarrow> row_id r' = row_id r \<and> cheque_terms r' = cheque_terms r \<and>
     (state r' = state r \<or> (state r, state r') \<in> set edges)"

lemma repo_step_rows:
  assumes "repo_step db db'"
  obtains f new where "cheques db' = map f (cheques db) @ new" and "\<And>r. row_step r (f r)"
    and "\<And>r. r \<in> set new \<Longrightarrow> state r = StateImzaliRezerve"
  using assms
proof cases
  case (step_create c d1 d2 cs h)
  from insert_cheque_row [OF step_create(2)]
  obtain row where "d1 = db\<lparr>cheques := cheques db @ [row]\<rparr>" "state row = ChequeState c" by blast
  moreover have "cheques db' = cheques d1"
    using insert_transition_Inr(1) [OF step_create(4)] insert_reservation_keeps [OF step_create(3)] by simp
  ultimately show thesis using that [of id "[row]"] step_create(1) by (simp add: row_step_def)
next
  case (step_move fr to x n d1 cs h d2 m)
  from move_effect(1) [OF step_move(2,4,5)]
  have "cheques db' = map (move_row x fr to (db_clock db)) (cheques db)" by (simp add: moved_def)
  then show thesis
    using that [of "move_row x fr to (db_clock db)" "[]"] step_move(1)
    by (simp add: row_step_def move_row_def cheque_terms_def)
next
  case (step_preauth x e n)
  then have "cheques db' = map (\<lambda>r. if row_id r = x
      then r\<lparr>preauth_entry_xdr := Some e, updated_at := db_clock db\<rparr> else r) (cheques db) @ []"
    by (auto simp: update_cheques_def)
  then show thesis by (rule that) (simp_all add: row_step_def cheque_terms_def)
next
  case (step_lock_hash x h n)
  then have "cheques db' = map (\<lambda>r. if row_id r = x
      then r\<lparr>lock_tx_hash := Some h, updated_at := db_clock db\<rparr> else r) (cheques db) @ []"
    by (auto simp: update_cheques_def)
  then show thesis by (rule that) (simp_all add: row_step_def cheque_terms_def)
next
  case (step_pool_upsert owner a new upd)
  then have "cheques db' = cheques db"
    by (auto simp: upsert_pool_def split: option.splits if_splits)
  then show thesis using that [of id "[]"] by (simp add: row_step_def)
next
  case (step_pool_debit owner a n)
  then have "cheques db' = cheques db"
    by (auto simp: debit_pool_def split: option.splits if_splits)
  then show thesis using that [of id "[]"] by (simp add: row_step_def)
qed (use that [of id "[]"] in \<open>simp_all add: row_step_def\<close>)

definition rows_advance :: "pay_db \<Rightarrow> pay_db \<Rightarrow> bool" where
  "rows_advance db db' \<longleftrightarrow> (\<forall>r \<in> set (cheques db). \<exists>r' \<in> set (cheques db').
     row_id r' = row_id r \<and> cheque_terms r' = cheque_terms r \<and> (state r, state r') \<in> (set edges)\<^sup>*)"

lemma terminal_stuck: "(s, t) \<in> (set edges)\<^sup>* \<Longrightarrow> IsTerminal s \<Longrightarrow> t = s"
  by (induction rule: converse_rtrancl_induct) (use edges_not_terminal in blast)+

interpretation advance: stable_relation empty_db repo_step ledger_inv rows_advance
proof unfold_locales
  show "rows_advance s s" for s by (auto simp: rows_advance_def)
  show "rows_advance s u" if "rows_advance s t" "rows_advance t u" for s t u
    using that unfolding rows_advance_def by (metis rtrancl_trans)
  show "rows_advance s t" if "ledger_inv s" "repo_step s t" for s t
    using that(2)
  proof (rule repo_step_rows)
    fix f new
    assume "cheques t = map f (cheques s) @ new" and f: "\<And>r. row_step r (f r)"
    then have "f r \<in> set (cheques t)" if "r \<in> set (cheques s)" for r using that by simp
    moreover have "(state r, state (f r)) \<in> (set edges)\<^sup>*" for r
      using f [of r] by (auto simp: row_step_def)
    ultimately show "rows_advance s t"
      using f unfolding rows_advance_def row_step_def by metis
  qed
qed

section \<open>The abstract ledger\<close>

text \<open>
  What the database is for, without tables: each cheque id has a sender, a receiver, an amount
  and a state; a cheque is created for a sender with no open cheque, and moves along the graph.
\<close>

type_synonym abs_ledger = "string \<Rightarrow> (string \<times> string \<times> int \<times> State) option"

inductive abs_step :: "abs_ledger \<Rightarrow> abs_ledger \<Rightarrow> bool" where
  abs_skip: "abs_step m m"
| abs_create:
    "m x = None \<Longrightarrow> s \<noteq> r \<Longrightarrow> 0 < a \<Longrightarrow>
     (\<And>y r' a' st. m y = Some (s, r', a', st) \<Longrightarrow> IsTerminal st) \<Longrightarrow>
     abs_step m (m(x \<mapsto> (s, r, a, StateImzaliRezerve)))"
| abs_move:
    "m x = Some (s, r, a, st) \<Longrightarrow> (st, st') \<in> set edges \<Longrightarrow> abs_step m (m(x \<mapsto> (s, r, a, st')))"

inductive_cases abs_step_cases [consumes 1, case_names skip create move]: "abs_step m m'"

definition row_view :: "cheque_row \<Rightarrow> string \<times> string \<times> int \<times> State" where
  "row_view r = (sender_address r, receiver_address r, amount_raw r, state r)"

definition abs_ledger_of :: "pay_db \<Rightarrow> abs_ledger" where
  "abs_ledger_of db x = map_option row_view (find (\<lambda>r. row_id r = x) (cheques db))"

lemma abs_ledger_same_rows:
  assumes "cheques db' = map f (cheques db)" and "\<And>r. row_id (f r) = row_id r \<and> row_view (f r) = row_view r"
  shows "abs_ledger_of db' = abs_ledger_of db"
proof (rule ext)
  fix x
  have "find (\<lambda>r. row_id r = x) (map f (cheques db)) = map_option f (find (\<lambda>r. row_id r = x) (cheques db))"
    using assms(2) by (intro find_map_other) simp
  then show "abs_ledger_of db' x = abs_ledger_of db x"
    using assms by (cases "find (\<lambda>r. row_id r = x) (cheques db)") (simp_all add: abs_ledger_of_def)
qed

lemma open_sender_active:
  assumes "list_all2 reserved cs rs" and "r \<in> set cs" and "\<not> IsTerminal (state r)"
  shows "sender_address r \<in> set (active_accounts rs)"
  using assms
proof (induction rule: list_all2_induct)
  case (Cons x xs y ys)
  then show ?case by (auto simp: active_accounts_def reserved_def)
qed simp

lemma abs_create_step:
  assumes inv: "ledger_inv db" and "ChequeState c = StateImzaliRezerve" and "insert_cheque c db = Inr ((), d1)"
    and "insert_reservation (ID c) (SenderAddress c) (AmountRaw c) d1 = Inr ((), d2)"
    and "insert_transition (ID c) StateTaslak StateImzaliRezerve cs h d2 = Inr ((), db')"
  shows "abs_step (abs_ledger_of db) (abs_ledger_of db')"
proof -
  from insert_cheque_row [OF assms(3)] obtain row where row: "d1 = db\<lparr>cheques := cheques db @ [row]\<rparr>" "row_ok row"
      "row_id row = ID c" "sender_address row = SenderAddress c" "state row = ChequeState c"
      "row_id row \<notin> row_id ` set (cheques db)"
    by blast
  have db': "cheques db' = cheques db @ [row]" "SenderAddress c \<notin> set (active_accounts (reservations db))"
    using insert_transition_Inr(1) [OF assms(5)] insert_reservation_keeps [OF assms(4)] row(1) by simp_all
  have new: "find (\<lambda>r. row_id r = row_id row) (cheques db) = None"
    unfolding find_None_iff using row(6) by (metis image_eqI)
  have eq: "abs_ledger_of db' = (abs_ledger_of db)(row_id row \<mapsto> row_view row)"
    by (rule ext) (use new in \<open>auto simp: abs_ledger_of_def db'(1) find_append split: option.splits\<close>)
  have "abs_step (abs_ledger_of db) ((abs_ledger_of db)(row_id row \<mapsto>
      (sender_address row, receiver_address row, amount_raw row, StateImzaliRezerve)))"
  proof (rule abs_create)
    show "abs_ledger_of db (row_id row) = None" using new by (simp add: abs_ledger_of_def)
    show "sender_address row \<noteq> receiver_address row" "0 < amount_raw row"
      using row(2) by (simp_all add: row_ok_def)
    show "IsTerminal st" if "abs_ledger_of db y = Some (sender_address row, r', a', st)" for y r' a' st
    proof -
      from that obtain q where "q \<in> set (cheques db)" "sender_address q = sender_address row" "state q = st"
        by (auto simp: abs_ledger_of_def row_view_def dest: find_SomeD)
      then show ?thesis
        using open_sender_active [of "cheques db" "reservations db" q] inv row(4) db'(2)
        by (auto simp: ledger_inv_def reservations_inv_def)
    qed
  qed
  then show ?thesis unfolding eq row_view_def using row(5) assms(2) by simp
qed

lemma abs_ledger_moved:
  assumes inv: "ledger_inv db" and r0: "r0 \<in> set (cheques db)" "row_id r0 = x" "state r0 = from"
  shows "abs_ledger_of db x = Some (sender_address r0, receiver_address r0, amount_raw r0, from)"
    and "abs_ledger_of (moved x from to cs h db) =
      (abs_ledger_of db)(x \<mapsto> (sender_address r0, receiver_address r0, amount_raw r0, to))"
proof -
  let ?f = "move_row x from to (db_clock db)"
  have dist: "distinct (map row_id (cheques db))" using inv by (simp add: ledger_inv_def cheques_inv_def)
  have find: "find (\<lambda>r. row_id r = y) (map ?f (cheques db)) =
      map_option ?f (find (\<lambda>r. row_id r = y) (cheques db))" for y
    by (rule find_map_other) (simp add: move_row_def)
  have x: "find (\<lambda>r. row_id r = x) (cheques db) = Some r0"
    using find_distinct [OF dist r0(1)] r0(2) by simp
  then show "abs_ledger_of db x = Some (sender_address r0, receiver_address r0, amount_raw r0, from)"
    using r0 by (simp add: abs_ledger_of_def row_view_def)
  show "abs_ledger_of (moved x from to cs h db) =
      (abs_ledger_of db)(x \<mapsto> (sender_address r0, receiver_address r0, amount_raw r0, to))"
  proof (rule ext)
    fix y
    show "abs_ledger_of (moved x from to cs h db) y = ((abs_ledger_of db)(x \<mapsto>
      (sender_address r0, receiver_address r0, amount_raw r0, to))) y"
    proof (cases "y = x")
      case True
      then show ?thesis using x r0
        by (simp add: abs_ledger_of_def moved_def find row_view_def move_row_def)
    next
      case False
      have "?f q = q" if "find (\<lambda>r. row_id r = y) (cheques db) = Some q" for q
        using that False by (auto simp: move_row_def dest: find_SomeD)
      with False show ?thesis
        by (cases "find (\<lambda>r. row_id r = y) (cheques db)") (simp_all add: abs_ledger_of_def moved_def find)
    qed
  qed
qed

lemma abs_move_step:
  assumes "ledger_inv db" and "(from, to) \<in> set edges" and "r0 \<in> set (cheques db)" "row_id r0 = x" "state r0 = from"
  shows "abs_step (abs_ledger_of db) (abs_ledger_of (moved x from to cs h db))"
  using abs_ledger_moved [OF assms(1,3-5)] abs_move assms(2) by metis

lemma abs_ledger_same: "same_tables a b \<Longrightarrow> abs_ledger_of b = abs_ledger_of a"
  by (rule ext) (simp add: abs_ledger_of_def same_tables_proj)

lemma abs_ledger_step:
  assumes "ledger_inv db" and "repo_step db db'"
  shows "abs_step (abs_ledger_of db) (abs_ledger_of db')"
  using assms(2)
proof cases
  case (step_create c d1 d2 cs h)
  then show ?thesis using abs_create_step [OF assms(1)] by blast
next
  case (step_move fr to x n d1 cs h d2 m)
  from move_effect [OF step_move(2,4,5)] step_move(3) obtain r0
    where "r0 \<in> set (cheques db)" "row_id r0 = x" "state r0 = fr" by (auto simp: filter_empty_conv)
  then show ?thesis
    using abs_move_step [OF assms(1) step_move(1)] move_effect(1) [OF step_move(2,4,5)] by simp
next
  case (step_preauth x e n)
  then have "abs_ledger_of db' = abs_ledger_of db"
    by (intro abs_ledger_same_rows [of _ "\<lambda>r. if row_id r = x
          then r\<lparr>preauth_entry_xdr := Some e, updated_at := db_clock db\<rparr> else r"])
       (auto simp: update_cheques_def row_view_def)
  then show ?thesis by (simp add: abs_skip)
next
  case (step_lock_hash x h n)
  then have "abs_ledger_of db' = abs_ledger_of db"
    by (intro abs_ledger_same_rows [of _ "\<lambda>r. if row_id r = x
          then r\<lparr>lock_tx_hash := Some h, updated_at := db_clock db\<rparr> else r"])
       (auto simp: update_cheques_def row_view_def)
  then show ?thesis by (simp add: abs_skip)
next
  case (step_pool_upsert owner a new upd)
  then have "cheques db' = cheques db"
    by (auto simp: upsert_pool_def split: option.splits if_splits)
  then show ?thesis by (simp add: abs_ledger_of_def [abs_def] abs_skip)
next
  case (step_pool_debit owner a n)
  then have "cheques db' = cheques db"
    by (auto simp: debit_pool_def split: option.splits if_splits)
  then show ?thesis by (simp add: abs_ledger_of_def [abs_def] abs_skip)
qed (simp_all add: abs_ledger_of_def [abs_def] abs_skip)

section \<open>Concrete databases\<close>

definition ex_db0 :: pay_db where
  "ex_db0 = \<lparr>cheques = [], cheque_transitions = [], reservations = [], pool_deposits = [],
     idempotency_keys = [], submissions = [], users = [], anchor_transactions = [], trustlines = [], audit_log = [], db_clock = 0, faults = []\<rparr>"

definition ex_cheque :: Cheque where
  "ex_cheque = \<lparr>ID = ''01J0000000000000000000000A'', SenderAddress = ''GA'', ReceiverAddress = ''GB'',
     RequestID = ''req-1'', TokenContract = ''CT'', AmountRaw = ''25'', ChequeDecimals = 7,
     ChequeState = StateImzaliRezerve, ExpiresAt = 604800000000000, LockTxHash = [],
     PreauthEntryXDR = [], CreatedAt = 0, UpdatedAt = 0, ChainVerified = None\<rparr>"

definition ex_db1 :: pay_db where
  "ex_db1 = snd (CreateReservedCheque ex_cheque ex_db0)"

definition ex_db2 :: pay_db where
  "ex_db2 = snd (Transition (ID ex_cheque) StateImzaliRezerve StateHavuzda ''user_action'' ''h'' ex_db1)"

lemma ex_db0_reach: "reach empty_db repo_step ex_db0"
  by (rule reach_init) (simp add: empty_db_def ex_db0_def)

lemma ex_db1_reach: "reach empty_db repo_step ex_db1"
proof -
  have "repo_step\<^sup>*\<^sup>* ex_db0 ex_db1"
    by (rule CreateReservedCheque_steps [of ex_cheque _ "fst (CreateReservedCheque ex_cheque ex_db0)"])
       (simp_all add: ex_db1_def ex_cheque_def)
  then show ?thesis by (rule reach_steps [OF ex_db0_reach])
qed

lemma ex_db2_steps: "repo_step\<^sup>*\<^sup>* ex_db1 ex_db2"
  by (rule Transition_steps [of "ID ex_cheque" StateImzaliRezerve StateHavuzda "''user_action''" "''h''" _
        "fst (Transition (ID ex_cheque) StateImzaliRezerve StateHavuzda ''user_action'' ''h'' ex_db1)"])
     (simp_all add: ex_db2_def edges_def)

lemma ex_db1_rows:
  "map row_id (cheques ex_db1) = [ID ex_cheque]" "map state (cheques ex_db1) = [StateImzaliRezerve]"
  "map sender_address (cheques ex_db1) = [''GA'']" "faults ex_db1 = []"
  by code_simp+

section \<open>Properties\<close>

lemma active_accounts_open:
  assumes "list_all2 reserved cs rs"
  shows "active_accounts rs = map sender_address (filter (\<lambda>r. \<not> IsTerminal (state r)) cs)"
  using assms
  by (induction rule: list_all2_induct) (simp_all add: active_accounts_def reserved_def)

text \<open>
  C2. At most one open cheque per sender, in every reachable state of the database, however
  service calls interleave and whatever connections fail: the accounts with an active
  reservation are exactly the senders of the cheques that are not terminal, and no account
  occurs twice.
\<close>

theorem one_open_cheque_per_sender:
  assumes "reach empty_db repo_step db"
  shows "active_accounts (reservations db) =
           map sender_address (filter (\<lambda>r. \<not> IsTerminal (state r)) (cheques db)) \<and>
         distinct (map sender_address (filter (\<lambda>r. \<not> IsTerminal (state r)) (cheques db)))"
proof -
  have "list_all2 reserved (cheques db) (reservations db)" and d: "distinct (active_accounts (reservations db))"
    using ledger.inv_reach [OF assms] by (simp_all add: ledger_inv_def reservations_inv_def)
  from active_accounts_open [OF this(1)] d show ?thesis by simp
qed

theorem one_open_cheque_per_sender_witness:
  "distinct (map sender_address (filter (\<lambda>r. \<not> IsTerminal (state r)) (cheques ex_db1))) \<and>
   length (cheques ex_db1) = 1"
  using one_open_cheque_per_sender [OF ex_db1_reach] arg_cong [OF ex_db1_rows(1), of length] by simp

lemma run_log_distinct:
  "run_log s es = Some t \<Longrightarrow> set es \<subseteq> set all_edges \<Longrightarrow> distinct es"
proof (induction es arbitrary: t rule: rev_induct)
  case (snoc e es)
  obtain f g where e: "e = (f, g)" by (cases e)
  with snoc.prems have "run_log s es = Some f" by (auto simp: run_log_append split: option.splits if_splits)
  with snoc e show ?case using run_log_rank [of s es f] by auto
qed simp

text \<open>
  The transition log is a faithful history: in every reachable state, the log entries of a
  cheque, in the order they were written, start at TASLAK, connect, use only edges of the graph
  and end in the cheque's current state, and no entry is recorded twice.
\<close>

theorem transition_log_history:
  assumes "reach empty_db repo_step db" and "r \<in> set (cheques db)"
  shows "run_log StateTaslak (log_of (cheque_transitions db) (row_id r)) = Some (state r) \<and>
         set (log_of (cheque_transitions db) (row_id r)) \<subseteq> set all_edges \<and>
         distinct (log_of (cheque_transitions db) (row_id r))"
proof -
  have inv: "log_inv (cheques db) (cheque_transitions db)"
    using ledger.inv_reach [OF assms(1)] by (simp add: ledger_inv_def)
  have "run_log StateTaslak (log_of (cheque_transitions db) (row_id r)) = Some (state r)"
    using inv assms(2) by (simp add: log_inv_def list_all_iff)
  moreover have "set (log_of (cheque_transitions db) (row_id r)) \<subseteq> set all_edges"
    using inv by (auto simp: log_inv_def log_of_def list_all_iff)
  ultimately show ?thesis using run_log_distinct by blast
qed

theorem transition_log_history_witness:
  "run_log StateTaslak (log_of (cheque_transitions ex_db1) (row_id (hd (cheques ex_db1)))) =
     Some (state (hd (cheques ex_db1)))"
proof -
  have "hd (cheques ex_db1) \<in> set (cheques ex_db1)" using ex_db1_rows(1) by (cases "cheques ex_db1") auto
  from transition_log_history [OF ex_db1_reach this] show ?thesis by blast
qed

text \<open>
  \<open>Transition\<close> on a reachable database with a healthy connection, along an edge of the
  graph: it succeeds exactly when the cheque is in the state it is said to be in, and then
  changes that row's state, appends one log entry and releases the reservation if the new
  state is terminal; otherwise it reports the bad transition and changes nothing. So a repeated
  call never applies twice.
\<close>

theorem Transition_exact:
  assumes "reach empty_db repo_step db" and "faults db = []" and "(from, to) \<in> set edges"
  shows "Transition x from to cs h db =
     (if \<exists>r \<in> set (cheques db). row_id r = x \<and> state r = from
      then (Inr (), db\<lparr>cheques := map (\<lambda>r. if row_id r = x \<and> state r = from
                then r\<lparr>state := to, updated_at := db_clock db\<rparr> else r) (cheques db),
              cheque_transitions := cheque_transitions db @
                [\<lparr>tr_cheque_id = x, from_state = from, to_state = to, cause = cs,
                  tr_tx_hash = (if h = [] then None else Some h)\<rparr>],
              reservations := map (\<lambda>s. if rs_cheque_id s = x \<and> IsTerminal to
                then s\<lparr>rs_state := Released\<rparr> else s) (reservations db)\<rparr>)
      else (Inl ErrBadTransitionInRepo, db))"
  unfolding Transition_no_faults [OF assms(2) ledger.inv_reach [OF assms(1)] assms(3)]
    moved_def move_row_def [abs_def] release_row_def [abs_def] nullif_empty_def ..

theorem Transition_exact_witness:
  "fst (Transition (ID ex_cheque) StateImzaliRezerve StateHavuzda ''user_action'' ''h'' ex_db1) = Inr () \<and>
   Transition (ID ex_cheque) StateHavuzda StateTalepEdildi ''user_action'' ''h'' ex_db1 =
     (Inl ErrBadTransitionInRepo, ex_db1)"
proof -
  obtain r where r: "cheques ex_db1 = [r]" "row_id r = ID ex_cheque" "state r = StateImzaliRezerve"
    using ex_db1_rows(1,2) by (auto simp: map_eq_Cons_conv)
  show ?thesis
    using Transition_exact [OF ex_db1_reach ex_db1_rows(4)] r by (simp add: edges_def)
qed

text \<open>
  C9. Under any sequence of connection failures \<open>Transition\<close> is all or nothing: it either
  leaves every table as it was and returns an error, or applies the whole transition, and it
  reports success only in the second case. An error does not always mean that nothing
  happened: the answer to the commit may be lost.
\<close>

theorem Transition_atomic:
  assumes "Transition x from to cs h db = (r, db')"
  shows "same_tables db db' \<and> (\<exists>e. r = Inl e) \<or>
         same_tables (moved x from to cs h db) db' \<and> (r = Inr () \<or> r = Inl (pgErr PgConn)) \<and>
         (\<exists>r0 \<in> set (cheques db). row_id r0 = x \<and> state r0 = from) \<and>
         (from, to) \<notin> set (log_of (cheque_transitions db) x)"
  by (rule Transition_cases [OF assms])

theorem Transition_atomic_witness:
  "\<exists>r db'. Transition (ID ex_cheque) StateImzaliRezerve StateHavuzda ''user_action'' ''h''
       (ex_db1\<lparr>faults := [None, None, Some Fail]\<rparr>) = (r, db') \<and> same_tables ex_db1 db' \<and>
     r = Inl ErrBadTransitionInRepo"
proof -
  let ?db = "ex_db1\<lparr>faults := [None, None, Some Fail]\<rparr>"
  let ?T = "Transition (ID ex_cheque) StateImzaliRezerve StateHavuzda ''user_action'' ''h'' ?db"
  have r: "fst ?T = Inl ErrBadTransitionInRepo" by code_simp
  then have T: "?T = (Inl ErrBadTransitionInRepo, snd ?T)" by (metis prod.collapse)
  from Transition_atomic [OF this] have "same_tables ?db (snd ?T)"
    by (auto simp: ErrBadTransitionInRepo_def pgErr_def)
  then have "same_tables ex_db1 (snd ?T)" by (blast intro: same_tables_trans same_tables_faults)
  with T show ?thesis by blast
qed

end
