(* ===== verification/ChequeService.thy ===== *)
theory ChequeService
  imports ChequeLedger
begin

text \<open>
  \<open>backend/services/cheque/service.go\<close>: the operations of the cheque service. An operation takes
  the service (its configuration, the chain gateway, whether the database pool is connected and
  the SDK), the values the code draws from outside (the clock, a fresh ULID, random bytes) and
  the database, and returns a result or an error with the database afterwards. Every early
  return of the code is a branch. \<open>fmt.Errorf("%w: %v", e, x)\<close> is \<open>Annot e (err_text x)\<close>.
\<close>

section \<open>Configuration, errors, helpers\<close>

record Config =
  EscrowContractID :: string
  TokenContractID :: string
  cfg_AssetCode :: string
  cfg_AssetIssuer :: string
  cfg_Decimals :: u8
  NetworkPassphrase :: string

record 'tx Service =
  cfg :: Config
  db_ready :: bool \<comment> \<open>\<open>repos()\<close> returns a repository: \<open>pool.Get()\<close>\<close>
  pool_ready :: bool \<comment> \<open>\<open>pool.Ready()\<close>, which the router asks\<close>
  chain :: ChainGateway
  svc_sdk :: "'tx sdk"

record outside =
  time_Now :: time
  ulid_Make :: "byte list"
  rand_Read :: "byte list res" \<comment> \<open>the eight bytes of the nonce\<close>

definition chequeValidity :: time where
  "chequeValidity = 7 * 24 * 3600 * 1000000000"

definition approxLedgersPerWeek :: u32 where
  "approxLedgersPerWeek = 7 * 24 * 60 * 60 div 5"

definition ErrDBNotReadyErr :: go_error where "ErrDBNotReadyErr = Sentinel ''cheque.db_not_ready''"
definition errInsufficientBalance :: go_error where "errInsufficientBalance = Sentinel ''cheque.insufficient_balance''"
definition errAlreadyActive :: go_error where "errAlreadyActive = Sentinel ''cheque.already_active''"
definition errInvalidReceiver :: go_error where "errInvalidReceiver = Sentinel ''cheque.invalid_receiver''"
definition errReceiverNoTrustline :: go_error where "errReceiverNoTrustline = Sentinel ''cheque.receiver_no_trustline''"
definition errSenderNoTrustline :: go_error where "errSenderNoTrustline = Sentinel ''cheque.sender_no_trustline''"
definition errSelfTransfer :: go_error where "errSelfTransfer = Sentinel ''cheque.self_transfer''"
definition errRequestUsed :: go_error where "errRequestUsed = Sentinel ''cheque.request_used''"
definition errInvalidRequestID :: go_error where "errInvalidRequestID = Sentinel ''cheque.invalid_request_id''"
definition errInvalidAmount :: go_error where "errInvalidAmount = Sentinel ''cheque.invalid_amount''"
definition errExpired :: go_error where "errExpired = Sentinel ''cheque.expired''"
definition errTerminalState :: go_error where "errTerminalState = Sentinel ''cheque.terminal_state''"
definition errNotFound :: go_error where "errNotFound = Sentinel ''cheque.not_found''"
definition errBadRequest :: go_error where "errBadRequest = Sentinel ''cheque.bad_request''"
definition errChainUnavailable :: go_error where "errChainUnavailable = Sentinel ''chain.rpc_unavailable''"
definition errAccountNotFunded :: go_error where "errAccountNotFunded = Sentinel ''cheque.account_not_funded''"
definition errSimulationFailed :: go_error where "errSimulationFailed = Sentinel ''cheque.simulation_failed''"
definition errNotFunded :: go_error where "errNotFunded = Sentinel ''cheque.not_funded''"
definition errAlreadyClaimed :: go_error where "errAlreadyClaimed = Sentinel ''cheque.already_claimed''"
definition errInsufficientFee :: go_error where "errInsufficientFee = Sentinel ''cheque.insufficient_fee''"

text \<open>\<open>v, err := f(); if err != nil { return err }\<close> for a call that uses the database.\<close>

definition db_bind :: "'a res \<times> 'd \<Rightarrow> ('a \<Rightarrow> 'd \<Rightarrow> 'b res \<times> 'd) \<Rightarrow> 'b res \<times> 'd" where
  "db_bind rd f = (case rd of (Inl e, db) \<Rightarrow> (Inl e, db) | (Inr x, db) \<Rightarrow> f x db)"

text \<open>\<open>if err := f(); err != nil { return h(err) }\<close>.\<close>

definition map_err :: "(go_error \<Rightarrow> go_error) \<Rightarrow> 'a res \<Rightarrow> 'a res" where
  "map_err h r = (case r of Inl e \<Rightarrow> Inl (h e) | Inr x \<Rightarrow> Inr x)"

definition chainUnavailable :: "go_error \<Rightarrow> go_error" where
  "chainUnavailable e = Annot errChainUnavailable (err_text e)"

definition mapRepoErr :: "go_error \<Rightarrow> go_error" where
  "mapRepoErr e = (if errors_Is e ErrNotFoundInRepo then errNotFound else e)"

definition service_asset :: "'tx Service \<Rightarrow> AssetID" where
  "service_asset s = \<lparr>Code = cfg_AssetCode (cfg s), Issuer = cfg_AssetIssuer (cfg s),
     ContractID = TokenContractID (cfg s)\<rparr>"

definition simulator :: "'tx Service \<Rightarrow> Simulator" where
  "simulator s unsignedXDR =
     (case SimulateTransaction (chain s) unsignedXDR of
        Inl e \<Rightarrow> Inl e
      | Inr r \<Rightarrow>
          if \<not> sr_Success r then Inl (Annot errSimulationFailed (sr_Error r))
          else Inr \<lparr>sim_TransactionDataXDR = sr_TransactionDataXDR r, sim_AuthXDR = sr_AuthXDR r\<rparr>)"

definition assemble :: "'tx Service \<Rightarrow> string \<Rightarrow> i64 \<Rightarrow> InvokeHostFunction \<Rightarrow> string res" where
  "assemble s source sequence op =
     AssembleInvocation (svc_sdk s) (simulator s) (NetworkPassphrase (cfg s)) source (sint sequence) op"

text \<open>\<open>scArgs\<close>: the first construction error, or all values.\<close>

fun scArgs :: "ScVal res list \<Rightarrow> ScVal list res" where
  "scArgs [] = Inr []"
| "scArgs (f # fs) = res_bind f (\<lambda>v. res_bind (scArgs fs) (\<lambda>vs. Inr (v # vs)))"

definition decodeULID :: "'tx sdk \<Rightarrow> string \<Rightarrow> byte list res" where
  "decodeULID k s = (case ulid_ParseStrict k s of
      Inl _ \<Rightarrow> Inl (Annot errBadRequest ''bad cheque id'') | Inr b \<Rightarrow> Inr b)"

definition BigEndian_Uint64 :: "byte list \<Rightarrow> u64" where
  "BigEndian_Uint64 bs = foldl (\<lambda>n b. push_bit 8 n OR ucast b) 0 bs"

definition randomNonce :: "byte list res \<Rightarrow> i64 res" where
  "randomNonce rnd =
     (case rnd of Inl e \<Rightarrow> Inl e
      | Inr b \<Rightarrow> (let n = BigEndian_Uint64 b in Inr (if sint n < 0 then - n else n)))"

definition requestIDChar :: "char \<Rightarrow> bool" where
  "requestIDChar c \<longleftrightarrow> (let n = (of_char c :: nat) in
     65 \<le> n \<and> n \<le> 90 \<or> 97 \<le> n \<and> n \<le> 122 \<or> 48 \<le> n \<and> n \<le> 57 \<or> n = 45)"

definition validRequestID :: "string \<Rightarrow> bool" where
  "validRequestID i \<longleftrightarrow> i = [] \<or> (list_all requestIDChar i \<and> 1 \<le> length i \<and> length i \<le> 64)"

definition nativeReserveHeadroomRaw :: int where
  "nativeReserveHeadroomRaw = 15000000"

fun hasNativeFeeHeadroom_loop :: "Balance list \<Rightarrow> bool" where
  "hasNativeFeeHeadroom_loop [] = False"
| "hasNativeFeeHeadroom_loop (b # bs) =
     (if AssetCode b \<noteq> ''native'' then hasNativeFeeHeadroom_loop bs
      else (case ParseAmount (bal_Balance b) \<lparr>Code = ''native'', Issuer = [], ContractID = []\<rparr> 7 of
              Inl _ \<Rightarrow> False
            | Inr bal \<Rightarrow> Raw bal - nativeReserveHeadroomRaw \<ge> 0))"

definition hasNativeFeeHeadroom :: "AccountInfo \<Rightarrow> bool" where
  "hasNativeFeeHeadroom acc = hasNativeFeeHeadroom_loop (acc_Balances acc)"

fun hasSufficientBalance_loop :: "Balance list \<Rightarrow> string \<Rightarrow> string \<Rightarrow> int \<Rightarrow> u8 \<Rightarrow> bool" where
  "hasSufficientBalance_loop [] assetCode assetIssuer amount decs = False"
| "hasSufficientBalance_loop (b # bs) assetCode assetIssuer amount decs =
     (if AssetCode b \<noteq> assetCode \<or> (assetCode \<noteq> ''native'' \<and> AssetIssuer b \<noteq> assetIssuer)
      then hasSufficientBalance_loop bs assetCode assetIssuer amount decs
      else (case ParseAmount (bal_Balance b) \<lparr>Code = assetCode, Issuer = assetIssuer, ContractID = []\<rparr> decs of
              Inl _ \<Rightarrow> False
            | Inr bal \<Rightarrow>
                (let spendable = (if assetCode = ''native'' then Raw bal - nativeReserveHeadroomRaw else Raw bal)
                 in spendable \<ge> amount)))"

definition hasSufficientBalance :: "AccountInfo \<Rightarrow> string \<Rightarrow> string \<Rightarrow> int \<Rightarrow> u8 \<Rightarrow> bool" where
  "hasSufficientBalance acc assetCode assetIssuer amount decs =
     hasSufficientBalance_loop (acc_Balances acc) assetCode assetIssuer amount decs"

text \<open>Parsing and the sign check every amount goes through.\<close>

definition parse_positive :: "'tx Service \<Rightarrow> string \<Rightarrow> Amount res" where
  "parse_positive s amountStr =
     (case ParseAmount amountStr (service_asset s) (cfg_Decimals (cfg s)) of
        Inl _ \<Rightarrow> Inl errInvalidAmount
      | Inr amount \<Rightarrow> if Raw amount \<le> 0 then Inl errInvalidAmount else Inr amount)"

section \<open>Reading the contract\<close>

text \<open>
  \<open>(record, present, ok)\<close>: \<open>None\<close> is \<open>ok = false\<close>, \<open>Some None\<close> an absent record. The simulated call
  and its answer, shared by the cheque and the pool lookup.
\<close>

definition chain_read ::
  "'tx Service \<Rightarrow> string \<Rightarrow> string \<Rightarrow> ScVal res \<Rightarrow> i64 \<Rightarrow> (ScVal \<Rightarrow> 'r option res) \<Rightarrow> 'r option option" where
  "chain_read s source function arg callerSequence decode =
     (case arg of Inl _ \<Rightarrow> None | Inr a \<Rightarrow>
     (case InvokeContract (svc_sdk s) (EscrowContractID (cfg s)) source function [a] of Inl _ \<Rightarrow> None | Inr op \<Rightarrow>
     (case assemble s source callerSequence op of Inl _ \<Rightarrow> None | Inr xdrStr \<Rightarrow>
     (case SimulateTransaction (chain s) xdrStr of Inl _ \<Rightarrow> None | Inr result \<Rightarrow>
        if \<not> sr_Success result \<or> sr_ResultXDR result = [] then None
        else (case xdr_UnmarshalScVal (svc_sdk s) (sr_ResultXDR result) of Inl _ \<Rightarrow> None | Inr resultVal \<Rightarrow>
              (case decode resultVal of Inl _ \<Rightarrow> None | Inr rec \<Rightarrow> Some rec))))))"

definition chainChequeRecord :: "'tx Service \<Rightarrow> Cheque \<Rightarrow> i64 \<Rightarrow> ChequeRecordView option option" where
  "chainChequeRecord s c callerSequence =
     (case decodeULID (svc_sdk s) (ID c) of Inl _ \<Rightarrow> None
      | Inr idBytes \<Rightarrow>
          chain_read s (ReceiverAddress c) ''get_cheque'' (ScBytes idBytes) callerSequence
            (DecodeChequeRecord (svc_sdk s)))"

definition chainPoolRecord :: "'tx Service \<Rightarrow> string \<Rightarrow> i64 \<Rightarrow> PoolRecordView option option" where
  "chainPoolRecord s owner callerSequence =
     chain_read s owner ''get_pool'' (ScAddress (svc_sdk s) owner) callerSequence
       (DecodePoolRecord (svc_sdk s))"

definition chequeStateMatchesChain :: "State \<Rightarrow> string option \<Rightarrow> bool" where
  "chequeStateMatchesChain lcl chainState =
     (case chainState of
        None \<Rightarrow> lcl = StateTaslak \<or> lcl = StateImzaliRezerve
      | Some st \<Rightarrow>
          if st = ''Funded'' then lcl = StateHavuzda \<or> lcl = StateFonlaniyor \<or> lcl = StateZorlaTahsilDenendi
          else if st = ''Claimed'' then lcl = StateTalepEdildi \<or> lcl = StateOnaylandi \<or> lcl = StateKapandi
          else if st = ''Refunded'' then lcl = StateIadeEdilebilir \<or> lcl = StateIadeEdildi
          else if st = ''Collected'' then lcl = StateKapandi \<or> lcl = StateZorlaTahsilDenendi
          else if st = ''Bounced'' then lcl = StateKarsiliksiz
          else False)"

definition verifyChequeOnChain :: "'tx Service \<Rightarrow> Cheque \<Rightarrow> i64 \<Rightarrow> bool option" where
  "verifyChequeOnChain s c callerSequence =
     (case chainChequeRecord s c callerSequence of
        None \<Rightarrow> None
      | Some rec \<Rightarrow> Some (chequeStateMatchesChain (ChequeState c) (map_option v_State rec)))"

definition reconcilePoolWithChain ::
  "'tx Service \<Rightarrow> string \<Rightarrow> PoolDeposit \<Rightarrow> i64 \<Rightarrow> pay_db \<Rightarrow> PoolDeposit \<times> pay_db" where
  "reconcilePoolWithChain s owner pool callerSequence db =
     (case chainPoolRecord s owner callerSequence of
        None \<Rightarrow> (pool\<lparr>PoolChainVerified := None\<rparr>, db)
      | Some rec \<Rightarrow>
          (let chainAmount = (case rec of None \<Rightarrow> 0 | Some r \<Rightarrow> p_Amount r) in
           if bigint_SetString (PoolAmountRaw pool) = Some chainAmount
           then (pool\<lparr>PoolChainVerified := Some True\<rparr>, db)
           else
             (let decs = (if PoolDecimals pool = 0 then cfg_Decimals (cfg s) else PoolDecimals pool) in
              case SetPoolAmount owner (bigint_String chainAmount) decs db of
                (Inl _, db') \<Rightarrow> (pool\<lparr>PoolChainVerified := None\<rparr>, db')
              | (Inr _, db') \<Rightarrow>
                  (pool\<lparr>PoolAmountRaw := bigint_String chainAmount, PoolDecimals := decs,
                        PoolChainVerified := Some True\<rparr>, db'))))"

section \<open>Creating a cheque\<close>

record CreateChequeResult =
  res_ChequeID :: string
  res_LockXDR :: string
  res_PreauthEntryXDR :: string
  res_PreauthPayloadHash :: string
  res_ExpiresAt :: time

definition audit :: "string \<Rightarrow> string \<Rightarrow> (string \<times> string) list \<Rightarrow> pay_db \<Rightarrow> pay_db" where
  "audit act actn dts db = snd (InsertAudit act actn dts db)"

definition createErr :: "go_error \<Rightarrow> go_error" where
  "createErr e = (if errors_Is e ErrAlreadyActiveInRepo then errAlreadyActive
     else if errors_Is e ErrRequestUsedInRepo then errRequestUsed
     else Wrap ''cheque: create reservation'' e)"

text \<open>
  Everything after the reservation: the unsigned lock transaction and the unsigned
  \<open>force_collect\<close> authorization, both for the id, parties, amount and expiry of the cheque.
\<close>

definition createArtifacts ::
  "'tx Service \<Rightarrow> outside \<Rightarrow> string \<Rightarrow> string \<Rightarrow> Amount \<Rightarrow> i64 \<Rightarrow> time \<Rightarrow> (string \<times> byte list \<times> byte list) res" where
  "createArtifacts s out sender receiver amount sequence expiresAt =
     (let k = svc_sdk s; chequeID = ulid_Make out in
      res_bind (map_err (Wrap ''cheque: build lock args'')
        (scArgs [ScAddress k sender, ScBytes chequeID, ScAddress k receiver,
                 ScAddress k (TokenContractID (cfg s)), ScI128 (Raw amount), ScUint64 (unix_u64 expiresAt)])) (\<lambda>lockArgs.
      res_bind (map_err (Wrap ''cheque: build lock op'')
        (InvokeContract k (EscrowContractID (cfg s)) sender ''lock'' lockArgs)) (\<lambda>lockOp.
      res_bind (map_err (Wrap ''cheque: assemble lock tx'') (assemble s sender sequence lockOp)) (\<lambda>lockXDR.
      res_bind (map_err chainUnavailable (GetLedger (chain s))) (\<lambda>ledger.
      res_bind (map_err (Wrap ''cheque: generate nonce'') (randomNonce (rand_Read out))) (\<lambda>nonce.
      res_bind (map_err (Wrap ''cheque: build force_collect auth entry'')
        (BuildForceCollectAuthEntry k (NetworkPassphrase (cfg s)) (EscrowContractID (cfg s))
           sender receiver (TokenContractID (cfg s)) (Raw amount) chequeID (unix_u64 expiresAt)
           (ucast (ldg_Sequence ledger) + approxLedgersPerWeek) nonce)) (\<lambda>(entryXDR, payloadHash).
      Inr (lockXDR, entryXDR, payloadHash))))))))"

definition newCheque :: "'tx Service \<Rightarrow> outside \<Rightarrow> string \<Rightarrow> string \<Rightarrow> string \<Rightarrow> Amount \<Rightarrow> time \<Rightarrow> Cheque" where
  "newCheque s out sender receiver requestID amount expiresAt =
     \<lparr>ID = ulid_String (svc_sdk s) (ulid_Make out), SenderAddress = sender, ReceiverAddress = receiver,
      RequestID = requestID, TokenContract = TokenContractID (cfg s), AmountRaw = bigint_String (Raw amount),
      ChequeDecimals = cfg_Decimals (cfg s), ChequeState = StateImzaliRezerve, ExpiresAt = expiresAt,
      LockTxHash = [], PreauthEntryXDR = [], CreatedAt = time_zero, UpdatedAt = time_zero, ChainVerified = None\<rparr>"

text \<open>The checks before anything is stored: the amount and the sender's account, or an error.\<close>

definition createChecks ::
  "'tx Service \<Rightarrow> string \<Rightarrow> string \<Rightarrow> string \<Rightarrow> string \<Rightarrow> (Amount \<times> AccountInfo) res" where
  "createChecks s sender receiver amountStr requestID =
     (if \<not> db_ready s then Inl ErrDBNotReadyErr
      else if sender = receiver then Inl errSelfTransfer
      else if \<not> validRequestID requestID then Inl errInvalidRequestID
      else if \<not> IsValidAccountAddress (svc_sdk s) receiver then Inl errInvalidReceiver
      else
      res_bind (parse_positive s amountStr) (\<lambda>amount.
      res_bind (map_err chainUnavailable
        (GetTrustline (chain s) receiver (cfg_AssetCode (cfg s)) (cfg_AssetIssuer (cfg s)))) (\<lambda>trustline.
      if \<not> tl_Exists trustline then Inl errReceiverNoTrustline
      else
      res_bind (map_err chainUnavailable (GetAccount (chain s) sender)) (\<lambda>senderAccount.
      if \<not> hasSufficientBalance senderAccount (cfg_AssetCode (cfg s)) (cfg_AssetIssuer (cfg s))
             (Raw amount) (cfg_Decimals (cfg s))
      then Inl errInsufficientBalance
      else Inr (amount, senderAccount)))))"

definition CreateCheque ::
  "'tx Service \<Rightarrow> outside \<Rightarrow> string \<Rightarrow> string \<Rightarrow> string \<Rightarrow> string \<Rightarrow> pay_db \<Rightarrow> CreateChequeResult res \<times> pay_db" where
  "CreateCheque s out sender receiver amountStr requestID db =
     (case createChecks s sender receiver amountStr requestID of
        Inl e \<Rightarrow> (Inl e, db)
      | Inr (amount, senderAccount) \<Rightarrow>
          (let expiresAt = time_Now out + chequeValidity;
               c = newCheque s out sender receiver requestID amount expiresAt
           in case CreateReservedCheque c db of
                (Inl e, db1) \<Rightarrow> (Inl (createErr e), db1)
              | (Inr _, db1) \<Rightarrow>
                  (case createArtifacts s out sender receiver amount (acc_Sequence senderAccount) expiresAt of
                     Inl e \<Rightarrow> (Inl e, db1)
                   | Inr (lockXDR, entryXDR, payloadHash) \<Rightarrow>
                       (Inr \<lparr>res_ChequeID = ID c, res_LockXDR = lockXDR,
                             res_PreauthEntryXDR = b64_EncodeToString entryXDR,
                             res_PreauthPayloadHash = b64_EncodeToString payloadHash,
                             res_ExpiresAt = expiresAt\<rparr>,
                        audit sender ''cheque.lock_xdr_issued''
                          [(''chequeId'', ID c), (''receiver'', receiver), (''amount'', Amount_String amount)] db1))))"

section \<open>Confirmations\<close>

text \<open>\<open>repo.GetCheque\<close> with the error mapping every operation applies.\<close>

definition getCheque :: "'tx Service \<Rightarrow> string \<Rightarrow> pay_db \<Rightarrow> Cheque res \<times> pay_db" where
  "getCheque s chequeID db =
     (if \<not> db_ready s then (Inl ErrDBNotReadyErr, db)
      else (case GetCheque chequeID db of (r, db1) \<Rightarrow> (map_err mapRepoErr r, db1)))"

definition StorePreauth :: "'tx Service \<Rightarrow> string \<Rightarrow> string \<Rightarrow> string \<Rightarrow> pay_db \<Rightarrow> unit res \<times> pay_db" where
  "StorePreauth s chequeID caller signedEntryXDR db =
     db_bind (getCheque s chequeID db) (\<lambda>c db1.
       if SenderAddress c \<noteq> caller then (Inl errNotFound, db1)
       else SetPreauthEntry chequeID signedEntryXDR db1)"

definition ConfirmLock :: "'tx Service \<Rightarrow> string \<Rightarrow> string \<Rightarrow> string \<Rightarrow> pay_db \<Rightarrow> unit res \<times> pay_db" where
  "ConfirmLock s chequeID caller txHash db =
     db_bind (getCheque s chequeID db) (\<lambda>c db1.
       if SenderAddress c \<noteq> caller then (Inl errNotFound, db1)
       else
       db_bind (SetLockTxHash chequeID txHash db1) (\<lambda>_ db2.
       (case Transition chequeID StateImzaliRezerve StateHavuzda ''user_action'' txHash db2 of
          (Inl e, db3) \<Rightarrow> if errors_Is e ErrBadTransitionInRepo then (Inr (), db3) else (Inl e, db3)
        | (Inr _, db3) \<Rightarrow>
            (Inr (), audit caller ''cheque.lock_confirmed'' [(''chequeId'', chequeID), (''txHash'', txHash)] db3))))"

definition ConfirmClaim :: "'tx Service \<Rightarrow> string \<Rightarrow> string \<Rightarrow> string \<Rightarrow> pay_db \<Rightarrow> unit res \<times> pay_db" where
  "ConfirmClaim s chequeID caller txHash db =
     db_bind (getCheque s chequeID db) (\<lambda>c db1.
       if ReceiverAddress c \<noteq> caller then (Inl errNotFound, db1)
       else
       (case Transition chequeID StateHavuzda StateTalepEdildi ''user_action'' txHash db1 of
          (Inl e, db2) \<Rightarrow> if errors_Is e ErrBadTransitionInRepo then (Inr (), db2) else (Inl e, db2)
        | (Inr _, db2) \<Rightarrow>
            (Inr (), audit caller ''cheque.claimed'' [(''chequeId'', chequeID), (''txHash'', txHash)] db2)))"

text \<open>\<open>err != nil && !errors.Is(err, ErrBadTransitionInRepo)\<close>: a repeated transition is no error.\<close>

definition tolerate :: "unit res \<times> 'd \<Rightarrow> unit res \<times> 'd" where
  "tolerate rd = (case rd of
      (Inl e, db) \<Rightarrow> if errors_Is e ErrBadTransitionInRepo then (Inr (), db) else (Inl e, db)
    | (Inr _, db) \<Rightarrow> (Inr (), db))"

definition AcknowledgeReceipt :: "'tx Service \<Rightarrow> string \<Rightarrow> string \<Rightarrow> pay_db \<Rightarrow> unit res \<times> pay_db" where
  "AcknowledgeReceipt s chequeID caller db =
     db_bind (getCheque s chequeID db) (\<lambda>c db1.
       if ReceiverAddress c \<noteq> caller then (Inl errNotFound, db1)
       else
       db_bind (tolerate (Transition chequeID StateTalepEdildi StateOnaylandi ''user_action'' [] db1)) (\<lambda>_ db2.
         tolerate (Transition chequeID StateOnaylandi StateKapandi ''user_action'' [] db2)))"

definition ConfirmForceCollect ::
  "'tx Service \<Rightarrow> string \<Rightarrow> string \<Rightarrow> string \<Rightarrow> bool \<Rightarrow> pay_db \<Rightarrow> unit res \<times> pay_db" where
  "ConfirmForceCollect s chequeID caller txHash collected db =
     db_bind (getCheque s chequeID db) (\<lambda>c db1.
       if ReceiverAddress c \<noteq> caller then (Inl errNotFound, db1)
       else
       db_bind (tolerate (Transition chequeID StateZorlaTahsilDenendi
                  (if collected then StateKapandi else StateKarsiliksiz) ''user_action'' txHash db1)) (\<lambda>_ db2.
         (Inr (), audit caller ''cheque.force_collect_confirmed''
            [(''chequeId'', chequeID), (''txHash'', txHash),
             (''collected'', if collected then ''true'' else ''false'')] db2)))"

definition ExpiredFundedCheques :: "'tx Service \<Rightarrow> outside \<Rightarrow> pay_db \<Rightarrow> Cheque list res \<times> pay_db" where
  "ExpiredFundedCheques s out db =
     (if \<not> db_ready s then (Inl ErrDBNotReadyErr, db) else ExpiredFundedChequesRepo (time_Now out) db)"

definition MarkRefunded :: "'tx Service \<Rightarrow> string \<Rightarrow> string \<Rightarrow> pay_db \<Rightarrow> unit res \<times> pay_db" where
  "MarkRefunded s chequeID txHash db =
     (if \<not> db_ready s then (Inl ErrDBNotReadyErr, db)
      else
      db_bind (tolerate (Transition chequeID StateHavuzda StateIadeEdilebilir ''scheduler_sweep'' [] db)) (\<lambda>_ db1.
      db_bind (tolerate (Transition chequeID StateIadeEdilebilir StateIadeEdildi ''scheduler_sweep'' txHash db1)) (\<lambda>_ db2.
        (Inr (), audit ''system'' ''cheque.refunded'' [(''chequeId'', chequeID), (''txHash'', txHash)] db2))))"

section \<open>Claiming and force collecting\<close>

text \<open>The end of \<open>ClaimXDR\<close>: the expiry check and the unsigned claim transaction.\<close>

definition buildClaim :: "'tx Service \<Rightarrow> outside \<Rightarrow> string \<Rightarrow> string \<Rightarrow> Cheque \<Rightarrow> i64 \<Rightarrow> string res" where
  "buildClaim s out chequeID receiver c sequence =
     (if time_Now out > ExpiresAt c then Inl errExpired
      else
      res_bind (decodeULID (svc_sdk s) chequeID) (\<lambda>idBytes.
      res_bind (scArgs [ScBytes idBytes]) (\<lambda>claimArgs.
      res_bind (InvokeContract (svc_sdk s) (EscrowContractID (cfg s)) receiver ''claim'' claimArgs) (\<lambda>op.
      assemble s receiver sequence op))))"

definition ClaimXDR :: "'tx Service \<Rightarrow> outside \<Rightarrow> string \<Rightarrow> string \<Rightarrow> pay_db \<Rightarrow> string res \<times> pay_db" where
  "ClaimXDR s out chequeID receiver db =
     db_bind (getCheque s chequeID db) (\<lambda>c db1.
       if ReceiverAddress c \<noteq> receiver then (Inl errInvalidReceiver, db1)
       else
       db_bind (map_err chainUnavailable (GetAccount (chain s) receiver), db1) (\<lambda>receiverAccount db1.
       let sequence = acc_Sequence receiverAccount in
       if ChequeState c = StateHavuzda then (buildClaim s out chequeID receiver c sequence, db1)
       else if ChequeState c = StateImzaliRezerve \<or> ChequeState c = StateFonlaniyor
       then (case chainChequeRecord s c sequence of
               None \<Rightarrow> (Inl errTerminalState, db1)
             | Some None \<Rightarrow> (Inl errNotFunded, db1)
             | Some (Some rec) \<Rightarrow>
                 if v_State rec = ''Funded''
                 then db_bind (tolerate (Transition chequeID (ChequeState c) StateHavuzda ''chain_verified'' (LockTxHash c) db1)) (\<lambda>_ db2.
                        (buildClaim s out chequeID receiver c sequence,
                         audit receiver ''cheque.lock_repaired_from_chain'' [(''chequeId'', chequeID)] db2))
                 else if v_State rec = ''Claimed''
                 then db_bind (tolerate (Transition chequeID (ChequeState c) StateTalepEdildi ''chain_verified'' (LockTxHash c) db1)) (\<lambda>_ db2.
                        (Inl errAlreadyClaimed, db2))
                 else (Inl errNotFunded, db1))
       else (Inl errTerminalState, db1)))"

text \<open>The pure part of \<open>ForceCollectXDR\<close>: from the stored cheque to the unsigned transaction.\<close>

definition buildForceCollect :: "'tx Service \<Rightarrow> string \<Rightarrow> string \<Rightarrow> Cheque \<Rightarrow> string res" where
  "buildForceCollect s chequeID receiver c =
     (let k = svc_sdk s in
      if ReceiverAddress c \<noteq> receiver then Inl errInvalidReceiver
      else if ChequeState c \<noteq> StateImzaliRezerve \<and> ChequeState c \<noteq> StateFonlaniyor then Inl errTerminalState
      else if PreauthEntryXDR c = [] then Inl errBadRequest
      else
      res_bind (map_err (Wrap ''cheque: decode stored preauth entry'')
        (b64_DecodeString (PreauthEntryXDR c))) (\<lambda>entryBytes.
      res_bind (case bigint_SetString (AmountRaw c) of
          None \<Rightarrow> Inl (Opaque (''cheque: corrupt amount_raw '' @ AmountRaw c))
        | Some n \<Rightarrow> Inr n) (\<lambda>amountRaw.
      res_bind (decodeULID k chequeID) (\<lambda>idBytes.
      res_bind (map_err chainUnavailable (GetAccount (chain s) receiver)) (\<lambda>receiverAccount.
      res_bind (scArgs [ScAddress k (SenderAddress c), ScBytes idBytes, ScAddress k (ReceiverAddress c),
                        ScAddress k (TokenContract c), ScI128 amountRaw, ScUint64 (unix_u64 (ExpiresAt c))]) (\<lambda>fcArgs.
      res_bind (InvokeContract k (EscrowContractID (cfg s)) receiver ''force_collect'' fcArgs) (\<lambda>op.
      res_bind (AttachAuthEntry k op entryBytes) (\<lambda>op.
      assemble s receiver (acc_Sequence receiverAccount) op))))))))"

definition ForceCollectXDR :: "'tx Service \<Rightarrow> string \<Rightarrow> string \<Rightarrow> pay_db \<Rightarrow> string res \<times> pay_db" where
  "ForceCollectXDR s chequeID receiver db =
     db_bind (getCheque s chequeID db) (\<lambda>c db1.
       case buildForceCollect s chequeID receiver c of
         Inl e \<Rightarrow> (Inl e, db1)
       | Inr xdrStr \<Rightarrow>
           (Inr xdrStr,
            snd (Transition chequeID (ChequeState c) StateZorlaTahsilDenendi ''user_action'' [] db1)))"

section \<open>Sync\<close>

record SyncView =
  sv_Cheques :: "Cheque list"
  sv_Pool :: PoolDeposit
  sv_TrustlineReady :: bool
  sv_Ledger :: i64
  sv_ServerTimeUnix :: int
  sv_NetworkPassphrase :: string

definition Sync :: "'tx Service \<Rightarrow> outside \<Rightarrow> string \<Rightarrow> pay_db \<Rightarrow> SyncView res \<times> pay_db" where
  "Sync s out address db =
     (if \<not> db_ready s then (Inl ErrDBNotReadyErr, db)
      else
      db_bind (ListActiveForAddress address db) (\<lambda>chqs db1.
      db_bind (GetPool address db1) (\<lambda>(pool, _) db2.
      db_bind (map_err chainUnavailable
        (GetTrustline (chain s) address (cfg_AssetCode (cfg s)) (cfg_AssetIssuer (cfg s))), db2) (\<lambda>trustline db2.
      db_bind (map_err chainUnavailable (GetLedger (chain s)), db2) (\<lambda>ledger db2.
      let (chqs, pool, db3) =
        (case GetAccount (chain s) address of
           Inl _ \<Rightarrow> (chqs, pool, db2)
         | Inr callerAccount \<Rightarrow>
             (let verified = map (\<lambda>c. if IsTerminal (ChequeState c) then c
                    else c\<lparr>ChainVerified := verifyChequeOnChain s c (acc_Sequence callerAccount)\<rparr>) chqs;
                  (pool', db') = reconcilePoolWithChain s address pool (acc_Sequence callerAccount) db2
              in (verified, pool', db')))
      in (Inr \<lparr>sv_Cheques = chqs, sv_Pool = pool, sv_TrustlineReady = tl_Exists trustline,
               sv_Ledger = ldg_Sequence ledger, sv_ServerTimeUnix = time_Unix (time_Now out),
               sv_NetworkPassphrase = NetworkPassphrase (cfg s)\<rparr>, db3))))))"

section \<open>Pool\<close>

text \<open>The account and trustline checks the deposit and the withdrawal have in common.\<close>

definition poolAccount :: "'tx Service \<Rightarrow> string \<Rightarrow> AccountInfo res" where
  "poolAccount s owner =
     res_bind (map_err chainUnavailable (GetAccount (chain s) owner)) (\<lambda>ownerAccount.
     if \<not> acc_Exists ownerAccount then Inl errAccountNotFunded
     else if cfg_AssetCode (cfg s) \<noteq> ''native'' \<and> owner \<noteq> cfg_AssetIssuer (cfg s)
     then res_bind (map_err chainUnavailable
            (GetTrustline (chain s) owner (cfg_AssetCode (cfg s)) (cfg_AssetIssuer (cfg s)))) (\<lambda>trustline.
          if \<not> tl_Exists trustline then Inl errSenderNoTrustline else Inr ownerAccount)
     else Inr ownerAccount)"

definition PoolDepositXDR :: "'tx Service \<Rightarrow> string \<Rightarrow> string \<Rightarrow> string res" where
  "PoolDepositXDR s owner amountStr =
     res_bind (parse_positive s amountStr) (\<lambda>amount.
     res_bind (poolAccount s owner) (\<lambda>ownerAccount.
     if owner \<noteq> cfg_AssetIssuer (cfg s) \<and>
        \<not> hasSufficientBalance ownerAccount (cfg_AssetCode (cfg s)) (cfg_AssetIssuer (cfg s))
            (Raw amount) (cfg_Decimals (cfg s))
     then Inl errInsufficientBalance
     else
     res_bind (scArgs [ScAddress (svc_sdk s) owner, ScAddress (svc_sdk s) (TokenContractID (cfg s)),
                       ScI128 (Raw amount)]) (\<lambda>depositArgs.
     res_bind (InvokeContract (svc_sdk s) (EscrowContractID (cfg s)) owner ''deposit'' depositArgs) (\<lambda>op.
     assemble s owner (acc_Sequence ownerAccount) op))))"

definition PoolWithdrawXDR :: "'tx Service \<Rightarrow> string \<Rightarrow> string \<Rightarrow> string res" where
  "PoolWithdrawXDR s owner amountStr =
     res_bind (parse_positive s amountStr) (\<lambda>amount.
     res_bind (poolAccount s owner) (\<lambda>ownerAccount.
     if \<not> hasNativeFeeHeadroom ownerAccount then Inl errInsufficientFee
     else if (case chainPoolRecord s owner (acc_Sequence ownerAccount) of
                None \<Rightarrow> False
              | Some None \<Rightarrow> True
              | Some (Some rec) \<Rightarrow> p_Amount rec < Raw amount)
     then Inl errInsufficientBalance
     else
     res_bind (scArgs [ScAddress (svc_sdk s) owner, ScI128 (Raw amount)]) (\<lambda>withdrawArgs.
     res_bind (InvokeContract (svc_sdk s) (EscrowContractID (cfg s)) owner ''withdraw'' withdrawArgs) (\<lambda>op.
     assemble s owner (acc_Sequence ownerAccount) op))))"

definition ConfirmPoolDeposit :: "'tx Service \<Rightarrow> string \<Rightarrow> string \<Rightarrow> i64 \<Rightarrow> pay_db \<Rightarrow> unit res \<times> pay_db" where
  "ConfirmPoolDeposit s owner amountStr ledgerSeq db =
     (if \<not> db_ready s then (Inl ErrDBNotReadyErr, db)
      else (case parse_positive s amountStr of
              Inl e \<Rightarrow> (Inl e, db)
            | Inr amount \<Rightarrow>
                RecordDeposit owner (bigint_String (Raw amount)) (cfg_Decimals (cfg s)) ledgerSeq db))"

definition ConfirmPoolWithdraw :: "'tx Service \<Rightarrow> string \<Rightarrow> string \<Rightarrow> pay_db \<Rightarrow> unit res \<times> pay_db" where
  "ConfirmPoolWithdraw s owner amountStr db =
     (if \<not> db_ready s then (Inl ErrDBNotReadyErr, db)
      else (case parse_positive s amountStr of
              Inl e \<Rightarrow> (Inl e, db)
            | Inr amount \<Rightarrow>
                (let raw = bigint_String (Raw amount) in
                 case RecordWithdraw owner raw db of
                   (Inl e, db1) \<Rightarrow>
                     if errors_Is e ErrNotFoundInRepo
                     then (Inr (), audit owner ''pool.withdraw_confirm_cache_miss'' [(''amount'', raw)] db1)
                     else (Inl e, db1)
                 | (Inr _, db1) \<Rightarrow> (Inr (), audit owner ''pool.withdrawn'' [(''amount'', raw)] db1))))"

end
