(* ===== verification/ChequeProps.thy ===== *)
theory ChequeProps
  imports ChequeService
begin

text \<open>
  What the cheque service guarantees: every operation is a run of the cheque database of
  theory ChequeLedger (so its invariants hold under any interleaving of calls), who may change
  what, what a created cheque looks like, that the pre-signed authorization covers exactly the
  \<open>force_collect\<close> call that is built later, how \<open>ClaimXDR\<close> and \<open>Sync\<close> repair the database from
  the chain, and the pool cache.
\<close>

section \<open>Service calls are runs of the database\<close>

definition runs :: "'a \<times> pay_db \<Rightarrow> pay_db \<Rightarrow> bool" where
  "runs rd db \<longleftrightarrow> repo_step\<^sup>*\<^sup>* db (snd rd)"

named_theorems runs_intros \<open>operations that are runs of the database\<close>

lemma runs_return [runs_intros]: "runs (r, db) db"
  by (simp add: runs_def)

lemma runs_trans: "runs rd db \<Longrightarrow> runs rd' (snd rd) \<Longrightarrow> runs rd' db"
  unfolding runs_def by (rule rtranclp_trans)

lemma runs_case [runs_intros]:
  assumes "runs rd db" and "\<And>e d. runs (f e d) d" and "\<And>x d. runs (g x d) d"
  shows "runs (case rd of (Inl e, d) \<Rightarrow> f e d | (Inr x, d) \<Rightarrow> g x d) db"
  by (rule runs_trans [OF assms(1)]) (use assms(2,3) in \<open>auto split: prod.splits sum.splits\<close>)

lemma runs_bind [runs_intros]:
  assumes "runs rd db" and "\<And>x d. runs (f x d) d"
  shows "runs (db_bind rd f) db"
  unfolding db_bind_def by (intro runs_case assms runs_return)

lemma runs_if [runs_intros]: "(c \<Longrightarrow> runs a db) \<Longrightarrow> (\<not> c \<Longrightarrow> runs b db) \<Longrightarrow> runs (if c then a else b) db"
  by simp

lemma runs_res [runs_intros]:
  "(\<And>e. runs (f e) db) \<Longrightarrow> (\<And>x. runs (g x) db) \<Longrightarrow> runs (case r of Inl e \<Rightarrow> f e | Inr x \<Rightarrow> g x) db"
  by (cases r) simp_all

lemma runs_GetCheque [runs_intros]: "runs (GetCheque x db) db"
  using GetCheque_cases(1) [of x db] by (cases "GetCheque x db") (auto simp: runs_def intro: same_tables_step)

lemma runs_Transition [runs_intros]: "(f, t) \<in> set edges \<Longrightarrow> runs (Transition x f t cs h db) db"
  using Transition_steps [of x f t cs h db] by (cases "Transition x f t cs h db") (simp add: runs_def)

lemma runs_tolerate [runs_intros]: "runs rd db \<Longrightarrow> runs (tolerate rd) db"
  unfolding tolerate_def by (intro runs_case runs_if runs_return)

lemma runs_Create [runs_intros]:
  "ChequeState c = StateImzaliRezerve \<Longrightarrow> runs (CreateReservedCheque c db) db"
  using CreateReservedCheque_steps [of c db] by (cases "CreateReservedCheque c db") (simp add: runs_def)

lemma runs_SetPreauthEntry [runs_intros]: "runs (SetPreauthEntry x e db) db"
  using SetPreauthEntry_steps [of x e db] by (cases "SetPreauthEntry x e db") (simp add: runs_def)

lemma runs_SetLockTxHash [runs_intros]: "runs (SetLockTxHash x e db) db"
  using SetLockTxHash_steps [of x e db] by (cases "SetLockTxHash x e db") (simp add: runs_def)

lemma runs_audit [runs_intros]: "runs (r, audit a b c db) db"
  using InsertAudit_steps [of a b c db] by (cases "InsertAudit a b c db") (simp add: runs_def audit_def)

lemma runs_RecordDeposit [runs_intros]: "runs (RecordDeposit a b c d db) db"
  using RecordDeposit_steps [of a b c d db] by (cases "RecordDeposit a b c d db") (simp add: runs_def)

lemma runs_RecordWithdraw [runs_intros]: "runs (RecordWithdraw a b db) db"
  using RecordWithdraw_steps [of a b db] by (cases "RecordWithdraw a b db") (simp add: runs_def)

lemma runs_SetPoolAmount [runs_intros]: "runs (SetPoolAmount a b c db) db"
  using SetPoolAmount_steps [of a b c db] by (cases "SetPoolAmount a b c db") (simp add: runs_def)

lemma runs_read:
  assumes "exec (\<lambda>db. Inr (g db, db)) db = (r, db')"
  shows "runs (x, db') db"
  using exec_read_same(1) [OF assms] by (auto simp: runs_def intro: same_tables_step)

lemma runs_ListActive [runs_intros]: "runs (ListActiveForAddress a db) db"
  unfolding ListActiveForAddress_def
  by (auto split: prod.splits sum.splits intro: runs_read)

lemma runs_ExpiredFunded [runs_intros]: "runs (ExpiredFundedChequesRepo t db) db"
  unfolding ExpiredFundedChequesRepo_def
  by (auto split: prod.splits sum.splits intro: runs_read)

lemma runs_GetPool [runs_intros]: "runs (GetPool a db) db"
  unfolding GetPool_def
  by (auto split: prod.splits sum.splits option.splits intro: runs_read)

lemma runs_getCheque [runs_intros]: "runs (getCheque s x db) db"
  using runs_GetCheque [of x db]
  by (cases "GetCheque x db") (auto simp: getCheque_def runs_def)

text \<open>One call of the service, with whatever the world outside supplies.\<close>

inductive svc_call :: "'tx Service \<Rightarrow> pay_db \<Rightarrow> pay_db \<Rightarrow> bool" for s :: "'tx Service" where
  call_create: "svc_call s db (snd (CreateCheque s out sender receiver amount req db))"
| call_preauth: "svc_call s db (snd (StorePreauth s x caller e db))"
| call_confirm_lock: "svc_call s db (snd (ConfirmLock s x caller h db))"
| call_claim: "svc_call s db (snd (ClaimXDR s out x caller db))"
| call_confirm_claim: "svc_call s db (snd (ConfirmClaim s x caller h db))"
| call_ack: "svc_call s db (snd (AcknowledgeReceipt s x caller db))"
| call_force_collect: "svc_call s db (snd (ForceCollectXDR s x caller db))"
| call_confirm_force_collect: "svc_call s db (snd (ConfirmForceCollect s x caller h collected db))"
| call_expired: "svc_call s db (snd (ExpiredFundedCheques s out db))"
| call_mark_refunded: "svc_call s db (snd (MarkRefunded s x h db))"
| call_sync: "svc_call s db (snd (Sync s out address db))"
| call_confirm_deposit: "svc_call s db (snd (ConfirmPoolDeposit s owner a l db))"
| call_confirm_withdraw: "svc_call s db (snd (ConfirmPoolWithdraw s owner a db))"

lemma edges_mem [simp]:
  "(StateImzaliRezerve, StateHavuzda) \<in> set edges" "(StateHavuzda, StateTalepEdildi) \<in> set edges"
  "(StateTalepEdildi, StateOnaylandi) \<in> set edges" "(StateOnaylandi, StateKapandi) \<in> set edges"
  "(StateZorlaTahsilDenendi, StateKapandi) \<in> set edges" "(StateZorlaTahsilDenendi, StateKarsiliksiz) \<in> set edges"
  "(StateHavuzda, StateIadeEdilebilir) \<in> set edges" "(StateIadeEdilebilir, StateIadeEdildi) \<in> set edges"
  "st = StateImzaliRezerve \<or> st = StateFonlaniyor \<Longrightarrow> (st, StateHavuzda) \<in> set edges"
  "st = StateImzaliRezerve \<or> st = StateFonlaniyor \<Longrightarrow> (st, StateTalepEdildi) \<in> set edges"
  "st = StateImzaliRezerve \<or> st = StateFonlaniyor \<Longrightarrow> (st, StateZorlaTahsilDenendi) \<in> set edges"
  by (auto simp: edges_def)

lemma runs_pair: "(\<And>a b. runs (f a b) db) \<Longrightarrow> runs (case p of (a, b) \<Rightarrow> f a b) db"
  by (cases p) simp

lemma runs_CreateCheque: "runs (CreateCheque s out sender receiver amount req db) db"
proof (cases "createChecks s sender receiver amount req")
  case (Inr p)
  show ?thesis
    unfolding CreateCheque_def Let_def Inr sum.case
    by (rule runs_pair, rule runs_case, rule runs_Create, simp add: newCheque_def, rule runs_return,
        rule runs_res, rule runs_return, (rule runs_pair)+, rule runs_audit)
qed (simp add: CreateCheque_def runs_return)

lemma runs_ClaimXDR: "runs (ClaimXDR s out x caller db) db"
  unfolding ClaimXDR_def Let_def
  by (intro runs_intros; (split option.split)?; (split option.split)?; auto intro!: runs_intros)

lemma runs_reconcile: "runs (reconcilePoolWithChain s owner pool q db) db"
  using runs_SetPoolAmount unfolding reconcilePoolWithChain_def Let_def
  by (auto simp: runs_def split: option.split prod.split sum.split) (metis snd_conv)+

lemma runs_Sync: "runs (Sync s out a db) db"
proof -
  have "runs (let (chqs, pool, db3) = (case GetAccount (chain s) a of
           Inl _ \<Rightarrow> (chqs, pool, d) | Inr acc \<Rightarrow>
             (let verified = f acc; (pool', db') = reconcilePoolWithChain s a pool (acc_Sequence acc) d
              in (verified, pool', db'))) in (g chqs pool, db3)) d" for chqs pool d f g
    using runs_reconcile [of s a pool _ d]
    by (auto simp: runs_def Let_def split: sum.split prod.split) (metis snd_conv)
  then show ?thesis
    unfolding Sync_def by (intro runs_intros) (auto intro!: runs_intros)
qed

lemma runs_simple [runs_intros]:
  "runs (StorePreauth s x caller e db) db" "runs (ConfirmLock s x caller h db) db"
  "runs (ConfirmClaim s x caller h db) db" "runs (AcknowledgeReceipt s x caller db) db"
  "runs (ConfirmForceCollect s x caller h collected db) db" "runs (ExpiredFundedCheques s out db) db"
  "runs (MarkRefunded s x h db) db" "runs (ConfirmPoolDeposit s owner a l db) db"
  "runs (ConfirmPoolWithdraw s owner a db) db"
  unfolding StorePreauth_def ConfirmLock_def ConfirmClaim_def AcknowledgeReceipt_def
    ConfirmForceCollect_def ExpiredFundedCheques_def MarkRefunded_def ConfirmPoolDeposit_def
    ConfirmPoolWithdraw_def Let_def
  by (intro runs_intros; simp)+

lemma runs_ForceCollectXDR: "runs (ForceCollectXDR s x caller db) db"
proof -
  have "runs (case buildForceCollect s x caller c of Inl e \<Rightarrow> (Inl e, d) | Inr y \<Rightarrow>
          (Inr y, snd (Transition x (ChequeState c) StateZorlaTahsilDenendi ''user_action'' [] d))) d" for c d
  proof (cases "buildForceCollect s x caller c")
    case (Inr y)
    then have "ChequeState c = StateImzaliRezerve \<or> ChequeState c = StateFonlaniyor"
      by (auto simp: buildForceCollect_def Let_def split: if_splits)
    then have "runs (Transition x (ChequeState c) StateZorlaTahsilDenendi ''user_action'' [] d) d"
      by (intro runs_Transition edges_mem)
    with Inr show ?thesis by (simp add: runs_def)
  qed (simp add: runs_return)
  then show ?thesis unfolding ForceCollectXDR_def by (intro runs_bind runs_getCheque)
qed

lemmas service_runs = runs_CreateCheque runs_ClaimXDR runs_Sync runs_ForceCollectXDR runs_simple

lemma svc_call_steps: "svc_call s db db' \<Longrightarrow> repo_step\<^sup>*\<^sup>* db db'"
  by (erule svc_call.cases) (simp_all only: service_runs [unfolded runs_def])

section \<open>Reading and auditing leave the cheques alone\<close>

lemma db_bind_cases:
  assumes "db_bind rd f = (r, d')"
  obtains (err) e where "rd = (Inl e, d')" "r = Inl e" | (ok) x d where "rd = (Inr x, d)" "f x d = (r, d')"
  using assms by (auto simp: db_bind_def split: prod.splits sum.splits)

lemma getCheque_same: "getCheque s x db = (r, d) \<Longrightarrow> same_tables db d"
  by (auto simp: getCheque_def split: if_splits prod.splits dest: GetCheque_cases(1))

lemma getCheque_Inr:
  assumes "getCheque s x db = (Inr c, d)"
  shows "\<exists>row. find (\<lambda>r. row_id r = x) (cheques db) = Some row \<and> c = scan_cheque row"
proof -
  obtain r where r: "GetCheque x db = (r, d)" "map_err mapRepoErr r = Inr c"
    using assms by (auto simp: getCheque_def split: if_splits prod.splits)
  then have "r = Inr c" by (auto simp: map_err_def split: sum.splits)
  with r(1) show ?thesis by (blast dest: GetCheque_cases(2))
qed

lemma audit_keeps [simp]:
  "cheques (audit a b c db) = cheques db" "reservations (audit a b c db) = reservations db"
  "cheque_transitions (audit a b c db) = cheque_transitions db"
  "pool_deposits (audit a b c db) = pool_deposits db" "db_clock (audit a b c db) = db_clock db"
proof -
  let ?a = "\<lparr>actor = a, action = b, details = c\<rparr>"
  obtain u d where e: "exec (\<lambda>db. Inr ((), db\<lparr>audit_log := audit_log db @ [?a]\<rparr>)) db = (u, d)"
    by fastforce
  have d: "audit a b c db = d" by (cases u) (simp_all add: audit_def InsertAudit_def e)
  from exec_pure_cases [OF pure_audit e]
  have "same_tables db d \<or> same_tables (db\<lparr>audit_log := audit_log db @ [?a]\<rparr>) d"
    by auto
  then show "cheques (audit a b c db) = cheques db" "reservations (audit a b c db) = reservations db"
  "cheque_transitions (audit a b c db) = cheque_transitions db"
  "pool_deposits (audit a b c db) = pool_deposits db" "db_clock (audit a b c db) = db_clock db"
    unfolding d by (auto dest: same_tables_proj)
qed

section \<open>Creating a cheque\<close>

lemma createChecks_Inr:
  assumes "createChecks s sender receiver amountStr requestID = Inr (amount, acc)"
  shows "sender \<noteq> receiver" and "validRequestID requestID" and "IsValidAccountAddress (svc_sdk s) receiver"
    and "ParseAmount amountStr (service_asset s) (cfg_Decimals (cfg s)) = Inr amount" and "0 < Raw amount"
    and "\<exists>t. GetTrustline (chain s) receiver (cfg_AssetCode (cfg s)) (cfg_AssetIssuer (cfg s)) = Inr t \<and> tl_Exists t"
    and "GetAccount (chain s) sender = Inr acc"
    and "hasSufficientBalance acc (cfg_AssetCode (cfg s)) (cfg_AssetIssuer (cfg s)) (Raw amount) (cfg_Decimals (cfg s))"
    and "db_ready s"
  using assms
  by (auto simp: createChecks_def parse_positive_def res_bind_Inr map_err_def
      split: if_splits sum.splits)

text \<open>The row a created cheque becomes, and its companions.\<close>

definition created_row :: "Cheque \<Rightarrow> int \<Rightarrow> time \<Rightarrow> cheque_row" where
  "created_row c amt now =
     \<lparr>row_id = ID c, sender_address = SenderAddress c, receiver_address = ReceiverAddress c,
      token_contract = TokenContract c, amount_raw = amt, decimals = ChequeDecimals c,
      state = ChequeState c, expires_at = pg_timestamp (ExpiresAt c), lock_tx_hash = None,
      preauth_entry_xdr = None, created_at = now, updated_at = now,
      request_id = nullif_empty (RequestID c)\<rparr>"

lemma create_stmts_tables:
  assumes "create_stmts c db = Inr ((), d)" and "bigint_SetString (AmountRaw c) = Some amt"
  shows "cheques d = cheques db @ [created_row c amt (db_clock db)]"
    and "reservations d = reservations db @ [\<lparr>rs_cheque_id = ID c, account = SenderAddress c,
           rs_amount_raw = amt, rs_state = Active\<rparr>]"
    and "log_of (cheque_transitions d) (ID c) =
           log_of (cheque_transitions db) (ID c) @ [(StateTaslak, StateImzaliRezerve)]"
    and "SenderAddress c \<notin> set (active_accounts (reservations db))"
    and "ID c \<notin> row_id ` set (cheques db)"
proof -
  from assms(1) obtain d1 d2 where
      d1: "insert_cheque c db = Inr ((), d1)"
    and d2: "insert_reservation (ID c) (SenderAddress c) (AmountRaw c) d1 = Inr ((), d2)"
    and d3: "insert_transition (ID c) StateTaslak StateImzaliRezerve ''user_action'' [] d2 = Inr ((), d)"
    by (rule create_stmts_Inr)
  have 1: "d1 = db\<lparr>cheques := cheques db @ [created_row c amt (db_clock db)]\<rparr>" "ID c \<notin> row_id ` set (cheques db)"
    using d1 assms(2) by (auto simp: insert_cheque_def created_row_def Let_def list_ex_iff split: if_splits)
  have 2: "d2 = d1\<lparr>reservations := reservations d1 @ [\<lparr>rs_cheque_id = ID c, account = SenderAddress c,
           rs_amount_raw = amt, rs_state = Active\<rparr>]\<rparr>"
    using d2 assms(2) by (auto simp: insert_reservation_def split: if_splits)
  note 3 = insert_transition_Inr(1) [OF d3]
  show "cheques d = cheques db @ [created_row c amt (db_clock db)]"
    "reservations d = reservations db @ [\<lparr>rs_cheque_id = ID c, account = SenderAddress c,
           rs_amount_raw = amt, rs_state = Active\<rparr>]"
    "log_of (cheque_transitions d) (ID c) =
           log_of (cheque_transitions db) (ID c) @ [(StateTaslak, StateImzaliRezerve)]"
    "ID c \<notin> row_id ` set (cheques db)"
    using 1 2 3 by (simp_all add: log_of_def)
  show "SenderAddress c \<notin> set (active_accounts (reservations db))"
    using insert_reservation_keeps(2) [OF d2] 1 by simp
qed

lemma CreateReservedCheque_Inr:
  assumes "CreateReservedCheque c db = (Inr (), db')"
  obtains d where "create_stmts c db = Inr ((), d)" and "same_tables d db'"
  using CreateReservedCheque_cases [OF assms] by auto

lemma newCheque_simps [simp]:
  "ChequeState (newCheque s out a b req amount t) = StateImzaliRezerve"
  "SenderAddress (newCheque s out a b req amount t) = a"
  "ReceiverAddress (newCheque s out a b req amount t) = b"
  "ID (newCheque s out a b req amount t) = ulid_String (svc_sdk s) (ulid_Make out)"
  "AmountRaw (newCheque s out a b req amount t) = bigint_String (Raw amount)"
  "TokenContract (newCheque s out a b req amount t) = TokenContractID (cfg s)"
  "RequestID (newCheque s out a b req amount t) = req"
  "ExpiresAt (newCheque s out a b req amount t) = t"
  "ChequeDecimals (newCheque s out a b req amount t) = cfg_Decimals (cfg s)"
  by (simp_all add: newCheque_def)

lemma CreateCheque_Inr:
  assumes "CreateCheque s out sender receiver amountStr requestID db = (Inr res, db')"
  obtains amount acc d lockXDR entryXDR payloadHash where
    "createChecks s sender receiver amountStr requestID = Inr (amount, acc)"
    and "create_stmts (newCheque s out sender receiver requestID amount (time_Now out + chequeValidity)) db = Inr ((), d)"
    and "cheques db' = cheques d" "reservations db' = reservations d" "cheque_transitions db' = cheque_transitions d"
    and "createArtifacts s out sender receiver amount (acc_Sequence acc) (time_Now out + chequeValidity)
           = Inr (lockXDR, entryXDR, payloadHash)"
    and "res = \<lparr>res_ChequeID = ulid_String (svc_sdk s) (ulid_Make out), res_LockXDR = lockXDR,
                 res_PreauthEntryXDR = b64_EncodeToString entryXDR,
                 res_PreauthPayloadHash = b64_EncodeToString payloadHash,
                 res_ExpiresAt = time_Now out + chequeValidity\<rparr>"
proof -
  obtain amount acc where ck: "createChecks s sender receiver amountStr requestID = Inr (amount, acc)"
    using assms by (auto simp: CreateCheque_def split: sum.splits)
  let ?c = "newCheque s out sender receiver requestID amount (time_Now out + chequeValidity)"
  obtain r db1 where cr: "CreateReservedCheque ?c db = (r, db1)" by fastforce
  obtain lockXDR entryXDR payloadHash where ar:
      "createArtifacts s out sender receiver amount (acc_Sequence acc) (time_Now out + chequeValidity)
         = Inr (lockXDR, entryXDR, payloadHash)"
    and r: "r = Inr ()"
    using assms by (auto simp: CreateCheque_def ck cr Let_def split: sum.splits)
  then have res: "res = \<lparr>res_ChequeID = ID ?c, res_LockXDR = lockXDR,
                 res_PreauthEntryXDR = b64_EncodeToString entryXDR,
                 res_PreauthPayloadHash = b64_EncodeToString payloadHash,
                 res_ExpiresAt = time_Now out + chequeValidity\<rparr>"
    and db': "\<exists>x y z. db' = audit x y z db1"
    using assms by (auto simp: CreateCheque_def ck cr Let_def)
  obtain d where d: "create_stmts ?c db = Inr ((), d)" "same_tables d db1"
    using CreateReservedCheque_Inr cr r by blast
  show thesis
    using that [OF ck d(1) _ _ _ ar] res db' same_tables_proj [OF d(2)] by auto
qed

section \<open>A concrete service\<close>

definition ex_config :: Config where
  "ex_config = \<lparr>EscrowContractID = CHR ''C'' # replicate 31 CHR ''E'',
     TokenContractID = CHR ''C'' # replicate 31 CHR ''T'', cfg_AssetCode = ''USDC'', cfg_AssetIssuer = ''GI'',
     cfg_Decimals = 0, NetworkPassphrase = ''testnet''\<rparr>"

definition ex_account :: AccountInfo where
  "ex_account = \<lparr>acc_Address = ''GA'', acc_Sequence = 41,
     acc_Balances = [\<lparr>AssetCode = ''USDC'', AssetIssuer = ''GI'', bal_Balance = ''100'', bal_Limit = []\<rparr>,
                     \<lparr>AssetCode = ''native'', AssetIssuer = [], bal_Balance = ''5.0000000'', bal_Limit = []\<rparr>],
     acc_Exists = True\<rparr>"

definition ex_gateway :: ChainGateway where
  "ex_gateway = \<lparr>GetAccount = (\<lambda>a. Inr ex_account),
     GetTrustline = (\<lambda>a c i. Inr \<lparr>tl_Exists = True, tl_Balance = [], tl_Limit = []\<rparr>),
     GetLedger = Inr \<lparr>ldg_Sequence = 1000, ldg_CloseTime = 0\<rparr>,
     SimulateTransaction = (\<lambda>x. Inr \<lparr>sr_Success = True, sr_Error = [], sr_TransactionDataXDR = ''d'',
        sr_MinResourceFee = 0, sr_ResultXDR = ''r'', sr_AuthXDR = []\<rparr>),
     SubmitClassic = (\<lambda>x. Inr \<lparr>sub_Hash = ''h'', sub_Successful = True, sub_ResultCode = [], sub_LedgerSeq = 7\<rparr>),
     SubmitSoroban = (\<lambda>x. Inr \<lparr>sub_Hash = ''h'', sub_Successful = True, sub_ResultCode = [], sub_LedgerSeq = 7\<rparr>),
     Fund = (\<lambda>a. Inr ())\<rparr>"

definition ex_service :: "ScVal \<Rightarrow> string Service" where
  "ex_service result = \<lparr>cfg = ex_config, db_ready = True, pool_ready = True, chain = ex_gateway,
     svc_sdk = ex_sdk ex_entry result\<rparr>"

definition ex_outside :: outside where
  "ex_outside = \<lparr>time_Now = 1000000000, ulid_Make = replicate 16 48, rand_Read = Inr (replicate 8 1)\<rparr>"

definition ex_create :: "CreateChequeResult res \<times> pay_db" where
  "ex_create = CreateCheque (ex_service ScvVoid) ex_outside ''GA'' ''GB'' ''25'' ''req-1'' ex_db0"

definition ex_amount :: Amount where
  "ex_amount = \<lparr>Raw = 25, Decimals = 0, Asset = service_asset (ex_service ScvVoid)\<rparr>"

lemma ex_create_checks:
  "createChecks (ex_service ScvVoid) ''GA'' ''GB'' ''25'' ''req-1'' = Inr (ex_amount, ex_account)"
  by code_simp

lemma ex_create_ok: "\<exists>res. ex_create = (Inr res, snd ex_create)"
proof -
  let ?t = "time_Now ex_outside + chequeValidity"
  have "fst (CreateReservedCheque (newCheque (ex_service ScvVoid) ex_outside ''GA'' ''GB'' ''req-1'' ex_amount ?t)
          ex_db0) = Inr ()" by code_simp
  moreover have "(case createArtifacts (ex_service ScvVoid) ex_outside ''GA'' ''GB'' ex_amount
          (acc_Sequence ex_account) ?t of Inl _ \<Rightarrow> False | _ \<Rightarrow> True)" by code_simp
  ultimately have "\<exists>res. fst ex_create = Inr res"
    unfolding ex_create_def CreateCheque_def ex_create_checks Let_def
    by (auto split: sum.splits prod.splits)
  then show ?thesis by (metis prod.collapse)
qed

section \<open>The pre-signed authorization\<close>

text \<open>The call in a force-collect transaction that is handed out is the one its row determines.\<close>

lemma buildForceCollect_op:
  assumes "buildForceCollect (s\<lparr>chain := g\<rparr>) chequeID receiver c = Inr x" and "bigint_SetString (AmountRaw c) = Some amt"
    and "decodeULID (svc_sdk s) chequeID = Inr idBytes"
    and "scArgs [ScAddress (svc_sdk s) (SenderAddress c), ScBytes idBytes, ScAddress (svc_sdk s) (ReceiverAddress c),
            ScAddress (svc_sdk s) (TokenContract c), ScI128 amt, ScUint64 (unix_u64 (ExpiresAt c))] = Inr args"
    and "InvokeContract (svc_sdk s) (EscrowContractID (cfg s)) receiver ''force_collect'' args = Inr op"
  shows "\<exists>acc stored op'. GetAccount g receiver = Inr acc \<and> b64_DecodeString (PreauthEntryXDR c) = Inr stored \<and>
    AttachAuthEntry (svc_sdk s) op stored = Inr op' \<and> assemble (s\<lparr>chain := g\<rparr>) receiver (acc_Sequence acc) op' = Inr x"
  using assms unfolding buildForceCollect_def
  by (auto simp: res_bind_Inr map_err_def Let_def simp del: scArgs.simps split: if_splits sum.splits option.splits)

lemma BuildForceCollectAuthEntry_Inr:
  assumes "BuildForceCollectAuthEntry k np escrow sender receiver token amount chequeID expires ledger nonce =
             Inr (entryBytes, payloadHash)"
  shows "\<exists>args op entry.
    scArgs [ScAddress k sender, ScBytes chequeID, ScAddress k receiver, ScAddress k token,
            ScI128 amount, ScUint64 expires] = Inr args \<and>
    InvokeContract k escrow receiver ''force_collect'' args = Inr op \<and>
    RootInvocation entry = AuthorizedInvocation (HostFunction op) [] \<and>
    (\<exists>addr. ScAddress k sender = Inr (ScvAddress addr) \<and>
       Credentials entry = CredentialsAddress \<lparr>cred_Address = addr, cred_Nonce = nonce,
         cred_SignatureExpirationLedger = ledger, cred_Signature = ScvVoid\<rparr>) \<and>
    xdr_MarshalAuthEntry k entry = Inr entryBytes"
proof -
  obtain decoded where dec: "strkey_DecodeContract k escrow = Inr decoded"
    using assms unfolding BuildForceCollectAuthEntry_def
    by (cases "strkey_DecodeContract k escrow") (simp_all add: res_bind_Inr)
  obtain senderSc receiverSc tokenSc amountSc idSc expSc where
    v: "ScAddress k sender = Inr senderSc" "ScAddress k receiver = Inr receiverSc"
       "ScAddress k token = Inr tokenSc" "ScI128 amount = Inr amountSc" "ScBytes chequeID = Inr idSc"
       "ScUint64 expires = Inr expSc"
    using assms unfolding BuildForceCollectAuthEntry_def res_bind_Inr by blast
  obtain addr where addr: "senderSc = ScvAddress addr" using ScAddress_shape [OF v(1)] by blast
  let ?args = "[senderSc, idSc, receiverSc, tokenSc, amountSc, expSc]"
  let ?call = "\<lparr>ContractAddress = ScAddressContract (copy32 decoded), FunctionName = ''force_collect'', Args = ?args\<rparr>"
  let ?entry = "\<lparr>Credentials = CredentialsAddress \<lparr>cred_Address = addr, cred_Nonce = nonce,
         cred_SignatureExpirationLedger = ledger, cred_Signature = ScvVoid\<rparr>,
       RootInvocation = AuthorizedInvocation ?call []\<rparr>"
  have "xdr_MarshalAuthEntry k ?entry = Inr entryBytes"
    using assms unfolding BuildForceCollectAuthEntry_def
    by (simp add: v addr dec res_bind_Inr Let_def) blast
  moreover have "scArgs [ScAddress k sender, ScBytes chequeID, ScAddress k receiver, ScAddress k token,
            ScI128 amount, ScUint64 expires] = Inr ?args" by (simp add: v)
  moreover have "InvokeContract k escrow receiver ''force_collect'' ?args = Inr
      \<lparr>HostFunction = ?call, op_SourceAccount = receiver, op_Auth = [], op_Ext = None\<rparr>"
    by (simp add: InvokeContract_def dec)
  ultimately show ?thesis
    using v(1) addr by (intro exI [of _ ?args] exI [of _ ?entry] exI conjI) (assumption | simp)+
qed

lemma createArtifacts_entry:
  assumes "createArtifacts s out sender receiver amount q t = Inr (lockXDR, entryXDR, payloadHash)"
  shows "\<exists>ledger nonce. BuildForceCollectAuthEntry (svc_sdk s) (NetworkPassphrase (cfg s))
           (EscrowContractID (cfg s)) sender receiver (TokenContractID (cfg s)) (Raw amount)
           (ulid_Make out) (unix_u64 t) ledger nonce = Inr (entryXDR, payloadHash)"
  using assms by (auto simp: createArtifacts_def Let_def res_bind_Inr map_err_def split: sum.splits)

text \<open>The row a cheque has later in a run, found by its id.\<close>

lemma later_row:
  assumes "ledger_inv db" and "repo_step\<^sup>*\<^sup>* db db'" and "r \<in> set (cheques db)"
    and "find (\<lambda>q. row_id q = row_id r) (cheques db') = Some r'"
  shows "cheque_terms r' = cheque_terms r" and "(state r, state r') \<in> (set edges)\<^sup>*"
proof -
  obtain q where q: "q \<in> set (cheques db')" "row_id q = row_id r" "cheque_terms q = cheque_terms r"
      "(state r, state q) \<in> (set edges)\<^sup>*"
    using advance.rel_steps [OF assms(1,2)] assms(3) unfolding rows_advance_def by blast
  have "distinct (map row_id (cheques db'))"
    using ledger.inv_steps [OF assms(1,2)] by (simp add: ledger_inv_def cheques_inv_def)
  from find_distinct [OF this q(1)] q(2) assms(4) have "r' = q" by simp
  with q show "cheque_terms r' = cheque_terms r" "(state r, state r') \<in> (set edges)\<^sup>*" by simp_all
qed

section \<open>Refusals\<close>

lemma reserved_ids: "list_all2 reserved cs rs \<Longrightarrow> map rs_cheque_id rs = map row_id cs"
  by (induction rule: list_all2_induct) (simp_all add: reserved_def)

text \<open>A cheque whose columns fit the table and whose id is new.\<close>

definition fits :: "Cheque \<Rightarrow> int \<Rightarrow> pay_db \<Rightarrow> bool" where
  "fits c amt db \<longleftrightarrow> bigint_SetString (AmountRaw c) = Some amt \<and> 0 < amt \<and> numeric_40_0 amt \<and>
     length (ID c) \<le> 26 \<and> length (SenderAddress c) \<le> 56 \<and> length (ReceiverAddress c) \<le> 56 \<and>
     length (TokenContract c) \<le> 56 \<and> SenderAddress c \<noteq> ReceiverAddress c \<and>
     ID c \<notin> row_id ` set (cheques db)"

definition request_used :: "string \<Rightarrow> string \<Rightarrow> pay_db \<Rightarrow> bool" where
  "request_used receiver req db \<longleftrightarrow> req \<noteq> [] \<and>
     (\<exists>r \<in> set (cheques db). receiver_address r = receiver \<and> request_id r = Some req)"

definition has_open :: "string \<Rightarrow> pay_db \<Rightarrow> bool" where
  "has_open sender db \<longleftrightarrow> (\<exists>r \<in> set (cheques db). sender_address r = sender \<and> \<not> IsTerminal (state r))"

lemma has_open_active: "ledger_inv db \<Longrightarrow> has_open sender db \<longleftrightarrow> sender \<in> set (active_accounts (reservations db))"
  using active_accounts_open [of "cheques db" "reservations db"]
  by (auto simp: has_open_def ledger_inv_def reservations_inv_def)

lemma insert_cheque_fits:
  assumes "fits c amt db"
  shows "insert_cheque c db =
    (if request_used (ReceiverAddress c) (RequestID c) db
     then Inl (PgError ''23505'' ''uq_cheques_receiver_request'')
     else Inr ((), db\<lparr>cheques := cheques db @ [created_row c amt (db_clock db)]\<rparr>))"
proof -
  have "\<not> list_ex (\<lambda>r. row_id r = ID c) (cheques db)"
    using assms by (simp add: fits_def list_ex_key)
  moreover have "(nullif_empty (RequestID c) \<noteq> None \<and>
      list_ex (\<lambda>r. receiver_address r = ReceiverAddress c \<and> request_id r = nullif_empty (RequestID c)) (cheques db))
      = request_used (ReceiverAddress c) (RequestID c) db"
    by (auto simp: request_used_def nullif_empty_def list_ex_iff)
  ultimately show ?thesis
    using assms by (simp add: insert_cheque_def fits_def Let_def created_row_def)
qed

lemma insert_rest_fits:
  assumes "fits c amt db" and "ledger_inv db"
  defines "d1 \<equiv> db\<lparr>cheques := cheques db @ [created_row c amt (db_clock db)]\<rparr>"
  shows "insert_reservation (ID c) (SenderAddress c) (AmountRaw c) d1 =
    (if has_open (SenderAddress c) db then Inl (PgError ''23505'' ''uq_reservations_active_account'')
     else Inr ((), d1\<lparr>reservations := reservations db @ [\<lparr>rs_cheque_id = ID c, account = SenderAddress c,
            rs_amount_raw = amt, rs_state = Active\<rparr>]\<rparr>))"
    and "cheque_transitions d2 = cheque_transitions db \<Longrightarrow> cheques d2 = cheques d1 \<Longrightarrow>
      \<exists>ts. insert_transition (ID c) StateTaslak StateImzaliRezerve cs h d2 =
        Inr ((), d2\<lparr>cheque_transitions := ts\<rparr>)"
proof -
  have "map rs_cheque_id (reservations db) = map row_id (cheques db)"
    using assms(2) by (intro reserved_ids) (simp add: ledger_inv_def reservations_inv_def)
  then have "rs_cheque_id ` set (reservations db) = row_id ` set (cheques db)" by (metis list.set_map)
  then have "\<not> list_ex (\<lambda>r. rs_cheque_id r = ID c) (reservations db)"
    using assms(1) by (simp add: fits_def list_ex_key)
  moreover have "list_ex (\<lambda>r. account r = SenderAddress c \<and> rs_state r = Active) (reservations db)
      = has_open (SenderAddress c) db"
    unfolding has_open_active [OF assms(2)] by (auto simp: active_accounts_def list_ex_iff image_iff)
  moreover have row: "list_ex (\<lambda>r. row_id r = ID c) (cheques d1)" by (simp add: d1_def created_row_def)
  ultimately show "insert_reservation (ID c) (SenderAddress c) (AmountRaw c) d1 =
    (if has_open (SenderAddress c) db then Inl (PgError ''23505'' ''uq_reservations_active_account'')
     else Inr ((), d1\<lparr>reservations := reservations db @ [\<lparr>rs_cheque_id = ID c, account = SenderAddress c,
            rs_amount_raw = amt, rs_state = Active\<rparr>]\<rparr>))"
    using assms(1) by (simp add: insert_reservation_def fits_def d1_def)
  have "tr_cheque_id t \<noteq> ID c" if "t \<in> set (cheque_transitions db)" for t
    using that assms(1,2) unfolding fits_def ledger_inv_def log_inv_def list_all_iff by metis
  then have "\<not> list_ex (\<lambda>t. tr_cheque_id t = ID c \<and> P t) (cheque_transitions db)" for P
    by (auto simp: list_ex_iff)
  then show "\<exists>ts. insert_transition (ID c) StateTaslak StateImzaliRezerve cs h d2 =
        Inr ((), d2\<lparr>cheque_transitions := ts\<rparr>)"
    if "cheque_transitions d2 = cheque_transitions db" "cheques d2 = cheques d1"
    using that row by (auto simp: insert_transition_def)
qed

lemma CreateReservedCheque_no_faults:
  assumes "fits c amt db" and "ledger_inv db" and "faults db = []"
  shows "if request_used (ReceiverAddress c) (RequestID c) db
         then CreateReservedCheque c db = (Inl ErrRequestUsedInRepo, db)
         else if has_open (SenderAddress c) db
         then CreateReservedCheque c db = (Inl ErrAlreadyActiveInRepo, db)
         else \<exists>db'. CreateReservedCheque c db = (Inr (), db') \<and>
                cheques db' = cheques db @ [created_row c amt (db_clock db)] \<and>
                SenderAddress c \<in> set (active_accounts (reservations db'))"
proof -
  let ?d1 = "db\<lparr>cheques := cheques db @ [created_row c amt (db_clock db)]\<rparr>"
  let ?d2 = "?d1\<lparr>reservations := reservations db @ [\<lparr>rs_cheque_id = ID c, account = SenderAddress c,
            rs_amount_raw = amt, rs_state = Active\<rparr>]\<rparr>"
  obtain ts where ts: "insert_transition (ID c) StateTaslak StateImzaliRezerve ''user_action'' [] ?d2 =
      Inr ((), ?d2\<lparr>cheque_transitions := ts\<rparr>)"
    using insert_rest_fits(2) [OF assms(1,2), of ?d2] by auto
  have "SenderAddress c \<in> set (active_accounts (reservations ?d2))"
    by (simp add: active_accounts_def)
  then show ?thesis
    using assms(3) ts
    by (auto simp: CreateReservedCheque_def tx_no_faults exec_no_faults insert_cheque_fits [OF assms(1)]
        insert_rest_fits(1) [OF assms(1,2)])
qed

section \<open>Properties\<close>

text \<open>
  One event of the running service: a call, during which the chain answers as it likes and the
  pool is connected or not, or time passing and connections failing.
\<close>

definition svc_step :: "'tx Service \<Rightarrow> pay_db \<Rightarrow> pay_db \<Rightarrow> bool" where
  "svc_step s db db' \<longleftrightarrow> (\<exists>g ready up. svc_call (s\<lparr>chain := g, db_ready := ready, pool_ready := up\<rparr>) db db') \<or> (\<exists>t fs. db' = db\<lparr>db_clock := t, faults := fs\<rparr>)"

lemma env_step: "repo_step db (db\<lparr>db_clock := t, faults := fs\<rparr>)"
  using step_env [of db fs t "trustlines db" "anchor_transactions db" "users db" "submissions db" "idempotency_keys db"] by simp

lemma svc_reach: "reach empty_db (svc_step s) db \<Longrightarrow> reach empty_db repo_step db"
proof (induction rule: reach.induct)
  case (reach_step db db')
  then show ?case unfolding svc_step_def by (metis reach_steps svc_call_steps reach.reach_step env_step)
qed (rule reach_init)

lemma CreateCheque_row:
  assumes "CreateCheque s out sender receiver amountStr requestID db = (Inr res, db')"
  shows "\<exists>row. cheques db' = cheques db @ [row] \<and> row_id row = res_ChequeID res"
  using assms
proof (rule CreateCheque_Inr)
  fix amount acc d lockXDR entryXDR payloadHash
  let ?c = "newCheque s out sender receiver requestID amount (time_Now out + chequeValidity)"
  assume "create_stmts ?c db = Inr ((), d)" "cheques db' = cheques d"
    and "res = \<lparr>res_ChequeID = ulid_String (svc_sdk s) (ulid_Make out), res_LockXDR = lockXDR,
                 res_PreauthEntryXDR = b64_EncodeToString entryXDR,
                 res_PreauthPayloadHash = b64_EncodeToString payloadHash,
                 res_ExpiresAt = time_Now out + chequeValidity\<rparr>"
  then show ?thesis using create_stmts_tables(1) [of ?c db d "Raw amount"] by (auto simp: created_row_def)
qed

lemma ex_create_row:
  assumes "ex_create = (Inr res, snd ex_create)"
  shows "\<exists>row. cheques (snd ex_create) = [row] \<and> row_id row = res_ChequeID res"
  using CreateCheque_row [of "ex_service ScvVoid" ex_outside "''GA''" "''GB''" "''25''" "''req-1''" ex_db0 res "snd ex_create"] assms
  by (simp add: ex_create_def ex_db0_def)

lemma ex_create_reach: "reach empty_db (svc_step (ex_service ScvVoid)) (snd ex_create)"
proof -
  have "reach empty_db (svc_step (ex_service ScvVoid)) ex_db0"
    by (rule reach_init) (simp add: empty_db_def ex_db0_def)
  moreover have "svc_step (ex_service ScvVoid) ex_db0 (snd ex_create)"
  proof -
    have "ex_service ScvVoid = (ex_service ScvVoid)\<lparr>chain := chain (ex_service ScvVoid), db_ready := True, pool_ready := True\<rparr>"
      by (simp add: ex_service_def)
    then show ?thesis unfolding svc_step_def ex_create_def by (metis call_create)
  qed
  ultimately show ?thesis by (rule reach_step)
qed

text \<open>
  Whatever sequence of service calls is made, by whoever and with whatever arguments, and
  whatever the chain answers and whenever connections fail, the tables stay consistent: one
  reservation per cheque with the cheque's sender and amount, active exactly while the cheque
  is open, at most one open cheque per sender, at most one cheque per receiver and request id,
  positive amounts within NUMERIC(40,0), a log that leads to each cheque's state.
\<close>

theorem service_keeps_ledger_inv:
  assumes "reach empty_db (svc_step s) db"
  shows "ledger_inv db"
  by (rule ledger.inv_reach [OF svc_reach [OF assms]])

theorem service_keeps_ledger_inv_witness: "ledger_inv (snd ex_create)"
  by (rule service_keeps_ledger_inv [OF ex_create_reach])

lemma svc_steps_reach: "(svc_step s)\<^sup>*\<^sup>* db d \<Longrightarrow> repo_step\<^sup>*\<^sup>* db d"
proof (induction rule: rtranclp_induct)
  case (step d e)
  then have "repo_step\<^sup>*\<^sup>* d e" unfolding svc_step_def by (metis svc_call_steps env_step r_into_rtranclp)
  with step show ?case by (meson rtranclp_trans)
qed simp

text \<open>
  C3. A cheque only ever moves along the transition graph, its parties, token, amount, expiry
  and request id never change, and once its state is terminal it stays as it is: for any two
  states of the running service, whatever operations are called between them, by whom and with whatever
  arguments, and whatever the chain answers and which connections fail, every row of the earlier state is still
  there in the later one.
\<close>

theorem cheque_rows_advance:
  assumes "reach empty_db (svc_step s) db" and "(svc_step s)\<^sup>*\<^sup>* db db'" and "r \<in> set (cheques db)"
  shows "\<exists>r' \<in> set (cheques db'). row_id r' = row_id r \<and> cheque_terms r' = cheque_terms r \<and>
           (state r, state r') \<in> (set edges)\<^sup>* \<and> (IsTerminal (state r) \<longrightarrow> state r' = state r)"
  using advance.rel_steps [OF ledger.inv_reach [OF svc_reach [OF assms(1)]] svc_steps_reach [OF assms(2)]] assms(3) terminal_stuck
  unfolding rows_advance_def by metis

theorem cheque_rows_advance_witness:
  "\<exists>r' \<in> set (cheques (snd (ConfirmLock (ex_service ScvVoid) (row_id (hd (cheques (snd ex_create)))) ''GA'' ''h'' (snd ex_create)))).
     row_id r' = row_id (hd (cheques (snd ex_create))) \<and> cheque_terms r' = cheque_terms (hd (cheques (snd ex_create)))"
proof -
  let ?s = "ex_service ScvVoid" and ?r = "hd (cheques (snd ex_create))"
  obtain res where "ex_create = (Inr res, snd ex_create)" using ex_create_ok by blast
  then have r: "?r \<in> set (cheques (snd ex_create))" using ex_create_row by fastforce
  have "?s = ?s\<lparr>chain := chain ?s, db_ready := True, pool_ready := True\<rparr>" by (simp add: ex_service_def)
  then have "svc_step ?s (snd ex_create) (snd (ConfirmLock ?s (row_id ?r) ''GA'' ''h'' (snd ex_create)))"
    unfolding svc_step_def by (metis call_confirm_lock)
  then have "(svc_step ?s)\<^sup>*\<^sup>* (snd ex_create) (snd (ConfirmLock ?s (row_id ?r) ''GA'' ''h'' (snd ex_create)))" by blast
  from cheque_rows_advance [OF ex_create_reach this r] show ?thesis by blast
qed

lemma abs_ledger_steps: "ledger_inv db \<Longrightarrow> repo_step\<^sup>*\<^sup>* db db' \<Longrightarrow> abs_step\<^sup>*\<^sup>* (abs_ledger_of db) (abs_ledger_of db')"
proof (rotate_tac, induction rule: rtranclp_induct)
  case (step d e)
  then have "abs_step (abs_ledger_of d) (abs_ledger_of e)" by (meson abs_ledger_step ledger.inv_steps)
  with step show ?case by (meson rtranclp.rtrancl_into_rtrancl)
qed simp

lemma abs_created:
  assumes "ledger_inv db" and "ChequeState c = StateImzaliRezerve" and "create_stmts c db = Inr ((), d)"
  shows "\<exists>a. bigint_SetString (AmountRaw c) = Some a \<and> abs_step (abs_ledger_of db) (abs_ledger_of d) \<and>
    abs_ledger_of d = (abs_ledger_of db)(ID c \<mapsto> (SenderAddress c, ReceiverAddress c, a, StateImzaliRezerve))"
proof -
  obtain d1 where "insert_cheque c db = Inr ((), d1)" using assms(3) by (rule create_stmts_Inr)
  then obtain a where a: "bigint_SetString (AmountRaw c) = Some a"
    by (auto simp: insert_cheque_def split: option.splits)
  note t = create_stmts_tables [OF assms(3) a]
  have "find (\<lambda>r. row_id r = ID c) (cheques db) = None" unfolding find_None_iff using t(5) by (metis image_eqI)
  then have "abs_ledger_of d = (abs_ledger_of db)(ID c \<mapsto> (SenderAddress c, ReceiverAddress c, a, StateImzaliRezerve))"
    by (intro ext) (auto simp: abs_ledger_of_def t(1) find_append created_row_def row_view_def assms(2) split: option.splits)
  moreover have "abs_step (abs_ledger_of db) (abs_ledger_of d)"
    by (rule abs_ledger_step [OF assms(1) create_stmts_step [OF assms(2,3)]])
  ultimately show ?thesis using a by blast
qed

text \<open>
  C10. The service refines the abstract ledger. Every operation of the service, and every failure on the way, is a
  run of steps of it: a cheque is created for a sender with no open cheque, or moves along the graph. In particular
  \<open>CreateReservedCheque\<close> either fails and leaves the ledger as it was or is one creation of that cheque, and
  \<open>Transition\<close> along an edge either fails and leaves it or is one move of the cheque from the state it names; both
  report success only in the second case, and fail in the second case only when the answer to the commit is lost.
\<close>

theorem ledger_refines:
  assumes "reach empty_db (svc_step s) db"
  shows "(svc_step s db db' \<longrightarrow> abs_step\<^sup>*\<^sup>* (abs_ledger_of db) (abs_ledger_of db')) \<and>
    (ChequeState c = StateImzaliRezerve \<and> CreateReservedCheque c db = (r, d) \<longrightarrow>
       abs_ledger_of d = abs_ledger_of db \<and> (\<exists>e. r = Inl e) \<or>
       (r = Inr () \<or> r = Inl (pgErr PgConn)) \<and> abs_step (abs_ledger_of db) (abs_ledger_of d) \<and>
       (\<exists>a. bigint_SetString (AmountRaw c) = Some a \<and>
          abs_ledger_of d = (abs_ledger_of db)(ID c \<mapsto> (SenderAddress c, ReceiverAddress c, a, StateImzaliRezerve)))) \<and>
    ((from, to) \<in> set edges \<and> Transition x from to cs h db = (r, d) \<longrightarrow>
       abs_ledger_of d = abs_ledger_of db \<and> (\<exists>e. r = Inl e) \<or>
       (r = Inr () \<or> r = Inl (pgErr PgConn)) \<and> abs_step (abs_ledger_of db) (abs_ledger_of d) \<and>
       (\<exists>a b amt. abs_ledger_of db x = Some (a, b, amt, from) \<and> abs_ledger_of d = (abs_ledger_of db)(x \<mapsto> (a, b, amt, to))))"
proof (intro conjI impI)
  note inv = ledger.inv_reach [OF svc_reach [OF assms]]
  show "abs_step\<^sup>*\<^sup>* (abs_ledger_of db) (abs_ledger_of db')" if "svc_step s db db'"
    by (rule abs_ledger_steps [OF inv svc_steps_reach]) (use that in blast)
  show "abs_ledger_of d = abs_ledger_of db \<and> (\<exists>e. r = Inl e) \<or>
       (r = Inr () \<or> r = Inl (pgErr PgConn)) \<and> abs_step (abs_ledger_of db) (abs_ledger_of d) \<and>
       (\<exists>a. bigint_SetString (AmountRaw c) = Some a \<and>
          abs_ledger_of d = (abs_ledger_of db)(ID c \<mapsto> (SenderAddress c, ReceiverAddress c, a, StateImzaliRezerve)))"
    if c: "ChequeState c = StateImzaliRezerve \<and> CreateReservedCheque c db = (r, d)"
    using CreateReservedCheque_cases [OF conjunct2 [OF c]]
  proof (rule disjE)
    assume "\<exists>d0. create_stmts c db = Inr ((), d0) \<and> same_tables d0 d \<and> (r = Inr () \<or> r = Inl (pgErr PgConn))"
    then obtain d0 where d0: "create_stmts c db = Inr ((), d0)" and same: "same_tables d0 d" and r: "r = Inr () \<or> r = Inl (pgErr PgConn)"
      by blast
    from abs_created [OF inv conjunct1 [OF c] d0] r show ?thesis unfolding abs_ledger_same [OF same] by blast
  qed (simp add: abs_ledger_same)
  show "abs_ledger_of d = abs_ledger_of db \<and> (\<exists>e. r = Inl e) \<or>
       (r = Inr () \<or> r = Inl (pgErr PgConn)) \<and> abs_step (abs_ledger_of db) (abs_ledger_of d) \<and>
       (\<exists>a b amt. abs_ledger_of db x = Some (a, b, amt, from) \<and> abs_ledger_of d = (abs_ledger_of db)(x \<mapsto> (a, b, amt, to)))"
    if e: "(from, to) \<in> set edges \<and> Transition x from to cs h db = (r, d)"
    using Transition_cases [OF conjunct2 [OF e]]
  proof (rule disjE)
    assume "same_tables (moved x from to cs h db) d \<and> (r = Inr () \<or> r = Inl (pgErr PgConn)) \<and>
      (\<exists>r0 \<in> set (cheques db). row_id r0 = x \<and> state r0 = from) \<and> (from, to) \<notin> set (log_of (cheque_transitions db) x)"
    then obtain r0 where r0: "r0 \<in> set (cheques db)" "row_id r0 = x" "state r0 = from"
      and same: "same_tables (moved x from to cs h db) d" and r: "r = Inr () \<or> r = Inl (pgErr PgConn)" by blast
    from abs_move_step [OF inv conjunct1 [OF e] r0] abs_ledger_moved [OF inv r0] r
    show ?thesis unfolding abs_ledger_same [OF same] by blast
  qed (simp add: abs_ledger_same)
qed

theorem ledger_refines_witness:
  "abs_step\<^sup>*\<^sup>* (abs_ledger_of ex_db0) (abs_ledger_of (snd ex_create)) \<and>
   abs_ledger_of (snd (CreateReservedCheque ex_cheque ex_db0)) =
     (abs_ledger_of ex_db0)(ID ex_cheque \<mapsto> (''GA'', ''GB'', 25, StateImzaliRezerve))"
proof -
  let ?s = "ex_service ScvVoid" and ?C = "CreateReservedCheque ex_cheque ex_db0"
  have r: "reach empty_db (svc_step ?s) ex_db0" by (rule reach_init) (simp add: empty_db_def ex_db0_def)
  have "fst ?C = Inr ()" by code_simp
  then have C: "?C = (Inr (), snd ?C)" by (metis prod.collapse)
  have step: "svc_step ?s ex_db0 (snd ex_create)"
  proof -
    have "?s = ?s\<lparr>chain := chain ?s, db_ready := True, pool_ready := True\<rparr>" by (simp add: ex_service_def)
    then show ?thesis unfolding svc_step_def ex_create_def by (metis call_create)
  qed
  have "ChequeState ex_cheque = StateImzaliRezerve" by (simp add: ex_cheque_def)
  moreover have "bigint_SetString (AmountRaw ex_cheque) = Some 25" by code_simp
  ultimately show ?thesis
    using ledger_refines [OF r, where db' = "snd ex_create" and c = ex_cheque and r = "Inr ()" and d = "snd ?C"] C step
    by (auto simp: ex_cheque_def)
qed

text \<open>
  C4. A cheque that was created is exactly the one that was asked for, and only after every
  check: a connected pool, distinct parties, a valid receiver account, a well-formed request id, a positive
  amount read exactly from the string, a receiver with a trustline and a sender with enough spendable
  balance and no open cheque. The stored row carries the parsed amount, the seven-day expiry and the id that is
  returned, and one active reservation of the same amount is added.
\<close>

theorem CreateCheque_success:
  assumes "CreateCheque s out sender receiver amountStr requestID db = (Inr res, db')"
  shows "\<exists>amount acc t row.
    ParseAmount amountStr (service_asset s) (cfg_Decimals (cfg s)) = Inr amount \<and> 0 < Raw amount \<and>
    db_ready s \<and> sender \<noteq> receiver \<and> IsValidAccountAddress (svc_sdk s) receiver \<and> validRequestID requestID \<and>
    GetTrustline (chain s) receiver (cfg_AssetCode (cfg s)) (cfg_AssetIssuer (cfg s)) = Inr t \<and> tl_Exists t \<and>
    GetAccount (chain s) sender = Inr acc \<and>
    hasSufficientBalance acc (cfg_AssetCode (cfg s)) (cfg_AssetIssuer (cfg s)) (Raw amount) (cfg_Decimals (cfg s)) \<and>
    sender \<notin> set (active_accounts (reservations db)) \<and> res_ChequeID res \<notin> row_id ` set (cheques db) \<and>
    cheques db' = cheques db @ [row] \<and>
    row = \<lparr>row_id = res_ChequeID res, sender_address = sender, receiver_address = receiver,
           token_contract = TokenContractID (cfg s), amount_raw = Raw amount,
           decimals = cfg_Decimals (cfg s), state = StateImzaliRezerve,
           expires_at = pg_timestamp (time_Now out + 7 * 24 * 3600 * 1000000000),
           lock_tx_hash = None, preauth_entry_xdr = None, created_at = db_clock db,
           updated_at = db_clock db, request_id = nullif_empty requestID\<rparr> \<and>
    reservations db' = reservations db @ [\<lparr>rs_cheque_id = res_ChequeID res, account = sender,
           rs_amount_raw = Raw amount, rs_state = Active\<rparr>]"
  using assms
proof (rule CreateCheque_Inr)
  fix amount acc d lockXDR entryXDR payloadHash
  let ?c = "newCheque s out sender receiver requestID amount (time_Now out + chequeValidity)"
  assume ck: "createChecks s sender receiver amountStr requestID = Inr (amount, acc)"
    and d: "create_stmts ?c db = Inr ((), d)"
    and db': "cheques db' = cheques d" "reservations db' = reservations d"
    and res: "res = \<lparr>res_ChequeID = ulid_String (svc_sdk s) (ulid_Make out), res_LockXDR = lockXDR,
                 res_PreauthEntryXDR = b64_EncodeToString entryXDR,
                 res_PreauthPayloadHash = b64_EncodeToString payloadHash,
                 res_ExpiresAt = time_Now out + chequeValidity\<rparr>"
  have amt: "bigint_SetString (AmountRaw ?c) = Some (Raw amount)" by simp
  note t = create_stmts_tables [OF d amt]
  show ?thesis
    using createChecks_Inr [OF ck] t db' res
    by (auto simp: created_row_def chequeValidity_def)
qed

theorem CreateCheque_success_witness:
  "\<exists>res row. ex_create = (Inr res, snd ex_create) \<and> cheques (snd ex_create) = [row] \<and>
     sender_address row = ''GA'' \<and> state row = StateImzaliRezerve"
proof -
  obtain res where "ex_create = (Inr res, snd ex_create)" using ex_create_ok by blast
  then have "CreateCheque (ex_service ScvVoid) ex_outside ''GA'' ''GB'' ''25'' ''req-1'' ex_db0
      = (Inr res, snd ex_create)" by (simp add: ex_create_def)
  from CreateCheque_success [OF this] \<open>ex_create = (Inr res, snd ex_create)\<close> show ?thesis
    by (auto simp: ex_db0_def)
qed

text \<open>
  C1. The authorization the sender pre-signs at creation covers exactly the \<open>force_collect\<close> call
  the receiver gets later, whatever happened to the database in between: when the cheque is
  looked up again, its stored amount parses, its id decodes, and the arguments and contract of
  the call built from the row are those of the root invocation in the entry that was handed out
  for signing, whose credentials name the sender; a force-collect transaction that is handed out
  at any later time, whatever the chain answers then, is assembled from this call with the stored
  entry attached. The ULID package is assumed to parse the string it printed for this id.
\<close>

theorem preauth_covers_force_collect:
  assumes "reach empty_db repo_step db"
    and "CreateCheque s out sender receiver amountStr requestID db = (Inr res, db1)"
    and "repo_step\<^sup>*\<^sup>* db1 db2"
    and "getCheque s (res_ChequeID res) db2 = (Inr c, db3)"
    and "ulid_ParseStrict (svc_sdk s) (ulid_String (svc_sdk s) (ulid_Make out)) = Inr (ulid_Make out)"
  shows "\<exists>amt idBytes args op entry entryBytes.
    bigint_SetString (AmountRaw c) = Some amt \<and> decodeULID (svc_sdk s) (res_ChequeID res) = Inr idBytes \<and>
    scArgs [ScAddress (svc_sdk s) (SenderAddress c), ScBytes idBytes, ScAddress (svc_sdk s) (ReceiverAddress c),
            ScAddress (svc_sdk s) (TokenContract c), ScI128 amt, ScUint64 (unix_u64 (ExpiresAt c))] = Inr args \<and>
    InvokeContract (svc_sdk s) (EscrowContractID (cfg s)) receiver ''force_collect'' args = Inr op \<and>
    RootInvocation entry = AuthorizedInvocation (HostFunction op) [] \<and>
    (\<exists>addr cr. ScAddress (svc_sdk s) sender = Inr (ScvAddress addr) \<and>
       Credentials entry = CredentialsAddress cr \<and> cred_Address cr = addr) \<and>
    xdr_MarshalAuthEntry (svc_sdk s) entry = Inr entryBytes \<and>
    res_PreauthEntryXDR res = b64_EncodeToString entryBytes \<and>
    (\<forall>g x. buildForceCollect (s\<lparr>chain := g\<rparr>) (res_ChequeID res) receiver c = Inr x \<longrightarrow>
       (\<exists>acc stored op'. GetAccount g receiver = Inr acc \<and> b64_DecodeString (PreauthEntryXDR c) = Inr stored \<and>
          AttachAuthEntry (svc_sdk s) op stored = Inr op' \<and>
          assemble (s\<lparr>chain := g\<rparr>) receiver (acc_Sequence acc) op' = Inr x))"
  using assms(2)
proof (rule CreateCheque_Inr)
  fix amount acc d lockXDR entryXDR payloadHash
  let ?c = "newCheque s out sender receiver requestID amount (time_Now out + chequeValidity)"
  assume d: "create_stmts ?c db = Inr ((), d)" and db1: "cheques db1 = cheques d"
    and ar: "createArtifacts s out sender receiver amount (acc_Sequence acc) (time_Now out + chequeValidity)
           = Inr (lockXDR, entryXDR, payloadHash)"
    and res: "res = \<lparr>res_ChequeID = ulid_String (svc_sdk s) (ulid_Make out), res_LockXDR = lockXDR,
                 res_PreauthEntryXDR = b64_EncodeToString entryXDR,
                 res_PreauthPayloadHash = b64_EncodeToString payloadHash,
                 res_ExpiresAt = time_Now out + chequeValidity\<rparr>"
  let ?r = "created_row ?c (Raw amount) (db_clock db)"
  have r: "?r \<in> set (cheques db1)"
    using create_stmts_tables(1) [OF d, of "Raw amount"] db1 by simp
  have "repo_step\<^sup>*\<^sup>* db db1" using runs_CreateCheque assms(2) by (metis runs_def snd_conv)
  then have inv: "ledger_inv db1" by (rule ledger.inv_steps [OF ledger.inv_reach [OF assms(1)]])
  obtain row where row: "find (\<lambda>q. row_id q = row_id ?r) (cheques db2) = Some row" "c = scan_cheque row"
    using getCheque_Inr [OF assms(4)] by (auto simp: res created_row_def)
  have "cheque_terms row = cheque_terms ?r" by (rule later_row(1) [OF inv assms(3) r row(1)])
  then have c: "SenderAddress c = sender" "ReceiverAddress c = receiver" "TokenContract c = TokenContractID (cfg s)"
      "AmountRaw c = bigint_String (Raw amount)" "ExpiresAt c = pg_timestamp (time_Now out + chequeValidity)"
    by (simp_all add: row(2) scan_cheque_def cheque_terms_def created_row_def)
  obtain ledger nonce where built: "BuildForceCollectAuthEntry (svc_sdk s) (NetworkPassphrase (cfg s))
           (EscrowContractID (cfg s)) sender receiver (TokenContractID (cfg s)) (Raw amount)
           (ulid_Make out) (unix_u64 (time_Now out + chequeValidity)) ledger nonce = Inr (entryXDR, payloadHash)"
    using createArtifacts_entry [OF ar] by blast
  from BuildForceCollectAuthEntry_Inr [OF built] obtain args op entry addr where e:
    "scArgs [ScAddress (svc_sdk s) sender, ScBytes (ulid_Make out), ScAddress (svc_sdk s) receiver,
       ScAddress (svc_sdk s) (TokenContractID (cfg s)), ScI128 (Raw amount),
       ScUint64 (unix_u64 (time_Now out + chequeValidity))] = Inr args"
    "InvokeContract (svc_sdk s) (EscrowContractID (cfg s)) receiver ''force_collect'' args = Inr op"
    "RootInvocation entry = AuthorizedInvocation (HostFunction op) []"
    "ScAddress (svc_sdk s) sender = Inr (ScvAddress addr)"
    "Credentials entry = CredentialsAddress \<lparr>cred_Address = addr, cred_Nonce = nonce,
         cred_SignatureExpirationLedger = ledger, cred_Signature = ScvVoid\<rparr>"
    "xdr_MarshalAuthEntry (svc_sdk s) entry = Inr entryXDR"
    by blast
  have "decodeULID (svc_sdk s) (res_ChequeID res) = Inr (ulid_Make out)"
    using assms(5) by (simp add: res decodeULID_def)
  moreover have "res_PreauthEntryXDR res = b64_EncodeToString entryXDR" by (simp add: res)
  moreover have "bigint_SetString (AmountRaw c) = Some (Raw amount)" by (simp add: c)
  moreover have "unix_u64 (ExpiresAt c) = unix_u64 (time_Now out + chequeValidity)" by (simp add: c)
  moreover note buildForceCollect_op [where s = s and chequeID = "res_ChequeID res" and receiver = receiver and c = c and op = op]
  ultimately show ?thesis
    unfolding c(1-3) using e
    by (intro exI [of _ "Raw amount"] exI [of _ "ulid_Make out"] exI [of _ args] exI [of _ op]
        exI [of _ entry] exI [of _ entryXDR] conjI) (auto simp: c(1-3))
qed

theorem preauth_covers_force_collect_witness:
  "\<exists>res c amt. ex_create = (Inr res, snd ex_create) \<and>
     getCheque (ex_service ScvVoid) (res_ChequeID res) ((snd ex_create)\<lparr>faults := []\<rparr>) =
       (Inr c, (snd ex_create)\<lparr>faults := []\<rparr>) \<and>
     bigint_SetString (AmountRaw c) = Some amt"
proof -
  let ?db2 = "(snd ex_create)\<lparr>faults := []\<rparr>"
  obtain res where res: "ex_create = (Inr res, snd ex_create)" using ex_create_ok by blast
  then have cr: "CreateCheque (ex_service ScvVoid) ex_outside ''GA'' ''GB'' ''25'' ''req-1'' ex_db0
      = (Inr res, snd ex_create)" by (simp add: ex_create_def)
  obtain row where row: "cheques (snd ex_create) = [row]" "row_id row = res_ChequeID res" using ex_create_row [OF res] by blast
  have get: "getCheque (ex_service ScvVoid) (res_ChequeID res) ?db2 = (Inr (scan_cheque row), ?db2)"
    using row by (simp add: getCheque_def GetCheque_def exec_no_faults map_err_def ex_service_def)
  have run: "repo_step\<^sup>*\<^sup>* (snd ex_create) ?db2" by (blast intro: same_tables_step same_tables_faults)
  have ulid: "ulid_ParseStrict (svc_sdk (ex_service ScvVoid))
      (ulid_String (svc_sdk (ex_service ScvVoid)) (ulid_Make ex_outside)) = Inr (ulid_Make ex_outside)"
    by code_simp
  from preauth_covers_force_collect [OF ex_db0_reach cr run get ulid]
  obtain amt where "bigint_SetString (AmountRaw (scan_cheque row)) = Some amt" by blast
  with res get show ?thesis by blast
qed

text \<open>
  C5. Once every check has passed, on a reachable database with a healthy connection and a
  fresh id, the two single-use rules decide: a payment request of this receiver that any cheque
  has answered is refused as used, a sender with an open cheque is refused as already active,
  and in both cases nothing is stored. Otherwise the cheque is stored and the sender reserved,
  before the lock transaction is built: when building or simulating it then fails, the caller
  gets that error and the reservation stays.
\<close>

theorem CreateCheque_refusals:
  assumes "reach empty_db repo_step db" and "faults db = []"
    and "createChecks s sender receiver amountStr requestID = Inr (amount, acc)"
    and "ulid_String (svc_sdk s) (ulid_Make out) \<notin> row_id ` set (cheques db)"
    and "length (ulid_String (svc_sdk s) (ulid_Make out)) \<le> 26"
    and "length sender \<le> 56" and "length receiver \<le> 56" and "length (TokenContractID (cfg s)) \<le> 56"
    and "Raw amount < 10 ^ 40"
  shows "if requestID \<noteq> [] \<and> (\<exists>r \<in> set (cheques db). receiver_address r = receiver \<and> request_id r = Some requestID)
    then CreateCheque s out sender receiver amountStr requestID db = (Inl errRequestUsed, db)
    else if \<exists>r \<in> set (cheques db). sender_address r = sender \<and> \<not> IsTerminal (state r)
    then CreateCheque s out sender receiver amountStr requestID db = (Inl errAlreadyActive, db)
    else \<exists>r db' row. CreateCheque s out sender receiver amountStr requestID db = (r, db') \<and>
           cheques db' = cheques db @ [row] \<and> row_id row = ulid_String (svc_sdk s) (ulid_Make out) \<and>
           sender \<in> set (active_accounts (reservations db')) \<and>
           (\<forall>e. createArtifacts s out sender receiver amount (acc_Sequence acc)
                  (time_Now out + chequeValidity) = Inl e \<longrightarrow> r = Inl e)"
proof -
  let ?c = "newCheque s out sender receiver requestID amount (time_Now out + chequeValidity)"
  have fit: "fits ?c (Raw amount) db"
    using createChecks_Inr(1,5) [OF assms(3)] assms(4-9) by (simp add: fits_def numeric_40_0_def)
  have create: "CreateCheque s out sender receiver amountStr requestID db =
      (case CreateReservedCheque ?c db of (Inl e, db1) \<Rightarrow> (Inl (createErr e), db1)
       | (Inr _, db1) \<Rightarrow> (case createArtifacts s out sender receiver amount (acc_Sequence acc)
             (time_Now out + chequeValidity) of Inl e \<Rightarrow> (Inl e, db1)
           | Inr (lockXDR, entryXDR, payloadHash) \<Rightarrow>
               (Inr \<lparr>res_ChequeID = ID ?c, res_LockXDR = lockXDR,
                     res_PreauthEntryXDR = b64_EncodeToString entryXDR,
                     res_PreauthPayloadHash = b64_EncodeToString payloadHash,
                     res_ExpiresAt = time_Now out + chequeValidity\<rparr>,
                audit sender ''cheque.lock_xdr_issued'' [(''chequeId'', ID ?c), (''receiver'', receiver),
                  (''amount'', Amount_String amount)] db1)))"
    by (simp add: CreateCheque_def assms(3) Let_def)
  note cases = CreateReservedCheque_no_faults [OF fit ledger.inv_reach [OF assms(1)] assms(2),
      unfolded request_used_def has_open_def newCheque_simps]
  show ?thesis
  proof (cases "requestID \<noteq> [] \<and> (\<exists>r \<in> set (cheques db). receiver_address r = receiver \<and> request_id r = Some requestID)")
    case True
    with cases show ?thesis
      by (simp add: create createErr_def ErrRequestUsedInRepo_def ErrAlreadyActiveInRepo_def)
  next
    case req: False
    show ?thesis
    proof (cases "\<exists>r \<in> set (cheques db). sender_address r = sender \<and> \<not> IsTerminal (state r)")
      case True
      with req cases have "CreateReservedCheque ?c db = (Inl ErrAlreadyActiveInRepo, db)" by (simp only: if_False if_True)
      then have "CreateCheque s out sender receiver amountStr requestID db = (Inl errAlreadyActive, db)"
        by (simp add: create createErr_def ErrAlreadyActiveInRepo_def)
      with req True show ?thesis by (simp only: if_False if_True)
    next
      case False
      with req cases obtain db1 where db1: "CreateReservedCheque ?c db = (Inr (), db1)"
          "cheques db1 = cheques db @ [created_row ?c (Raw amount) (db_clock db)]"
          "sender \<in> set (active_accounts (reservations db1))"
        by (simp only: if_False) blast
      have "\<exists>r db' row. CreateCheque s out sender receiver amountStr requestID db = (r, db') \<and>
           cheques db' = cheques db @ [row] \<and> row_id row = ulid_String (svc_sdk s) (ulid_Make out) \<and>
           sender \<in> set (active_accounts (reservations db')) \<and>
           (\<forall>e. createArtifacts s out sender receiver amount (acc_Sequence acc)
                  (time_Now out + chequeValidity) = Inl e \<longrightarrow> r = Inl e)"
        using db1 by (auto simp: create created_row_def split: sum.splits)
      with req False show ?thesis by (simp only: if_False)
    qed
  qed
qed

theorem CreateCheque_refusals_witness:
  "CreateCheque (ex_service ScvVoid) ex_outside ''GA'' ''GB'' ''25'' [] ex_db1 = (Inl errAlreadyActive, ex_db1) \<and>
   CreateCheque (ex_service ScvVoid) ex_outside ''GA'' ''GB'' ''25'' ''req-1'' ex_db1 = (Inl errRequestUsed, ex_db1)"
proof -
  have rows: "map (\<lambda>r. (row_id r, sender_address r, receiver_address r, request_id r, state r)) (cheques ex_db1) =
      [(ID ex_cheque, ''GA'', ''GB'', Some ''req-1'', StateImzaliRezerve)]" by code_simp
  then obtain r where r: "cheques ex_db1 = [r]" "row_id r = ID ex_cheque" "sender_address r = ''GA''"
      "receiver_address r = ''GB''" "request_id r = Some ''req-1''" "state r = StateImzaliRezerve"
    by (auto simp: map_eq_Cons_conv)
  have ids: "ulid_String (svc_sdk (ex_service ScvVoid)) (ulid_Make ex_outside) \<noteq> ID ex_cheque"
    "length (ulid_String (svc_sdk (ex_service ScvVoid)) (ulid_Make ex_outside)) \<le> 26"
    "length (TokenContractID (cfg (ex_service ScvVoid))) \<le> 56" "Raw ex_amount < 10 ^ 40" by code_simp+
  have chk: "createChecks (ex_service ScvVoid) ''GA'' ''GB'' ''25'' [] = Inr (ex_amount, ex_account)" by code_simp
  show ?thesis
    using CreateCheque_refusals [OF ex_db1_reach ex_db1_rows(4) chk, of ex_outside]
      CreateCheque_refusals [OF ex_db1_reach ex_db1_rows(4) ex_create_checks, of ex_outside] ids r
    by simp
qed

lemma party_guard:
  assumes "find (\<lambda>r. row_id r = x) (cheques db) = Some row"
  shows "(sender_address row \<noteq> caller \<longrightarrow>
            same_tables db (snd (StorePreauth s x caller e db)) \<and> (\<exists>err. fst (StorePreauth s x caller e db) = Inl err) \<and>
            same_tables db (snd (ConfirmLock s x caller h db)) \<and> (\<exists>err. fst (ConfirmLock s x caller h db) = Inl err)) \<and>
         (receiver_address row \<noteq> caller \<longrightarrow>
            same_tables db (snd (ClaimXDR s out x caller db)) \<and> (\<exists>err. fst (ClaimXDR s out x caller db) = Inl err) \<and>
            same_tables db (snd (ForceCollectXDR s x caller db)) \<and> (\<exists>err. fst (ForceCollectXDR s x caller db) = Inl err) \<and>
            same_tables db (snd (ConfirmClaim s x caller h db)) \<and> (\<exists>err. fst (ConfirmClaim s x caller h db) = Inl err) \<and>
            same_tables db (snd (AcknowledgeReceipt s x caller db)) \<and>
            (\<exists>err. fst (AcknowledgeReceipt s x caller db) = Inl err) \<and>
            same_tables db (snd (ConfirmForceCollect s x caller h b db)) \<and>
            (\<exists>err. fst (ConfirmForceCollect s x caller h b db) = Inl err))"
proof -
  obtain r d where g: "getCheque s x db = (r, d)" by fastforce
  have d: "same_tables db d" by (rule getCheque_same [OF g])
  show ?thesis
  proof (cases r)
    case (Inl err)
    then show ?thesis
      using d by (simp add: StorePreauth_def ConfirmLock_def ClaimXDR_def ForceCollectXDR_def ConfirmClaim_def
          AcknowledgeReceipt_def ConfirmForceCollect_def g db_bind_def)
  next
    case (Inr c)
    then have "SenderAddress c = sender_address row" "ReceiverAddress c = receiver_address row"
      using getCheque_Inr [of s x db c d] g assms by (auto simp: scan_cheque_def)
    with Inr d show ?thesis
      by (simp add: StorePreauth_def ConfirmLock_def ClaimXDR_def ForceCollectXDR_def ConfirmClaim_def
          AcknowledgeReceipt_def ConfirmForceCollect_def g db_bind_def buildForceCollect_def Let_def)
  qed
qed

text \<open>
  Only a party to a cheque can change anything about it, and each only in its role: a caller
  who is not the sender of the stored cheque cannot store an authorization or confirm the lock,
  and one who is not the receiver cannot get a claim or a force-collect transaction, confirm a
  claim or a force collection, or acknowledge the receipt. The call returns an error and the
  tables are unchanged, under any faults.
\<close>

theorem only_parties_act:
  assumes "find (\<lambda>r. row_id r = x) (cheques db) = Some row"
  shows "(sender_address row \<noteq> caller \<longrightarrow>
            same_tables db (snd (StorePreauth s x caller e db)) \<and> (\<exists>err. fst (StorePreauth s x caller e db) = Inl err) \<and>
            same_tables db (snd (ConfirmLock s x caller h db)) \<and> (\<exists>err. fst (ConfirmLock s x caller h db) = Inl err)) \<and>
         (receiver_address row \<noteq> caller \<longrightarrow>
            same_tables db (snd (ClaimXDR s out x caller db)) \<and> (\<exists>err. fst (ClaimXDR s out x caller db) = Inl err) \<and>
            same_tables db (snd (ForceCollectXDR s x caller db)) \<and> (\<exists>err. fst (ForceCollectXDR s x caller db) = Inl err) \<and>
            same_tables db (snd (ConfirmClaim s x caller h db)) \<and> (\<exists>err. fst (ConfirmClaim s x caller h db) = Inl err) \<and>
            same_tables db (snd (AcknowledgeReceipt s x caller db)) \<and>
            (\<exists>err. fst (AcknowledgeReceipt s x caller db) = Inl err) \<and>
            same_tables db (snd (ConfirmForceCollect s x caller h b db)) \<and>
            (\<exists>err. fst (ConfirmForceCollect s x caller h b db) = Inl err))"
  using assms by (rule party_guard)

theorem only_parties_act_witness:
  "same_tables ex_db1 (snd (ConfirmLock (ex_service ScvVoid) (ID ex_cheque) ''GX'' ''h'' ex_db1)) \<and>
   same_tables ex_db1 (snd (ConfirmClaim (ex_service ScvVoid) (ID ex_cheque) ''GX'' ''h'' ex_db1))"
proof -
  have "map (\<lambda>r. (row_id r, sender_address r, receiver_address r)) (cheques ex_db1) =
      [(ID ex_cheque, ''GA'', ''GB'')]" by code_simp
  then obtain r where r: "cheques ex_db1 = [r]" "row_id r = ID ex_cheque" "sender_address r = ''GA''"
      "receiver_address r = ''GB''" by (auto simp: map_eq_Cons_conv)
  then have "find (\<lambda>r. row_id r = ID ex_cheque) (cheques ex_db1) = Some r" by simp
  from only_parties_act [OF this, where caller = "''GX''" and s = "ex_service ScvVoid" and h = "''h''"] r show ?thesis by simp
qed

end
