(* ===== verification/ChequeFlows.thy ===== *)
theory ChequeFlows
  imports ChequeProps
begin

text \<open>
  The flows of a cheque and of the pool: what each confirmation does to the state of a cheque,
  how a claim repairs a lost confirmation from the chain, how \<open>Sync\<close> heals the pool cache, the
  arithmetic of the cache and the checks in front of a withdrawal. The two-step confirmations
  rest on an interface, a store of cheque states with guarded moves, that the repository
  implements.
\<close>

section \<open>Stores with guarded moves\<close>

locale transition_store =
  fixes state_of :: "'d \<Rightarrow> string \<Rightarrow> State option" and healthy :: "'d \<Rightarrow> bool"
    and move :: "string \<Rightarrow> State \<Rightarrow> State \<Rightarrow> string \<Rightarrow> string \<Rightarrow> 'd \<Rightarrow> unit res \<times> 'd"
  assumes move_enabled: "healthy d \<Longrightarrow> (f, t) \<in> set edges \<Longrightarrow> state_of d x = Some f \<Longrightarrow>
      \<exists>d'. move x f t cs h d = (Inr (), d') \<and> healthy d' \<and> state_of d' = (state_of d)(x \<mapsto> t)"
    and move_refused: "healthy d \<Longrightarrow> (f, t) \<in> set edges \<Longrightarrow> state_of d x \<noteq> Some f \<Longrightarrow>
      move x f t cs h d = (Inl ErrBadTransitionInRepo, d)"
begin

lemma tolerated_move:
  assumes "healthy d" and "(f, t) \<in> set edges"
  shows "\<exists>d'. tolerate (move x f t cs h d) = (Inr (), d') \<and> healthy d' \<and>
           state_of d' = (if state_of d x = Some f then (state_of d)(x \<mapsto> t) else state_of d)"
proof (cases "state_of d x = Some f")
  case True
  from move_enabled [OF assms True] obtain d' where
    "move x f t cs h d = (Inr (), d')" "healthy d'" "state_of d' = (state_of d)(x \<mapsto> t)" by blast
  with True show ?thesis by (auto simp: tolerate_def)
next
  case False
  with move_refused [OF assms] assms(1) show ?thesis
    by (auto simp: tolerate_def ErrBadTransitionInRepo_def)
qed

text \<open>Two moves in a row, each allowed to find its work already done.\<close>

lemma two_moves:
  assumes "healthy d" and "(f, t) \<in> set edges" and "(t, u) \<in> set edges"
  shows "\<exists>d'. db_bind (tolerate (move x f t c1 h1 d)) (\<lambda>_ d1. tolerate (move x t u c2 h2 d1)) = (Inr (), d') \<and>
     healthy d' \<and>
     state_of d' = (if state_of d x = Some f \<or> state_of d x = Some t then (state_of d)(x \<mapsto> u) else state_of d)"
proof -
  obtain d1 where d1: "tolerate (move x f t c1 h1 d) = (Inr (), d1)" "healthy d1"
      "state_of d1 = (if state_of d x = Some f then (state_of d)(x \<mapsto> t) else state_of d)"
    using tolerated_move [OF assms(1,2)] by blast
  obtain d2 where d2: "tolerate (move x t u c2 h2 d1) = (Inr (), d2)" "healthy d2"
      "state_of d2 = (if state_of d1 x = Some t then (state_of d1)(x \<mapsto> u) else state_of d1)"
    using tolerated_move [OF d1(2) assms(3)] by blast
  have "f \<noteq> t" using edges_up [OF assms(2)] by auto
  with d1 d2 show ?thesis by (auto simp: db_bind_def)
qed

end

definition cheque_state :: "pay_db \<Rightarrow> string \<Rightarrow> State option" where
  "cheque_state db x = map_option state (find (\<lambda>r. row_id r = x) (cheques db))"

definition healthy_db :: "pay_db \<Rightarrow> bool" where
  "healthy_db db \<longleftrightarrow> faults db = [] \<and> ledger_inv db"

lemma cheque_state_Some:
  assumes "ledger_inv db"
  shows "cheque_state db x = Some st \<longleftrightarrow> (\<exists>r \<in> set (cheques db). row_id r = x \<and> state r = st)"
proof
  assume "cheque_state db x = Some st"
  then show "\<exists>r \<in> set (cheques db). row_id r = x \<and> state r = st"
    by (auto simp: cheque_state_def dest: find_SomeD)
next
  assume "\<exists>r \<in> set (cheques db). row_id r = x \<and> state r = st"
  then obtain r where "r \<in> set (cheques db)" "row_id r = x" "state r = st" by blast
  moreover have "distinct (map row_id (cheques db))" using assms by (simp add: ledger_inv_def cheques_inv_def)
  ultimately show "cheque_state db x = Some st" using find_distinct by (force simp: cheque_state_def)
qed

lemma cheque_state_moved:
  assumes "cheque_state db x = Some from"
  shows "cheque_state (moved x from to cs h db) = (cheque_state db)(x \<mapsto> to)"
proof (rule ext)
  fix y
  let ?f = "move_row x from to (db_clock db)"
  have find: "find (\<lambda>r. row_id r = y) (map ?f (cheques db)) =
      map_option ?f (find (\<lambda>r. row_id r = y) (cheques db))"
    by (rule find_map_other) (simp add: move_row_def)
  show "cheque_state (moved x from to cs h db) y = ((cheque_state db)(x \<mapsto> to)) y"
  proof (cases "find (\<lambda>r. row_id r = y) (cheques db)")
    case None
    then show ?thesis using assms by (auto simp: cheque_state_def moved_def find)
  next
    case (Some r)
    then have "row_id r = y" by (auto dest: find_SomeD)
    with Some show ?thesis using assms by (auto simp: cheque_state_def moved_def find move_row_def)
  qed
qed

interpretation repo_store: transition_store cheque_state healthy_db Transition
proof unfold_locales
  fix d f t x cs h
  assume h: "healthy_db d" and e: "(f, t) \<in> set edges"
  note T = Transition_no_faults [OF _ _ e, of d x cs h]
  show "\<exists>d'. Transition x f t cs h d = (Inr (), d') \<and> healthy_db d' \<and> cheque_state d' = (cheque_state d)(x \<mapsto> t)"
    if s: "cheque_state d x = Some f"
  proof -
    obtain r where r: "r \<in> set (cheques d)" "row_id r = x" "state r = f"
      using s h by (auto simp: healthy_db_def cheque_state_Some)
    then have "Transition x f t cs h d = (Inr (), moved x f t cs h d)"
      using T h by (auto simp: healthy_db_def)
    moreover have "healthy_db (moved x f t cs h d)"
      using h r ledger_inv_moved [OF _ e r] by (simp add: healthy_db_def)
    ultimately show ?thesis using cheque_state_moved [OF s] by blast
  qed
  show "Transition x f t cs h d = (Inl ErrBadTransitionInRepo, d)" if "cheque_state d x \<noteq> Some f"
    using T h that by (auto simp: healthy_db_def cheque_state_Some)
qed

section \<open>Confirmations\<close>

lemma audit_cheque_state [simp]: "cheque_state (audit a b c db) = cheque_state db"
  by (simp add: cheque_state_def [abs_def])

lemma getCheque_no_faults:
  assumes "faults db = []" and "db_ready s" and "find (\<lambda>r. row_id r = x) (cheques db) = Some row"
  shows "getCheque s x db = (Inr (scan_cheque row), db)"
  using assms by (simp add: getCheque_def GetCheque_def exec_no_faults map_err_def)

lemma scan_simps [simp]:
  "ReceiverAddress (scan_cheque r) = receiver_address r" "SenderAddress (scan_cheque r) = sender_address r"
  "ChequeState (scan_cheque r) = state r" "ExpiresAt (scan_cheque r) = expires_at r" "ID (scan_cheque r) = row_id r"
  "LockTxHash (scan_cheque r) = coalesce_empty (lock_tx_hash r)" "ChainVerified (scan_cheque r) = None"
  by (simp_all add: scan_cheque_def)

lemma SetLockTxHash_no_faults:
  assumes "healthy_db db"
  shows "\<exists>d. SetLockTxHash x h db = (Inr (), d) \<and> healthy_db d \<and> cheque_state d = cheque_state db"
proof -
  let ?u = "update_cheques (\<lambda>r. row_id r = x) (\<lambda>r. r\<lparr>lock_tx_hash := Some h\<rparr>)"
  obtain n d where u: "?u db = Inr (n, d)" by (simp add: update_cheques_def)
  then have d: "SetLockTxHash x h db = (Inr (), d)"
    using assms by (simp add: SetLockTxHash_def exec_no_faults healthy_db_def)
  have "ledger_inv d"
    using assms ledger_inv_step [OF _ step_lock_hash [OF u]] by (simp add: healthy_db_def)
  moreover have "faults d = []" using u assms by (auto simp: update_cheques_def healthy_db_def)
  moreover have "cheque_state d = cheque_state db"
  proof (rule ext)
    fix y
    let ?g = "\<lambda>r. if row_id r = x then r\<lparr>lock_tx_hash := Some h, updated_at := db_clock db\<rparr> else r"
    have "find (\<lambda>r. row_id r = y) (map ?g (cheques db)) = map_option ?g (find (\<lambda>r. row_id r = y) (cheques db))"
      by (rule find_map_other) simp
    moreover have "cheques d = map ?g (cheques db)" using u by (auto simp: update_cheques_def)
    ultimately show "cheque_state d y = cheque_state db y"
      by (cases "find (\<lambda>r. row_id r = y) (cheques db)") (simp_all add: cheque_state_def)
  qed
  ultimately show ?thesis using d by (auto simp: healthy_db_def)
qed

lemma db_bind_Inr [simp]: "db_bind (Inr x, d) f = f x d" "db_bind (Inl e, d) f = (Inl e, d)"
  by (simp_all add: db_bind_def)

lemma MarkRefunded_state:
  assumes "healthy_db db" and "db_ready s"
  shows "fst (MarkRefunded s x h db) = Inr () \<and>
    cheque_state (snd (MarkRefunded s x h db)) =
      (if cheque_state db x \<in> {Some StateHavuzda, Some StateIadeEdilebilir}
       then (cheque_state db)(x \<mapsto> StateIadeEdildi) else cheque_state db)"
proof -
  have e: "(StateHavuzda, StateIadeEdilebilir) \<in> set edges" "(StateIadeEdilebilir, StateIadeEdildi) \<in> set edges"
    by simp_all
  obtain d1 where d1: "tolerate (Transition x StateHavuzda StateIadeEdilebilir ''scheduler_sweep'' [] db) = (Inr (), d1)"
    using repo_store.tolerated_move [OF assms(1) e(1)] by blast
  obtain d2 where d2: "tolerate (Transition x StateIadeEdilebilir StateIadeEdildi ''scheduler_sweep'' h d1) = (Inr (), d2)"
      "cheque_state d2 = (if cheque_state db x = Some StateHavuzda \<or> cheque_state db x = Some StateIadeEdilebilir
         then (cheque_state db)(x \<mapsto> StateIadeEdildi) else cheque_state db)"
    using repo_store.two_moves [OF assms(1) e, of x "''scheduler_sweep''" "[]" "''scheduler_sweep''" h] d1
    by auto
  then show ?thesis using assms(2) d1 by (simp add: MarkRefunded_def)
qed

lemma AcknowledgeReceipt_state:
  assumes "healthy_db db" and "db_ready s" and "find (\<lambda>r. row_id r = x) (cheques db) = Some row"
  shows "fst (AcknowledgeReceipt s x (receiver_address row) db) = Inr () \<and>
    cheque_state (snd (AcknowledgeReceipt s x (receiver_address row) db)) =
      (if cheque_state db x \<in> {Some StateTalepEdildi, Some StateOnaylandi}
       then (cheque_state db)(x \<mapsto> StateKapandi) else cheque_state db)"
proof -
  have e: "(StateTalepEdildi, StateOnaylandi) \<in> set edges" "(StateOnaylandi, StateKapandi) \<in> set edges"
    by simp_all
  obtain d where d: "db_bind (tolerate (Transition x StateTalepEdildi StateOnaylandi ''user_action'' [] db))
        (\<lambda>_ d1. tolerate (Transition x StateOnaylandi StateKapandi ''user_action'' [] d1)) = (Inr (), d)"
      "cheque_state d = (if cheque_state db x = Some StateTalepEdildi \<or> cheque_state db x = Some StateOnaylandi
         then (cheque_state db)(x \<mapsto> StateKapandi) else cheque_state db)"
    using repo_store.two_moves [OF assms(1) e, of x "''user_action''" "[]" "''user_action''" "[]"] by auto
  then show ?thesis
    using getCheque_no_faults [OF _ assms(2,3)] assms(1) by (simp add: AcknowledgeReceipt_def healthy_db_def)
qed

lemma single_confirm:
  assumes "healthy_db d" and "(f, t) \<in> set edges" and "\<And>d. cheque_state (g d) = cheque_state d"
  shows "\<exists>d'. (case Transition x f t cs h d of
            (Inl e, d) \<Rightarrow> if errors_Is e ErrBadTransitionInRepo then (Inr (), d) else (Inl e, d)
          | (Inr _, d) \<Rightarrow> (Inr (), g d)) = (Inr (), d') \<and>
     cheque_state d' = (if cheque_state d x = Some f then (cheque_state d)(x \<mapsto> t) else cheque_state d)"
proof (cases "cheque_state d x = Some f")
  case True
  from repo_store.move_enabled [OF assms(1,2) True, of cs h] obtain d' where
    "Transition x f t cs h d = (Inr (), d')" "cheque_state d' = (cheque_state d)(x \<mapsto> t)" by blast
  with True assms(3) show ?thesis by simp
next
  case False
  from repo_store.move_refused [OF assms(1,2) False] False show ?thesis
    by (simp add: ErrBadTransitionInRepo_def)
qed

lemma ConfirmLock_state:
  assumes "healthy_db db" and "db_ready s" and "find (\<lambda>r. row_id r = x) (cheques db) = Some row"
  shows "fst (ConfirmLock s x (sender_address row) h db) = Inr () \<and>
    cheque_state (snd (ConfirmLock s x (sender_address row) h db)) =
      (if cheque_state db x = Some StateImzaliRezerve then (cheque_state db)(x \<mapsto> StateHavuzda) else cheque_state db)"
proof -
  obtain d where d: "SetLockTxHash x h db = (Inr (), d)" "healthy_db d" "cheque_state d = cheque_state db"
    using SetLockTxHash_no_faults [OF assms(1)] by blast
  show ?thesis
    using single_confirm [OF d(2), of StateImzaliRezerve StateHavuzda "audit (sender_address row) ''cheque.lock_confirmed''
        [(''chequeId'', x), (''txHash'', h)]" x "''user_action''" h] d
      getCheque_no_faults [OF _ assms(2,3)] assms(1)
    by (auto simp: ConfirmLock_def healthy_db_def)
qed

lemma ConfirmClaim_state:
  assumes "healthy_db db" and "db_ready s" and "find (\<lambda>r. row_id r = x) (cheques db) = Some row"
  shows "fst (ConfirmClaim s x (receiver_address row) h db) = Inr () \<and>
    cheque_state (snd (ConfirmClaim s x (receiver_address row) h db)) =
      (if cheque_state db x = Some StateHavuzda then (cheque_state db)(x \<mapsto> StateTalepEdildi) else cheque_state db)"
  using single_confirm [OF assms(1), of StateHavuzda StateTalepEdildi "audit (receiver_address row) ''cheque.claimed''
        [(''chequeId'', x), (''txHash'', h)]" x "''user_action''" h]
    getCheque_no_faults [OF _ assms(2,3)] assms(1)
  by (auto simp: ConfirmClaim_def healthy_db_def)

lemma ConfirmForceCollect_state:
  assumes "healthy_db db" and "db_ready s" and "find (\<lambda>r. row_id r = x) (cheques db) = Some row"
  shows "fst (ConfirmForceCollect s x (receiver_address row) h collected db) = Inr () \<and>
    cheque_state (snd (ConfirmForceCollect s x (receiver_address row) h collected db)) =
      (if cheque_state db x = Some StateZorlaTahsilDenendi
       then (cheque_state db)(x \<mapsto> (if collected then StateKapandi else StateKarsiliksiz)) else cheque_state db)"
proof -
  have e: "(StateZorlaTahsilDenendi, if collected then StateKapandi else StateKarsiliksiz) \<in> set edges" by simp
  obtain d where "tolerate (Transition x StateZorlaTahsilDenendi (if collected then StateKapandi else StateKarsiliksiz)
        ''user_action'' h db) = (Inr (), d)"
      "cheque_state d = (if cheque_state db x = Some StateZorlaTahsilDenendi
       then (cheque_state db)(x \<mapsto> (if collected then StateKapandi else StateKarsiliksiz)) else cheque_state db)"
    using repo_store.tolerated_move [OF assms(1) e, of x "''user_action''" h] by blast
  then show ?thesis
    using getCheque_no_faults [OF _ assms(2,3)] assms(1) by (simp add: ConfirmForceCollect_def healthy_db_def)
qed

section \<open>Repairing a claim from the chain\<close>

text \<open>\<open>ClaimXDR\<close> of the right receiver on a cheque the database still has as reserved.\<close>

lemma ClaimXDR_reserved:
  fixes out :: outside
  assumes "healthy_db db" and "db_ready s" and "find (\<lambda>r. row_id r = x) (cheques db) = Some row"
    and "state row = StateImzaliRezerve" and "GetAccount (chain s) (receiver_address row) = Inr acc"
  defines "claim \<equiv> ClaimXDR s out x (receiver_address row) db"
    and "rec \<equiv> chainChequeRecord s (scan_cheque row) (acc_Sequence acc)"
  shows "rec = None \<Longrightarrow> claim = (Inl errTerminalState, db)"
    and "rec = Some None \<Longrightarrow> claim = (Inl errNotFunded, db)"
    and "rec = Some (Some v) \<Longrightarrow> v_State v = ''Funded'' \<Longrightarrow>
      fst claim = buildClaim s out x (receiver_address row) (scan_cheque row) (acc_Sequence acc) \<and>
      cheque_state (snd claim) = (cheque_state db)(x \<mapsto> StateHavuzda)"
    and "rec = Some (Some v) \<Longrightarrow> v_State v = ''Claimed'' \<Longrightarrow>
      fst claim = Inl errAlreadyClaimed \<and> cheque_state (snd claim) = (cheque_state db)(x \<mapsto> StateTalepEdildi)"
    and "rec = Some (Some v) \<Longrightarrow> v_State v \<noteq> ''Funded'' \<Longrightarrow> v_State v \<noteq> ''Claimed'' \<Longrightarrow>
      claim = (Inl errNotFunded, db)"
proof -
  have get: "getCheque s x db = (Inr (scan_cheque row), db)"
    using getCheque_no_faults [OF _ assms(2,3)] assms(1) by (simp add: healthy_db_def)
  have st: "cheque_state db x = Some StateImzaliRezerve" using assms(3,4) by (simp add: cheque_state_def)
  have claim: "claim = (case rec of
        None \<Rightarrow> (Inl errTerminalState, db)
      | Some None \<Rightarrow> (Inl errNotFunded, db)
      | Some (Some r) \<Rightarrow>
          if v_State r = ''Funded''
          then db_bind (tolerate (Transition x StateImzaliRezerve StateHavuzda ''chain_verified''
                  (coalesce_empty (lock_tx_hash row)) db)) (\<lambda>_ db2.
                 (buildClaim s out x (receiver_address row) (scan_cheque row) (acc_Sequence acc),
                  audit (receiver_address row) ''cheque.lock_repaired_from_chain'' [(''chequeId'', x)] db2))
          else if v_State r = ''Claimed''
          then db_bind (tolerate (Transition x StateImzaliRezerve StateTalepEdildi ''chain_verified''
                  (coalesce_empty (lock_tx_hash row)) db)) (\<lambda>_ db2. (Inl errAlreadyClaimed, db2))
          else (Inl errNotFunded, db))"
    unfolding claim_def rec_def ClaimXDR_def get by (simp add: assms(4,5) map_err_def Let_def split: option.split)
  show "rec = None \<Longrightarrow> claim = (Inl errTerminalState, db)"
    "rec = Some None \<Longrightarrow> claim = (Inl errNotFunded, db)"
    "rec = Some (Some v) \<Longrightarrow> v_State v \<noteq> ''Funded'' \<Longrightarrow> v_State v \<noteq> ''Claimed'' \<Longrightarrow> claim = (Inl errNotFunded, db)"
    by (simp_all add: claim)
  let ?h = "coalesce_empty (lock_tx_hash row)"
  show "fst claim = buildClaim s out x (receiver_address row) (scan_cheque row) (acc_Sequence acc) \<and>
      cheque_state (snd claim) = (cheque_state db)(x \<mapsto> StateHavuzda)"
    if "rec = Some (Some v)" "v_State v = ''Funded''"
    using that repo_store.tolerated_move [OF assms(1), of StateImzaliRezerve StateHavuzda x "''chain_verified''" ?h] st
    by (auto simp: claim)
  show "fst claim = Inl errAlreadyClaimed \<and> cheque_state (snd claim) = (cheque_state db)(x \<mapsto> StateTalepEdildi)"
    if "rec = Some (Some v)" "v_State v = ''Claimed''"
    using that repo_store.tolerated_move [OF assms(1), of StateImzaliRezerve StateTalepEdildi x "''chain_verified''" ?h] st
    by (auto simp: claim)
qed

section \<open>The pool cache\<close>

definition pool_amount :: "pay_db \<Rightarrow> string \<Rightarrow> int option" where
  "pool_amount db owner = map_option pl_amount_raw (find (\<lambda>p. owner_address p = owner) (pool_deposits db))"

lemma find_owner_map:
  fixes f :: "pool_row \<Rightarrow> pool_row"
  assumes "\<And>p. owner_address (f p) = owner_address p"
  shows "find (\<lambda>p. owner_address p = owner) (map f ps) = map_option f (find (\<lambda>p. owner_address p = owner) ps)"
  by (rule find_map_other) (simp add: assms)

lemma find_None_key: "find (\<lambda>p. f p = x) ps = None \<longleftrightarrow> x \<notin> f ` set ps"
  by (auto simp: find_None_iff)

text \<open>The effect of an upsert on the amounts of all owners.\<close>

lemma upsert_pool_amount:
  assumes "upsert_pool owner a new upd db = Inr ((), d)" and "bigint_SetString a = Some amt"
    and "\<And>amt. owner_address (new amt) = owner" and "\<And>amt r. owner_address (upd amt r) = owner_address r"
  shows "pool_amount d = (pool_amount db)(owner \<mapsto>
     (case find (\<lambda>p. owner_address p = owner) (pool_deposits db) of
        None \<Rightarrow> pl_amount_raw (new amt) | Some p \<Rightarrow> pl_amount_raw (upd amt p)))"
proof (rule ext)
  fix y
  let ?find = "\<lambda>y. find (\<lambda>p. owner_address p = y) (pool_deposits db)"
  show "pool_amount d y = ((pool_amount db)(owner \<mapsto>
     (case ?find owner of None \<Rightarrow> pl_amount_raw (new amt) | Some p \<Rightarrow> pl_amount_raw (upd amt p)))) y"
  proof (cases "?find owner")
    case None
    then have "\<not> list_ex (\<lambda>r. owner_address r = owner) (pool_deposits db)" by (simp add: find_None_key list_ex_key)
    with assms(1,2) have "d = db\<lparr>pool_deposits := pool_deposits db @ [new amt]\<rparr>"
      by (auto simp: upsert_pool_def split: if_splits)
    with None assms(3) show ?thesis by (auto simp: pool_amount_def find_append split: option.splits)
  next
    case (Some p)
    then have "list_ex (\<lambda>r. owner_address r = owner) (pool_deposits db)"
      by (auto simp: list_ex_iff dest: find_SomeD)
    with assms(1,2) have d: "pool_deposits d = map (\<lambda>r. if owner_address r = owner then upd amt r else r) (pool_deposits db)"
      by (auto simp: upsert_pool_def split: if_splits)
    have "find (\<lambda>p. owner_address p = y) (pool_deposits d) =
        map_option (\<lambda>r. if owner_address r = owner then upd amt r else r) (?find y)"
      unfolding d by (rule find_owner_map) (simp add: assms(4))
    then show ?thesis using Some
      by (cases "?find y") (auto simp: pool_amount_def dest: find_SomeD)
  qed
qed

lemma upsert_pool_ok:
  assumes "length owner \<le> 56" and "bigint_SetString a = Some amt" and "numeric_40_0 amt"
    and "\<And>r. r \<in> set (pool_deposits db) \<Longrightarrow> owner_address r = owner \<Longrightarrow> numeric_40_0 (pl_amount_raw (upd amt r))"
  shows "\<exists>d. upsert_pool owner a new upd db = Inr ((), d)"
proof -
  have "\<not> list_ex (\<lambda>r. owner_address r = owner \<and> \<not> numeric_40_0 (pl_amount_raw (upd amt r))) (pool_deposits db)"
    using assms(4) by (auto simp: list_ex_iff)
  then show ?thesis
    using assms(1-3)
    by (cases "list_ex (\<lambda>r. owner_address r = owner) (pool_deposits db)") (simp_all add: upsert_pool_def)
qed

lemma debit_pool_amount:
  assumes "debit_pool owner a db = Inr (n, d)" and "bigint_SetString a = Some amt"
  shows "pool_amount d = (case pool_amount db owner of None \<Rightarrow> pool_amount db
           | Some v \<Rightarrow> (pool_amount db)(owner \<mapsto> max (v - amt) 0))"
    and "n = 0 \<longleftrightarrow> pool_amount db owner = None"
proof -
  let ?g = "\<lambda>r. if owner_address r = owner
     then r\<lparr>pl_amount_raw := max (pl_amount_raw r - amt) 0, pl_updated_at := db_clock db\<rparr> else r"
  let ?find = "\<lambda>y. find (\<lambda>p. owner_address p = y) (pool_deposits db)"
  have d: "pool_deposits d = map ?g (pool_deposits db)"
    and n: "n = length (filter (\<lambda>r. owner_address r = owner) (pool_deposits db))"
    using assms by (auto simp: debit_pool_def split: if_splits)
  show "n = 0 \<longleftrightarrow> pool_amount db owner = None"
    by (auto simp: n pool_amount_def filter_empty_conv find_None_iff)
  show "pool_amount d = (case pool_amount db owner of None \<Rightarrow> pool_amount db
           | Some v \<Rightarrow> (pool_amount db)(owner \<mapsto> max (v - amt) 0))"
  proof (rule ext)
    fix y
    have "find (\<lambda>p. owner_address p = y) (pool_deposits d) = map_option ?g (?find y)"
      unfolding d by (rule find_owner_map) simp
    then show "pool_amount d y = (case pool_amount db owner of None \<Rightarrow> pool_amount db
           | Some v \<Rightarrow> (pool_amount db)(owner \<mapsto> max (v - amt) 0)) y"
      by (cases "?find y"; cases "?find owner") (auto simp: pool_amount_def dest: find_SomeD)
  qed
qed

lemma DecodeScI128_range: "DecodeScI128 v = Inr n \<Longrightarrow> - (2 ^ 127) \<le> n \<and> n < 2 ^ 127"
proof -
  assume a: "DecodeScI128 v = Inr n"
  then obtain hi lo where v: "v = ScvI128 hi lo" by (auto simp: DecodeScI128_def split: ScVal.splits)
  then have n: "n = sint hi * 2 ^ 64 + uint lo" using a DecodeScI128_value [of hi lo] by simp
  have "- (2 ^ 63) \<le> sint hi" "sint hi \<le> 2 ^ 63 - 1"
    using sint_greater_eq [of hi] sint_less [of hi] by simp_all
  then have "- (2 ^ 63) * 2 ^ 64 \<le> sint hi * 2 ^ 64" "sint hi * 2 ^ 64 \<le> (2 ^ 63 - 1) * 2 ^ 64"
    by (intro mult_right_mono; simp)+
  moreover have "0 \<le> uint lo" and "uint lo < 2 ^ 64" using uint_lt2p [of lo] by simp_all
  moreover have "- (2 ^ 127) = - (2 ^ 63) * (2 ^ 64 :: int)" "2 ^ 127 = (2 ^ 63 - 1) * (2 ^ 64 :: int) + 2 ^ 64" by simp_all
  ultimately show ?thesis unfolding n by linarith
qed

lemma DecodePoolRecord_range:
  "DecodePoolRecord k v = Inr (Some p) \<Longrightarrow> - (2 ^ 127) \<le> p_Amount p \<and> p_Amount p < 2 ^ 127"
  by (auto simp: DecodePoolRecord_def decode_field_def res_bind_Inr dest!: DecodeScI128_range
      split: option.splits sum.splits)

lemma chain_read_Some: "chain_read s a b c q decode = Some rec \<Longrightarrow> \<exists>v. decode v = Inr rec"
  by (auto simp: chain_read_def split: sum.splits if_splits)

definition chain_amount :: "PoolRecordView option \<Rightarrow> int" where
  "chain_amount rec = (case rec of None \<Rightarrow> 0 | Some r \<Rightarrow> p_Amount r)"

lemma chain_amount_fits: "chainPoolRecord s owner q = Some rec \<Longrightarrow> numeric_40_0 (chain_amount rec)"
proof -
  assume "chainPoolRecord s owner q = Some rec"
  then obtain v where "DecodePoolRecord (svc_sdk s) v = Inr rec"
    unfolding chainPoolRecord_def by (blast dest: chain_read_Some)
  then have "- (2 ^ 127) \<le> chain_amount rec \<and> chain_amount rec < 2 ^ 127"
    by (cases rec) (auto simp: chain_amount_def dest: DecodePoolRecord_range)
  then show ?thesis by (simp add: numeric_40_0_def abs_less_iff)
qed

lemma SetPoolAmount_no_faults:
  assumes "faults db = []" and "length owner \<le> 56" and "numeric_40_0 n"
  shows "\<exists>d. SetPoolAmount owner (bigint_String n) decs db = (Inr (), d) \<and> pool_amount d = (pool_amount db)(owner \<mapsto> n)"
proof -
  let ?new = "\<lambda>amt. \<lparr>owner_address = owner, pl_amount_raw = amt, pl_decimals = decs, last_deposit_ledger = None,
     last_deposit_at = None, pl_ledger_seq = Some 0, pl_updated_at = db_clock db\<rparr>"
  let ?upd = "\<lambda>amt r. r\<lparr>pl_amount_raw := amt, pl_decimals := decs, pl_updated_at := db_clock db\<rparr>"
  obtain d where d: "upsert_pool owner (bigint_String n) ?new ?upd db = Inr ((), d)"
    using upsert_pool_ok [of owner "bigint_String n" n db ?upd ?new] assms by auto
  have "pool_amount d = (pool_amount db)(owner \<mapsto> n)"
    using upsert_pool_amount [OF d, of n] by (simp split: option.split)
  then show ?thesis using d assms(1) by (simp add: SetPoolAmount_def Let_def exec_no_faults)
qed

section \<open>Properties\<close>

text \<open>What \<open>SetLockTxHash\<close> leaves: the hash and the time of the update, in whatever state the cheque is.\<close>

definition hash_set :: "string \<Rightarrow> string \<Rightarrow> pay_db \<Rightarrow> pay_db" where
  "hash_set x h db = db\<lparr>cheques := map (\<lambda>r. if row_id r = x then r\<lparr>lock_tx_hash := Some h, updated_at := db_clock db\<rparr> else r) (cheques db)\<rparr>"

lemma hash_set_healthy:
  assumes "healthy_db db"
  shows "SetLockTxHash x h db = (Inr (), hash_set x h db)" and "healthy_db (hash_set x h db)"
    and "cheque_state (hash_set x h db) = cheque_state db"
proof -
  show s: "SetLockTxHash x h db = (Inr (), hash_set x h db)"
    using assms by (simp add: SetLockTxHash_def update_cheques_def exec_no_faults healthy_db_def hash_set_def Let_def)
  show "healthy_db (hash_set x h db)" "cheque_state (hash_set x h db) = cheque_state db"
    using SetLockTxHash_no_faults [OF assms, of x h] by (auto simp: s)
qed

lemma Transition_healthy:
  assumes "healthy_db db" and "(f, t) \<in> set edges"
  shows "Transition x f t cs h db =
      (if cheque_state db x = Some f then (Inr (), moved x f t cs h db) else (Inl ErrBadTransitionInRepo, db))"
    and "tolerate (Transition x f t cs h db) = (Inr (), if cheque_state db x = Some f then moved x f t cs h db else db)"
    and "cheque_state db x = Some f \<Longrightarrow> healthy_db (moved x f t cs h db)"
proof -
  show T: "Transition x f t cs h db =
      (if cheque_state db x = Some f then (Inr (), moved x f t cs h db) else (Inl ErrBadTransitionInRepo, db))"
    using assms Transition_no_faults [of db f t x cs h] by (simp add: healthy_db_def cheque_state_Some)
  then show "tolerate (Transition x f t cs h db) = (Inr (), if cheque_state db x = Some f then moved x f t cs h db else db)"
    by (simp add: tolerate_def ErrBadTransitionInRepo_def)
  show "healthy_db (moved x f t cs h db)" if "cheque_state db x = Some f"
    using repo_store.move_enabled [OF assms that, of cs h] that by (auto simp: T)
qed

text \<open>
  C6. What the confirmations do, exactly, on a reachable database with a healthy connection. A caller who is not
  the party of the confirmation gets "not found" and nothing changes. Called by the right party, each
  confirmation succeeds; in its source state it applies its transition (state, log entry, reservation when the new
  state is terminal) and, for a lock or a claim, writes an audit row; \<open>AcknowledgeReceipt\<close> and \<open>MarkRefunded\<close> apply
  two transitions, or the second one when the first was made before. In any other state \<open>ConfirmClaim\<close>
  and \<open>AcknowledgeReceipt\<close> change nothing at all, and \<open>ConfirmForceCollect\<close> and \<open>MarkRefunded\<close> only add their audit
  row. \<open>ConfirmLock\<close> is different: it stores the hash it is given, and the time, on the row of a cheque in any
  state, also of a closed one, before it looks at the state.
\<close>

theorem confirmations_effect:
  assumes "reach empty_db repo_step db" and "faults db = []" and "db_ready s"
    and "find (\<lambda>r. row_id r = x) (cheques db) = Some row"
  shows "ConfirmLock s x caller h db =
      (if caller \<noteq> sender_address row then (Inl errNotFound, db)
       else (Inr (), if state row = StateImzaliRezerve
         then audit caller ''cheque.lock_confirmed'' [(''chequeId'', x), (''txHash'', h)]
                (moved x StateImzaliRezerve StateHavuzda ''user_action'' h (hash_set x h db))
         else hash_set x h db)) \<and>
    ConfirmClaim s x caller h db =
      (if caller \<noteq> receiver_address row then (Inl errNotFound, db)
       else (Inr (), if state row = StateHavuzda
         then audit caller ''cheque.claimed'' [(''chequeId'', x), (''txHash'', h)]
                (moved x StateHavuzda StateTalepEdildi ''user_action'' h db)
         else db)) \<and>
    AcknowledgeReceipt s x caller db =
      (if caller \<noteq> receiver_address row then (Inl errNotFound, db)
       else (Inr (), if state row = StateTalepEdildi
         then moved x StateOnaylandi StateKapandi ''user_action'' [] (moved x StateTalepEdildi StateOnaylandi ''user_action'' [] db)
         else if state row = StateOnaylandi then moved x StateOnaylandi StateKapandi ''user_action'' [] db else db)) \<and>
    ConfirmForceCollect s x caller h collected db =
      (if caller \<noteq> receiver_address row then (Inl errNotFound, db)
       else (Inr (), audit caller ''cheque.force_collect_confirmed''
              [(''chequeId'', x), (''txHash'', h), (''collected'', if collected then ''true'' else ''false'')]
              (if state row = StateZorlaTahsilDenendi
               then moved x StateZorlaTahsilDenendi (if collected then StateKapandi else StateKarsiliksiz) ''user_action'' h db
               else db))) \<and>
    MarkRefunded s x h db =
      (Inr (), audit ''system'' ''cheque.refunded'' [(''chequeId'', x), (''txHash'', h)]
        (if state row = StateHavuzda
         then moved x StateIadeEdilebilir StateIadeEdildi ''scheduler_sweep'' h
                (moved x StateHavuzda StateIadeEdilebilir ''scheduler_sweep'' [] db)
         else if state row = StateIadeEdilebilir then moved x StateIadeEdilebilir StateIadeEdildi ''scheduler_sweep'' h db
         else db))"
proof -
  have h: "healthy_db db" using ledger.inv_reach [OF assms(1)] assms(2) by (simp add: healthy_db_def)
  have st: "cheque_state db x = Some (state row)" using assms(4) by (simp add: cheque_state_def)
  note get = getCheque_no_faults [OF assms(2-4)]
  have two: "db_bind (tolerate (Transition x f t c1 h1 db)) (\<lambda>_ d. tolerate (Transition x t u c2 h2 d)) =
      (Inr (), if state row = f then moved x t u c2 h2 (moved x f t c1 h1 db) else if state row = t then moved x t u c2 h2 db else db)"
    if "(f, t) \<in> set edges" "(t, u) \<in> set edges" for f t u c1 h1 c2 h2
    using st that Transition_healthy(2,3) [OF h that(1), of x] cheque_state_moved [of db x f t]
      Transition_healthy(2) [OF h that(2), of x] Transition_healthy(2) [OF Transition_healthy(3) [OF h that(1)] that(2), of x]
    by (cases "state row = f") auto
  show ?thesis
  proof (intro conjI)
    show "ConfirmLock s x caller h db =
      (if caller \<noteq> sender_address row then (Inl errNotFound, db)
       else (Inr (), if state row = StateImzaliRezerve
         then audit caller ''cheque.lock_confirmed'' [(''chequeId'', x), (''txHash'', h)]
                (moved x StateImzaliRezerve StateHavuzda ''user_action'' h (hash_set x h db))
         else hash_set x h db))"
      using st hash_set_healthy [OF h, of x h]
        Transition_healthy(1) [OF hash_set_healthy(2) [OF h], of StateImzaliRezerve StateHavuzda x "''user_action''" h x h]
      by (simp add: ConfirmLock_def get ErrBadTransitionInRepo_def)
    show "ConfirmClaim s x caller h db =
      (if caller \<noteq> receiver_address row then (Inl errNotFound, db)
       else (Inr (), if state row = StateHavuzda
         then audit caller ''cheque.claimed'' [(''chequeId'', x), (''txHash'', h)]
                (moved x StateHavuzda StateTalepEdildi ''user_action'' h db)
         else db))"
      using st Transition_healthy(1) [OF h, of StateHavuzda StateTalepEdildi x "''user_action''" h]
      by (simp add: ConfirmClaim_def get ErrBadTransitionInRepo_def)
    show "AcknowledgeReceipt s x caller db =
      (if caller \<noteq> receiver_address row then (Inl errNotFound, db)
       else (Inr (), if state row = StateTalepEdildi
         then moved x StateOnaylandi StateKapandi ''user_action'' [] (moved x StateTalepEdildi StateOnaylandi ''user_action'' [] db)
         else if state row = StateOnaylandi then moved x StateOnaylandi StateKapandi ''user_action'' [] db else db))"
      by (simp add: AcknowledgeReceipt_def get two)
    show "ConfirmForceCollect s x caller h collected db =
      (if caller \<noteq> receiver_address row then (Inl errNotFound, db)
       else (Inr (), audit caller ''cheque.force_collect_confirmed''
              [(''chequeId'', x), (''txHash'', h), (''collected'', if collected then ''true'' else ''false'')]
              (if state row = StateZorlaTahsilDenendi
               then moved x StateZorlaTahsilDenendi (if collected then StateKapandi else StateKarsiliksiz) ''user_action'' h db
               else db)))"
      using st Transition_healthy(2) [OF h, of StateZorlaTahsilDenendi "if collected then StateKapandi else StateKarsiliksiz" x "''user_action''" h]
      by (auto simp: ConfirmForceCollect_def get)
    have "MarkRefunded s x h db = db_bind (db_bind (tolerate (Transition x StateHavuzda StateIadeEdilebilir ''scheduler_sweep'' [] db))
        (\<lambda>_ d. tolerate (Transition x StateIadeEdilebilir StateIadeEdildi ''scheduler_sweep'' h d)))
        (\<lambda>_ d. (Inr (), audit ''system'' ''cheque.refunded'' [(''chequeId'', x), (''txHash'', h)] d))"
      using assms(3) by (auto simp: MarkRefunded_def db_bind_def split: prod.splits sum.splits)
    then show "MarkRefunded s x h db =
      (Inr (), audit ''system'' ''cheque.refunded'' [(''chequeId'', x), (''txHash'', h)]
        (if state row = StateHavuzda
         then moved x StateIadeEdilebilir StateIadeEdildi ''scheduler_sweep'' h
                (moved x StateHavuzda StateIadeEdilebilir ''scheduler_sweep'' [] db)
         else if state row = StateIadeEdilebilir then moved x StateIadeEdilebilir StateIadeEdildi ''scheduler_sweep'' h db
         else db))"
      by (simp add: two)
  qed
qed

theorem confirmations_effect_witness:
  "ConfirmClaim (ex_service ScvVoid) (ID ex_cheque) ''GB'' ''h'' ex_db1 = (Inr (), ex_db1) \<and>
   ConfirmLock (ex_service ScvVoid) (ID ex_cheque) ''GA'' ''h'' ex_db1 =
     (Inr (), audit ''GA'' ''cheque.lock_confirmed'' [(''chequeId'', ID ex_cheque), (''txHash'', ''h'')]
        (moved (ID ex_cheque) StateImzaliRezerve StateHavuzda ''user_action'' ''h'' (hash_set (ID ex_cheque) ''h'' ex_db1)))"
proof -
  have "map (\<lambda>r. (row_id r, sender_address r, receiver_address r, state r)) (cheques ex_db1) =
      [(ID ex_cheque, ''GA'', ''GB'', StateImzaliRezerve)]" by code_simp
  then obtain r where r: "cheques ex_db1 = [r]" "row_id r = ID ex_cheque" "sender_address r = ''GA''" "receiver_address r = ''GB''"
      "state r = StateImzaliRezerve" by (auto simp: map_eq_Cons_conv)
  then have f: "find (\<lambda>r. row_id r = ID ex_cheque) (cheques ex_db1) = Some r" by simp
  have ready: "db_ready (ex_service ScvVoid)" by (simp add: ex_service_def)
  from confirmations_effect [OF ex_db1_reach ex_db1_rows(4) ready f, of "''GB''" "''h''" True]
    confirmations_effect [OF ex_db1_reach ex_db1_rows(4) ready f, of "''GA''" "''h''" True] r
  show ?thesis by auto
qed

text \<open>
  C8. A lost confirmation is repaired from the chain when the receiver claims: for a cheque the
  database still has as reserved, a chain record in state Funded moves it to HAVUZDA and the
  answer is the claim transaction (or its expiry); a record in state Claimed moves it to
  TALEP\_EDILDI and reports that it was already claimed; any other decoded answer says "not
  funded", and no readable answer refuses, both without touching the database.
\<close>

theorem ClaimXDR_repairs_from_chain:
  assumes "reach empty_db repo_step db" and "faults db = []" and "db_ready s"
    and "find (\<lambda>r. row_id r = x) (cheques db) = Some row" and "state row = StateImzaliRezerve"
    and "GetAccount (chain s) (receiver_address row) = Inr acc"
  shows "case chainChequeRecord s (scan_cheque row) (acc_Sequence acc) of
           None \<Rightarrow> ClaimXDR s out x (receiver_address row) db = (Inl errTerminalState, db)
         | Some None \<Rightarrow> ClaimXDR s out x (receiver_address row) db = (Inl errNotFunded, db)
         | Some (Some v) \<Rightarrow>
             if v_State v = ''Funded'' then
               \<exists>d. ClaimXDR s out x (receiver_address row) db =
                 (buildClaim s out x (receiver_address row) (scan_cheque row) (acc_Sequence acc), d) \<and>
                 cheque_state d = (cheque_state db)(x \<mapsto> StateHavuzda)
             else if v_State v = ''Claimed'' then
               \<exists>d. ClaimXDR s out x (receiver_address row) db = (Inl errAlreadyClaimed, d) \<and>
                 cheque_state d = (cheque_state db)(x \<mapsto> StateTalepEdildi)
             else ClaimXDR s out x (receiver_address row) db = (Inl errNotFunded, db)"
proof -
  have h: "healthy_db db" using ledger.inv_reach [OF assms(1)] assms(2) by (simp add: healthy_db_def)
  note c = ClaimXDR_reserved [OF h assms(3-6), where out = out]
  show ?thesis
  proof (cases "chainChequeRecord s (scan_cheque row) (acc_Sequence acc)")
    case None
    with c(1) show ?thesis by simp
  next
    case (Some rec)
    show ?thesis
    proof (cases rec)
      case None
      with Some c(2) show ?thesis by simp
    next
      case (Some v)
      with \<open>chainChequeRecord s (scan_cheque row) (acc_Sequence acc) = Some rec\<close> c(3-5) [of v] show ?thesis
        by (cases "ClaimXDR s out x (receiver_address row) db") auto
    qed
  qed
qed

definition ex_record :: "string \<Rightarrow> ScVal" where
  "ex_record st = ScvMap (Some [(ScvSymbol ''amount'', ScvI128 0 25), (ScvSymbol ''expires_at'', ScvU64 900),
     (ScvSymbol ''receiver'', ScvAddress (ScAddressAccount (string_bytes ''GB''))),
     (ScvSymbol ''sender'', ScvAddress (ScAddressAccount (string_bytes ''GA''))),
     (ScvSymbol ''state'', ScvVec (Some [ScvSymbol st])),
     (ScvSymbol ''token'', ScvAddress (ScAddressAccount (string_bytes ''GT'')))])"

theorem ClaimXDR_repairs_from_chain_witness:
  "\<exists>r d. ClaimXDR (ex_service (ex_record ''Funded'')) ex_outside (ID ex_cheque) ''GB'' ex_db1 = (r, d) \<and>
     cheque_state d (ID ex_cheque) = Some StateHavuzda"
proof -
  have "map (\<lambda>r. (row_id r, receiver_address r, state r)) (cheques ex_db1) =
      [(ID ex_cheque, ''GB'', StateImzaliRezerve)]" by code_simp
  then obtain r where r: "cheques ex_db1 = [r]" "row_id r = ID ex_cheque" "receiver_address r = ''GB''"
      "state r = StateImzaliRezerve" by (auto simp: map_eq_Cons_conv)
  then have f: "find (\<lambda>r. row_id r = ID ex_cheque) (cheques ex_db1) = Some r" by simp
  have ready: "db_ready (ex_service (ex_record ''Funded''))"
      "GetAccount (chain (ex_service (ex_record ''Funded''))) (receiver_address r) = Inr ex_account"
    by (simp_all add: ex_service_def ex_gateway_def)
  have "map_option (map_option v_State) (chainChequeRecord (ex_service (ex_record ''Funded''))
      (scan_cheque (hd (cheques ex_db1))) (acc_Sequence ex_account)) = Some (Some ''Funded'')" by code_simp
  with r obtain v where "chainChequeRecord (ex_service (ex_record ''Funded'')) (scan_cheque r)
      (acc_Sequence ex_account) = Some (Some v)" "v_State v = ''Funded''" by auto
  with ClaimXDR_repairs_from_chain [OF ex_db1_reach ex_db1_rows(4) ready(1) f r(4) ready(2), where out = ex_outside] r
  show ?thesis by auto
qed

text \<open>
  \<open>Sync\<close> heals the pool cache from the chain. When the contract's record of the owner can be
  read, the view that is returned says "verified" and shows the chain's amount (zero when there
  is no record), and afterwards the cached amount of the owner is that amount and every other
  owner's is as before; when it cannot be read, nothing is written and the view says
  "not checked". (\<open>pool\<close> is the cached view \<open>GetPool\<close> returned.)
\<close>

theorem reconcilePoolWithChain_heals:
  assumes "faults db = []" and "length owner \<le> 56" and "GetPool owner db = (Inr (pool, found), db)"
  shows "case chainPoolRecord s owner q of
           None \<Rightarrow> reconcilePoolWithChain s owner pool q db = (pool\<lparr>PoolChainVerified := None\<rparr>, db)
         | Some rec \<Rightarrow> \<exists>pool' db'. reconcilePoolWithChain s owner pool q db = (pool', db') \<and>
             PoolChainVerified pool' = Some True \<and> bigint_SetString (PoolAmountRaw pool') = Some (chain_amount rec) \<and>
             (pool_amount db' owner = Some (chain_amount rec) \<or> pool_amount db' owner = None \<and> chain_amount rec = 0) \<and>
             (\<forall>y. y \<noteq> owner \<longrightarrow> pool_amount db' y = pool_amount db y)"
proof (cases "chainPoolRecord s owner q")
  case None
  then show ?thesis by (simp add: reconcilePoolWithChain_def)
next
  case (Some rec)
  have cached: "bigint_SetString (PoolAmountRaw pool) = Some (case pool_amount db owner of None \<Rightarrow> 0 | Some v \<Rightarrow> v)"
  proof -
    have "bigint_SetString ''0'' = Some 0" using SetString_digits [of "''0''"] by (simp add: digit_simps)
    then show ?thesis
      using assms(1,3) by (auto simp: GetPool_def exec_no_faults pool_amount_def split: option.splits)
  qed
  show ?thesis
  proof (cases "bigint_SetString (PoolAmountRaw pool) = Some (chain_amount rec)")
    case True
    with Some cached show ?thesis
      by (auto simp: reconcilePoolWithChain_def Let_def chain_amount_def split: option.splits)
  next
    case False
    obtain d where "SetPoolAmount owner (bigint_String (chain_amount rec))
        (if PoolDecimals pool = 0 then cfg_Decimals (cfg s) else PoolDecimals pool) db = (Inr (), d)"
        "pool_amount d = (pool_amount db)(owner \<mapsto> chain_amount rec)"
      using SetPoolAmount_no_faults [OF assms(1,2) chain_amount_fits [OF Some]] by blast
    with False Some show ?thesis
      by (simp add: reconcilePoolWithChain_def Let_def chain_amount_def [symmetric])
  qed
qed

definition ex_pool_record :: ScVal where
  "ex_pool_record = ScvMap (Some [(ScvSymbol ''amount'', ScvI128 0 40), (ScvSymbol ''last_deposit_at'', ScvU64 7),
     (ScvSymbol ''token'', ScvAddress (ScAddressAccount (string_bytes ''GT'')))])"

theorem reconcilePoolWithChain_heals_witness:
  "\<exists>pool pool' db'. GetPool ''GA'' ex_db1 = (Inr (pool, False), ex_db1) \<and>
     reconcilePoolWithChain (ex_service ex_pool_record) ''GA'' pool 41 ex_db1 = (pool', db') \<and>
     pool_amount db' ''GA'' = Some 40"
proof -
  have "pool_deposits ex_db1 = []" by code_simp
  then obtain pool where pool: "GetPool ''GA'' ex_db1 = (Inr (pool, False), ex_db1)"
    using ex_db1_rows(4) by (simp add: GetPool_def exec_no_faults)
  have "map_option (map_option p_Amount) (chainPoolRecord (ex_service ex_pool_record) ''GA'' 41) = Some (Some 40)"
    by code_simp
  then obtain rec where "chainPoolRecord (ex_service ex_pool_record) ''GA'' 41 = Some rec" "chain_amount rec = 40"
    by (auto simp: chain_amount_def)
  with reconcilePoolWithChain_heals [OF ex_db1_rows(4) _ pool, of "ex_service ex_pool_record" 41] pool
  show ?thesis by auto
qed

text \<open>
  The cache arithmetic of the pool. With a healthy connection, a confirmed deposit adds
  exactly the parsed amount to the owner's cached amount (or starts it there), refused only
  when a sum would leave NUMERIC(40,0); a confirmed withdrawal subtracts it but never goes
  below zero, and succeeds without any cached row at all. No other owner's amount changes.
\<close>

theorem pool_confirmations:
  assumes "faults db = []" and "db_ready s" and "length owner \<le> 56"
    and "ParseAmount amountStr (service_asset s) (cfg_Decimals (cfg s)) = Inr amount" and "0 < Raw amount"
    and "\<bar>(case pool_amount db owner of None \<Rightarrow> 0 | Some v \<Rightarrow> v)\<bar> + Raw amount < 10 ^ 40"
    and "distinct (map owner_address (pool_deposits db))"
  shows "(\<exists>d. ConfirmPoolDeposit s owner amountStr l db = (Inr (), d) \<and>
            pool_amount d = (pool_amount db)(owner \<mapsto>
              (case pool_amount db owner of None \<Rightarrow> 0 | Some v \<Rightarrow> v) + Raw amount)) \<and>
         (\<exists>d. ConfirmPoolWithdraw s owner amountStr db = (Inr (), d) \<and>
            pool_amount d = (case pool_amount db owner of None \<Rightarrow> pool_amount db
              | Some v \<Rightarrow> (pool_amount db)(owner \<mapsto> max (v - Raw amount) 0)))"
proof
  have parse: "parse_positive s amountStr = Inr amount" using assms(4,5) by (simp add: parse_positive_def)
  have amt: "numeric_40_0 (Raw amount)" using assms(5,6) by (auto simp: numeric_40_0_def split: option.splits)
  have row: "pool_amount db owner = Some (pl_amount_raw r)"
    if "r \<in> set (pool_deposits db)" "owner_address r = owner" for r
    using find_distinct [OF assms(7) that(1)] that(2) by (simp add: pool_amount_def)
  show "\<exists>d. ConfirmPoolDeposit s owner amountStr l db = (Inr (), d) \<and>
            pool_amount d = (pool_amount db)(owner \<mapsto>
              (case pool_amount db owner of None \<Rightarrow> 0 | Some v \<Rightarrow> v) + Raw amount)"
  proof -
    let ?new = "\<lambda>amt. \<lparr>owner_address = owner, pl_amount_raw = amt, pl_decimals = cfg_Decimals (cfg s),
       last_deposit_ledger = Some l, last_deposit_at = Some (db_clock db), pl_ledger_seq = Some l,
       pl_updated_at = db_clock db\<rparr>"
    let ?upd = "\<lambda>amt r. r\<lparr>pl_amount_raw := pl_amount_raw r + amt, pl_decimals := cfg_Decimals (cfg s),
       last_deposit_ledger := Some l, last_deposit_at := Some (db_clock db), pl_ledger_seq := Some l,
       pl_updated_at := db_clock db\<rparr>"
    have "numeric_40_0 (pl_amount_raw (?upd (Raw amount) r))"
      if "r \<in> set (pool_deposits db)" "owner_address r = owner" for r
      using row [OF that] assms(5,6) by (auto simp: numeric_40_0_def)
    then obtain d where d: "upsert_pool owner (bigint_String (Raw amount)) ?new ?upd db = Inr ((), d)"
      using upsert_pool_ok [of owner "bigint_String (Raw amount)" "Raw amount" db ?upd ?new] assms(3) amt by auto
    have "pool_amount d = (pool_amount db)(owner \<mapsto>
              (case pool_amount db owner of None \<Rightarrow> 0 | Some v \<Rightarrow> v) + Raw amount)"
      using upsert_pool_amount [OF d, of "Raw amount"] by (auto simp: pool_amount_def split: option.split)
    then show ?thesis
      using d assms(1,2) parse by (simp add: ConfirmPoolDeposit_def RecordDeposit_def Let_def exec_no_faults)
  qed
  show "\<exists>d. ConfirmPoolWithdraw s owner amountStr db = (Inr (), d) \<and>
            pool_amount d = (case pool_amount db owner of None \<Rightarrow> pool_amount db
              | Some v \<Rightarrow> (pool_amount db)(owner \<mapsto> max (v - Raw amount) 0))"
  proof -
    have "\<not> list_ex (\<lambda>r. owner_address r = owner \<and> \<not> numeric_40_0 (max (pl_amount_raw r - Raw amount) 0)) (pool_deposits db)"
      using row assms(5,6) by (auto simp: list_ex_iff numeric_40_0_def)
    then obtain n d where d: "debit_pool owner (bigint_String (Raw amount)) db = Inr (n, d)"
      by (simp add: debit_pool_def)
    note e = debit_pool_amount(1) [OF d SetString_String]
    have "pool_amount (audit a b c d) = pool_amount d" for a b c by (simp add: pool_amount_def [abs_def])
    then show ?thesis
      using d e assms(1,2) parse
      by (auto simp: ConfirmPoolWithdraw_def RecordWithdraw_def Let_def exec_no_faults ErrNotFoundInRepo_def)
  qed
qed

theorem pool_confirmations_witness:
  "\<exists>d. ConfirmPoolDeposit (ex_service ScvVoid) ''GA'' ''25'' 9 ex_db1 = (Inr (), d) \<and> pool_amount d ''GA'' = Some 25"
proof -
  have e: "pool_deposits ex_db1 = []" by code_simp
  have p: "ParseAmount ''25'' (service_asset (ex_service ScvVoid)) (cfg_Decimals (cfg (ex_service ScvVoid))) =
      Inr ex_amount" by code_simp
  have none: "pool_amount ex_db1 ''GA'' = None" by (simp add: pool_amount_def e)
  have side: "db_ready (ex_service ScvVoid)" "length ''GA'' \<le> 56" "0 < Raw ex_amount"
    "\<bar>(case pool_amount ex_db1 ''GA'' of None \<Rightarrow> 0 | Some v \<Rightarrow> v)\<bar> + Raw ex_amount < 10 ^ 40"
    "distinct (map owner_address (pool_deposits ex_db1))"
    by (simp_all add: ex_service_def e ex_amount_def none)
  from pool_confirmations [OF ex_db1_rows(4) side(1,2) p side(3-5), of 9] none show ?thesis
    by (auto simp: ex_amount_def)
qed

lemma GetPool_same: "GetPool a db = (r, d) \<Longrightarrow> same_tables db d"
  unfolding GetPool_def by (auto split: prod.splits sum.splits option.splits dest: exec_read_same(1))

lemma ListActive_same: "ListActiveForAddress a db = (r, d) \<Longrightarrow> same_tables db d"
  unfolding ListActiveForAddress_def by (auto split: prod.splits sum.splits dest: exec_read_same(1))

lemma SetPoolAmount_other:
  assumes "SetPoolAmount owner a decs db = (r, d)"
  shows "cheques d = cheques db" and "reservations d = reservations db"
    and "cheque_transitions d = cheque_transitions db" and "y \<noteq> owner \<Longrightarrow> pool_amount d y = pool_amount db y"
proof -
  let ?new = "\<lambda>amt. \<lparr>owner_address = owner, pl_amount_raw = amt, pl_decimals = decs, last_deposit_ledger = None,
     last_deposit_at = None, pl_ledger_seq = Some 0, pl_updated_at = db_clock db\<rparr>"
  let ?upd = "\<lambda>amt r. r\<lparr>pl_amount_raw := amt, pl_decimals := decs, pl_updated_at := db_clock db\<rparr>"
  obtain u where u: "exec (upsert_pool owner a ?new ?upd) db = (u, d)"
    using assms by (auto simp: SetPoolAmount_def Let_def split: prod.splits sum.splits)
  have "d' = db \<or> (\<exists>ps. d' = db\<lparr>pool_deposits := ps\<rparr> \<and> (y \<noteq> owner \<longrightarrow> pool_amount d' y = pool_amount db y))"
    if up: "upsert_pool owner a ?new ?upd db = Inr (z, d')" for z d'
  proof -
    have z: "upsert_pool owner a ?new ?upd db = Inr ((), d')" using up by simp
    obtain amt where amt: "bigint_SetString a = Some amt"
      using up by (auto simp: upsert_pool_def split: option.splits)
    show ?thesis
      using upsert_pool_amount [OF z amt] up amt by (auto simp: upsert_pool_def split: if_splits)
  qed
  with exec_pure_cases [OF pure_upsert_pool u]
  show "cheques d = cheques db" "reservations d = reservations db" "cheque_transitions d = cheque_transitions db"
    "y \<noteq> owner \<Longrightarrow> pool_amount d y = pool_amount db y"
    by (fastforce dest!: same_tables_proj simp: pool_amount_def)+
qed

lemma reconcile_other:
  assumes "reconcilePoolWithChain s owner pool q db = (p, d)"
  shows "cheques d = cheques db \<and> reservations d = reservations db \<and>
    cheque_transitions d = cheque_transitions db \<and> (\<forall>y. y \<noteq> owner \<longrightarrow> pool_amount d y = pool_amount db y)"
  using assms unfolding reconcilePoolWithChain_def Let_def
  by (auto split: option.splits if_splits prod.splits sum.splits dest: SetPoolAmount_other)

lemma ListActive_Inr:
  assumes "ListActiveForAddress a db = (Inr cs, d)"
  shows "cs = map scan_cheque (take 200 (sort_key (\<lambda>r. - updated_at r)
           (filter (\<lambda>r. sender_address r = a \<or> receiver_address r = a) (cheques db))))"
proof -
  let ?q = "\<lambda>db. take 200 (sort_key (\<lambda>r. - updated_at r)
     (filter (\<lambda>r. sender_address r = a \<or> receiver_address r = a) (cheques db)))"
  obtain u d1 where u: "exec (\<lambda>db. Inr (?q db, db)) db = (u, d1)" by fastforce
  with assms obtain rows where rows: "u = Inr rows" "cs = map scan_cheque rows"
    by (auto simp: ListActiveForAddress_def split: sum.splits)
  from exec_read_same(2) [OF u rows(1)] obtain db1 where "same_tables db db1" "rows = ?q db1" by blast
  then show ?thesis using rows(2) same_tables_proj by simp
qed

text \<open>What every list of cheques that \<open>Sync\<close> returns satisfies.\<close>

definition view_ok :: "string \<Rightarrow> Cheque list \<Rightarrow> bool" where
  "view_ok address cs \<longleftrightarrow> length cs \<le> 200 \<and> sorted_wrt (\<lambda>a b. UpdatedAt a \<ge> UpdatedAt b) cs \<and>
     (\<forall>c \<in> set cs. (SenderAddress c = address \<or> ReceiverAddress c = address) \<and>
        (IsTerminal (ChequeState c) \<longrightarrow> ChainVerified c = None))"

lemma ListActive_view_ok:
  assumes "ListActiveForAddress a db = (Inr cs, d)"
  shows "view_ok a cs"
proof -
  let ?rows = "sort_key (\<lambda>r. - updated_at r) (filter (\<lambda>r. sender_address r = a \<or> receiver_address r = a) (cheques db))"
  have "sorted_wrt (\<lambda>x y. updated_at x \<ge> updated_at y) ?rows"
    using sorted_sort_key [of "\<lambda>r. - updated_at r"] by (simp add: sorted_map)
  then have "sorted_wrt (\<lambda>x y. updated_at x \<ge> updated_at y) (take 200 ?rows)" by (rule sorted_wrt_take)
  then show ?thesis
    unfolding view_ok_def ListActive_Inr [OF assms]
    by (auto simp: sorted_wrt_map scan_cheque_def dest: in_set_takeD)
qed

lemma verified_view_ok:
  assumes "view_ok a cs"
  shows "view_ok a (map (\<lambda>c. if IsTerminal (ChequeState c) then c else c\<lparr>ChainVerified := f c\<rparr>) cs)"
  using assms unfolding view_ok_def
  by (auto simp: sorted_wrt_map if_distrib split: if_splits elim!: sorted_wrt_mono_rel [rotated])

text \<open>
  \<open>Sync\<close> never changes a cheque, a reservation or the log, and of the pool cache at most the
  caller's own row, whatever fails. The cheques it returns are cheques of the caller, at most
  200, in order of their last update, and for each terminal one the chain is not asked.
\<close>

theorem Sync_effect:
  assumes "Sync s out address db = (r, db')"
  shows "cheques db' = cheques db \<and> reservations db' = reservations db \<and>
    cheque_transitions db' = cheque_transitions db \<and>
    (\<forall>y. y \<noteq> address \<longrightarrow> pool_amount db' y = pool_amount db y) \<and>
    (\<forall>view. r = Inr view \<longrightarrow>
       length (sv_Cheques view) \<le> 200 \<and>
       sorted_wrt (\<lambda>a b. UpdatedAt a \<ge> UpdatedAt b) (sv_Cheques view) \<and>
       (\<forall>c \<in> set (sv_Cheques view). (SenderAddress c = address \<or> ReceiverAddress c = address) \<and>
          (IsTerminal (ChequeState c) \<longrightarrow> ChainVerified c = None)))"
proof -
  define kept where "kept d \<longleftrightarrow> cheques d = cheques db \<and> reservations d = reservations db \<and>
    cheque_transitions d = cheque_transitions db \<and> (\<forall>y. y \<noteq> address \<longrightarrow> pool_amount d y = pool_amount db y)" for d
  have kept: "kept d" if "same_tables db d" for d
    using same_tables_proj [OF that] by (simp add: kept_def pool_amount_def)
  obtain rl d1 where l: "ListActiveForAddress address db = (rl, d1)" by fastforce
  obtain rp d2 where p: "GetPool address d1 = (rp, d2)" by fastforce
  note s1 = ListActive_same [OF l] and s2 = same_tables_trans [OF ListActive_same [OF l] GetPool_same [OF p]]
  have "kept db' \<and> (\<forall>view. r = Inr view \<longrightarrow> view_ok address (sv_Cheques view))"
  proof (cases "\<exists>view. r = Inr view")
    case False
    then have "db' = db \<or> db' = d1 \<or> db' = d2"
      using assms unfolding Sync_def l by (auto simp: p Let_def db_bind_def split: if_splits sum.splits prod.splits)
    with False show ?thesis using kept s1 s2 by auto
  next
    case True
    then obtain view cs pool found where v: "r = Inr view" "rl = Inr cs" "rp = Inr (pool, found)"
      using assms unfolding Sync_def l by (auto simp: p Let_def db_bind_def split: if_splits sum.splits prod.splits)
    have ok: "view_ok address cs" using ListActive_view_ok l v(2) by simp
    show ?thesis
    proof (cases "GetAccount (chain s) address")
      case (Inl e)
      then have "db' = d2" "sv_Cheques view = cs"
        using assms v unfolding Sync_def l by (auto simp: p db_bind_def split: if_splits sum.splits)
      then show ?thesis using kept [OF s2] ok v(1) by simp
    next
      case (Inr acc)
      obtain pool' d3 where rc: "reconcilePoolWithChain s address pool (acc_Sequence acc) d2 = (pool', d3)" by fastforce
      have "db' = d3" "sv_Cheques view = map (\<lambda>c. if IsTerminal (ChequeState c) then c
          else c\<lparr>ChainVerified := verifyChequeOnChain s c (acc_Sequence acc)\<rparr>) cs"
        using assms v Inr rc unfolding Sync_def l by (auto simp: p db_bind_def Let_def split: if_splits sum.splits)
      moreover have "kept d3" using reconcile_other [OF rc] kept [OF s2] by (simp add: kept_def)
      ultimately show ?thesis using verified_view_ok [OF ok] v(1) by simp
    qed
  qed
  then show ?thesis unfolding kept_def view_ok_def by blast
qed

theorem Sync_effect_witness:
  "cheques (snd (Sync (ex_service ex_pool_record) ex_outside ''GA'' ex_db1)) = cheques ex_db1"
  using Sync_effect [of "ex_service ex_pool_record" ex_outside "''GA''" ex_db1
      "fst (Sync (ex_service ex_pool_record) ex_outside ''GA'' ex_db1)"
      "snd (Sync (ex_service ex_pool_record) ex_outside ''GA'' ex_db1)"] by simp

lemma ScI128_Inr: "\<exists>v. ScI128 n = Inr v"
  by (simp add: ScI128_def Let_def)

text \<open>
  A withdrawal transaction is only handed out after the checks: a positive amount, an
  existing account with native headroom for the fee, a trustline where one is needed, and, when
  the contract's record can be read, at least that much in the pool. The call is
  \<open>withdraw(owner, amount)\<close> on the escrow contract from the owner's account, and whenever the
  record could be read the encoded amount is exactly the amount asked for.
\<close>

theorem PoolWithdrawXDR_checked:
  assumes "PoolWithdrawXDR s owner amountStr = Inr x"
  shows "\<exists>amount acc v w op.
    ParseAmount amountStr (service_asset s) (cfg_Decimals (cfg s)) = Inr amount \<and> 0 < Raw amount \<and>
    GetAccount (chain s) owner = Inr acc \<and> acc_Exists acc \<and> hasNativeFeeHeadroom acc \<and>
    (cfg_AssetCode (cfg s) \<noteq> ''native'' \<and> owner \<noteq> cfg_AssetIssuer (cfg s) \<longrightarrow>
       (\<exists>t. GetTrustline (chain s) owner (cfg_AssetCode (cfg s)) (cfg_AssetIssuer (cfg s)) = Inr t \<and> tl_Exists t)) \<and>
    ScAddress (svc_sdk s) owner = Inr v \<and> ScI128 (Raw amount) = Inr w \<and>
    InvokeContract (svc_sdk s) (EscrowContractID (cfg s)) owner ''withdraw'' [v, w] = Inr op \<and>
    assemble s owner (acc_Sequence acc) op = Inr x \<and>
    (\<forall>rec. chainPoolRecord s owner (acc_Sequence acc) = Some rec \<longrightarrow>
       (\<exists>r. rec = Some r \<and> Raw amount \<le> p_Amount r) \<and> DecodeScI128 w = Inr (Raw amount))"
proof -
  obtain amount where pp: "parse_positive s amountStr = Inr amount"
    using assms by (cases "parse_positive s amountStr") (simp_all add: PoolWithdrawXDR_def)
  obtain acc where pa: "poolAccount s owner = Inr acc"
    using assms pp by (cases "poolAccount s owner") (simp_all add: PoolWithdrawXDR_def)
  have rest: "hasNativeFeeHeadroom acc"
      "\<not> (case chainPoolRecord s owner (acc_Sequence acc) of None \<Rightarrow> False | Some None \<Rightarrow> True
           | Some (Some rec) \<Rightarrow> p_Amount rec < Raw amount)"
    and built: "res_bind (scArgs [ScAddress (svc_sdk s) owner, ScI128 (Raw amount)]) (\<lambda>withdrawArgs.
     res_bind (InvokeContract (svc_sdk s) (EscrowContractID (cfg s)) owner ''withdraw'' withdrawArgs) (\<lambda>op.
     assemble s owner (acc_Sequence acc) op)) = Inr x"
    using assms unfolding PoolWithdrawXDR_def pp pa res_bind_simps by (auto split: if_splits)
  have a: "ParseAmount amountStr (service_asset s) (cfg_Decimals (cfg s)) = Inr amount" "0 < Raw amount"
    using pp by (auto simp: parse_positive_def split: sum.splits if_splits)
  obtain w where w: "ScI128 (Raw amount) = Inr w" using ScI128_Inr by blast
  obtain v op where v: "ScAddress (svc_sdk s) owner = Inr v"
      "InvokeContract (svc_sdk s) (EscrowContractID (cfg s)) owner ''withdraw'' [v, w] = Inr op"
      "assemble s owner (acc_Sequence acc) op = Inr x"
    using built w by (auto simp: res_bind_Inr)
  have pool: "\<exists>r. rec = Some r \<and> Raw amount \<le> p_Amount r"
    if "chainPoolRecord s owner (acc_Sequence acc) = Some rec" for rec
    using rest(2) that by (cases rec) auto
  have "DecodeScI128 w = Inr (Raw amount)" if rec: "chainPoolRecord s owner (acc_Sequence acc) = Some rec" for rec
  proof -
    obtain r where r: "rec = Some r" "Raw amount \<le> p_Amount r" using pool [OF rec] by blast
    obtain u where "DecodePoolRecord (svc_sdk s) u = Inr (Some r)"
      using rec r(1) unfolding chainPoolRecord_def by (blast dest: chain_read_Some)
    from DecodePoolRecord_range [OF this] r(2) a(2) show ?thesis
      by (intro DecodeScI128_in_range [OF w]) linarith+
  qed
  moreover have "GetAccount (chain s) owner = Inr acc" "acc_Exists acc"
    "cfg_AssetCode (cfg s) \<noteq> ''native'' \<and> owner \<noteq> cfg_AssetIssuer (cfg s) \<longrightarrow>
       (\<exists>t. GetTrustline (chain s) owner (cfg_AssetCode (cfg s)) (cfg_AssetIssuer (cfg s)) = Inr t \<and> tl_Exists t)"
    using pa by (auto simp: poolAccount_def res_bind_Inr map_err_def split: sum.splits if_splits)
  ultimately show ?thesis using a(1,2) rest(1) v w pool by blast
qed

definition ex_rich :: "string Service" where
  "ex_rich = (ex_service ex_pool_record)\<lparr>chain := ex_gateway\<lparr>GetAccount := (\<lambda>a. Inr (ex_account\<lparr>acc_Balances :=
     [\<lparr>AssetCode = ''native'', AssetIssuer = [], bal_Balance = ''5'', bal_Limit = []\<rparr>]\<rparr>))\<rparr>\<rparr>"

theorem PoolWithdrawXDR_checked_witness:
  "\<exists>acc. PoolWithdrawXDR ex_rich ''GA'' ''25'' = Inr ''tx'' \<and> GetAccount (chain ex_rich) ''GA'' = Inr acc \<and>
     hasNativeFeeHeadroom acc"
proof -
  let ?acc = "ex_account\<lparr>acc_Balances := [\<lparr>AssetCode = ''native'', AssetIssuer = [], bal_Balance = ''5'', bal_Limit = []\<rparr>]\<rparr>"
  have "decimalStringRe ''5'' = Some ([], ''5'', [])" by code_simp
  then have "hasNativeFeeHeadroom ?acc"
    by (simp add: hasNativeFeeHeadroom_def ParseAmount_cases scaled_value_def nativeReserveHeadroomRaw_def digit_simps)
       (simp add: digit_val_def)
  moreover have "parse_positive ex_rich ''25'' = Inr ex_amount" by code_simp
  moreover have "poolAccount ex_rich ''GA'' = Inr ?acc" by code_simp
  moreover have "(case chainPoolRecord ex_rich ''GA'' (acc_Sequence ?acc) of None \<Rightarrow> False | Some None \<Rightarrow> True
           | Some (Some rec) \<Rightarrow> p_Amount rec < Raw ex_amount) = False" by code_simp
  moreover have "res_bind (scArgs [ScAddress (svc_sdk ex_rich) ''GA'', ScI128 (Raw ex_amount)]) (\<lambda>withdrawArgs.
     res_bind (InvokeContract (svc_sdk ex_rich) (EscrowContractID (cfg ex_rich)) ''GA'' ''withdraw'' withdrawArgs) (\<lambda>op.
     assemble ex_rich ''GA'' (acc_Sequence ?acc) op)) = Inr ''tx''" by code_simp
  ultimately have w: "PoolWithdrawXDR ex_rich ''GA'' ''25'' = Inr ''tx''"
    unfolding PoolWithdrawXDR_def by (simp only: res_bind_simps) simp
  from PoolWithdrawXDR_checked [OF w] w show ?thesis by blast
qed

lemma sint_uminus_64:
  assumes "sint (m :: i64) \<noteq> - (2 ^ 63)"
  shows "sint (- m) = - sint m"
proof -
  have "- (2 ^ 63) \<le> sint m" "sint m < 2 ^ 63"
    using sint_greater_eq [of m] sint_less [of m] by simp_all
  with assms have "signed_take_bit 63 (- sint m) = - sint m"
    by (intro signed_take_bit_int_eq_self) simp_all
  then show ?thesis by (simp add: sint_word_ariths)
qed

text \<open>
  The nonce of the authorization entry is the magnitude of the eight random bytes read as
  a signed big-endian number, so it is not negative, with exactly one exception: the bytes
  80 00 00 00 00 00 00 00, whose negation overflows to the same negative number.
\<close>

theorem randomNonce_nonnegative:
  "\<exists>n. randomNonce (Inr b) = Inr n \<and> (0 \<le> sint n \<longleftrightarrow> sint (BigEndian_Uint64 b) \<noteq> - (2 ^ 63)) \<and>
     (sint (BigEndian_Uint64 b) \<noteq> - (2 ^ 63) \<longrightarrow> sint n = \<bar>sint (BigEndian_Uint64 b)\<bar>)"
proof (cases "sint (BigEndian_Uint64 b) = - (2 ^ 63)")
  case True
  then have "uint (BigEndian_Uint64 b) = uint (2 ^ 63 :: u64)" using sint_uint_64 [of "BigEndian_Uint64 b"] by simp
  then have "BigEndian_Uint64 b = 2 ^ 63" by (simp only: word_uint_eq_iff)
  then show ?thesis using True by (simp add: randomNonce_def Let_def)
next
  case False
  then show ?thesis using sint_uminus_64 [OF False] by (auto simp: randomNonce_def Let_def)
qed

theorem randomNonce_nonnegative_witness:
  "\<exists>n m. randomNonce (Inr [128, 0, 0, 0, 0, 0, 0, 0]) = Inr n \<and> sint n < 0 \<and>
     randomNonce (Inr [255, 255, 255, 255, 255, 255, 255, 254]) = Inr m \<and> sint m = 2"
proof -
  have a: "sint (BigEndian_Uint64 [128, 0, 0, 0, 0, 0, 0, 0]) = - (2 ^ 63)"
    and b: "sint (BigEndian_Uint64 [255, 255, 255, 255, 255, 255, 255, 254]) = - 2" by code_simp+
  obtain n where "randomNonce (Inr [128, 0, 0, 0, 0, 0, 0, 0]) = Inr n" "\<not> 0 \<le> sint n"
    using randomNonce_nonnegative [of "[128, 0, 0, 0, 0, 0, 0, 0]"] a by auto
  moreover obtain m where "randomNonce (Inr [255, 255, 255, 255, 255, 255, 255, 254]) = Inr m" "sint m = 2"
    using randomNonce_nonnegative [of "[255, 255, 255, 255, 255, 255, 255, 254]"] b by auto
  ultimately show ?thesis by auto
qed

end
