(* ===== verification/Schema.thy ===== *)
theory Schema
  imports ChequeProps
begin

text \<open>
  The types of what is stored and shown: every stored cheque fits the columns of its table, is in a
  state the service stores, and is read back with an amount that is a plain positive decimal numeral.
\<close>

definition stored_states :: "State list" where
  "stored_states = [StateImzaliRezerve, StateHavuzda, StateTalepEdildi, StateOnaylandi, StateKapandi,
     StateIadeEdilebilir, StateIadeEdildi, StateZorlaTahsilDenendi, StateKarsiliksiz]"

definition typed_row :: "cheque_row \<Rightarrow> bool" where
  "typed_row r \<longleftrightarrow> length (row_id r) \<le> 26 \<and> length (sender_address r) \<le> 56 \<and> length (receiver_address r) \<le> 56 \<and>
     length (token_contract r) \<le> 56 \<and> row_ok r \<and> state r \<in> set stored_states"

definition typed_db :: "pay_db \<Rightarrow> bool" where
  "typed_db db \<longleftrightarrow> list_all typed_row (cheques db)"

lemma edges_stored: "(f, t) \<in> set edges \<Longrightarrow> t \<in> set stored_states"
  by (auto simp: edges_def stored_states_def)

lemma typed_update:
  assumes "typed_db db" and "update_cheques P f db = Inr (n, db')" and "\<And>r. P r \<Longrightarrow> typed_row r \<Longrightarrow> typed_row (f r)"
  shows "typed_db db'"
proof -
  have "typed_row (x\<lparr>updated_at := t\<rparr>) = typed_row x" for x t by (simp add: typed_row_def row_ok_def)
  with assms show ?thesis by (auto simp: update_cheques_def typed_db_def list_all_iff)
qed

lemma typed_insert:
  assumes "typed_db db" and "insert_cheque c db = Inr ((), db')" and "ChequeState c = StateImzaliRezerve"
  shows "typed_db db'"
  using assms by (auto simp: insert_cheque_def typed_db_def typed_row_def row_ok_def stored_states_def Let_def split: option.splits if_splits)

lemma other_tables_cheques:
  "insert_reservation a b c db = Inr (x, d) \<Longrightarrow> cheques d = cheques db" "insert_transition a f t cs h db = Inr (y, d) \<Longrightarrow> cheques d = cheques db"
  "release_reservations a db = Inr (n, d) \<Longrightarrow> cheques d = cheques db" "upsert_pool a c new upd db = Inr (x, d) \<Longrightarrow> cheques d = cheques db"
  "debit_pool a c db = Inr (n, d) \<Longrightarrow> cheques d = cheques db"
  by (auto simp: insert_reservation_def insert_transition_def release_reservations_def upsert_pool_def debit_pool_def
      split: option.splits if_splits)

lemma typed_step:
  assumes "typed_db db" and "repo_step db db'"
  shows "typed_db db'"
  using assms(2)
proof cases
  case (step_create c db1 db2 cs h)
  then show ?thesis using typed_insert [OF assms(1)] other_tables_cheques(1,2) by (metis typed_db_def)
next
  case (step_move fr to x n db1 cs h db2 m)
  have "typed_db db1" by (rule typed_update [OF assms(1) step_move(2)])
    (use edges_stored [OF step_move(1)] in \<open>simp add: typed_row_def row_ok_def\<close>)
  moreover have "cheques db' = cheques db1"
    using other_tables_cheques(2) [OF step_move(4)] step_move(5) other_tables_cheques(3) by (auto split: if_splits)
  ultimately show ?thesis by (simp add: typed_db_def)
next
  case (step_preauth x e n)
  show ?thesis by (rule typed_update [OF assms(1) step_preauth]) (simp add: typed_row_def row_ok_def)
next
  case (step_lock_hash x h n)
  show ?thesis by (rule typed_update [OF assms(1) step_lock_hash]) (simp add: typed_row_def row_ok_def)
qed (use assms(1) other_tables_cheques(4,5) in \<open>auto simp: typed_db_def\<close>)

interpretation typed: invariant_system empty_db repo_step typed_db
  by unfold_locales (simp add: empty_db_def typed_db_def, rule typed_step)

lemma string_of_nat_length: "n < 10 ^ k \<Longrightarrow> 0 < k \<Longrightarrow> length (string_of_nat n) \<le> k"
proof (induction n arbitrary: k rule: string_of_nat.induct)
  case (1 n)
  show ?case
  proof (cases "n < 10")
    case False
    obtain j where j: "k = Suc j" using 1(3) by (cases k) auto
    with 1(2) False have "n div 10 < 10 ^ j" "0 < j" by (auto simp: less_mult_imp_div_less mult.commute intro: Nat.gr0I)
    then have "length (string_of_nat (n div 10)) \<le> j" using 1(1) False by blast
    then show ?thesis using False by (subst string_of_nat.simps) (simp add: j)
  qed (subst string_of_nat.simps, use 1(3) in simp)
qed

section \<open>Properties\<close>

text \<open>
  C24. Whatever calls are made, every cheque the service can read back is well typed: its id and addresses
  fit their columns, its amount is a numeral of at most forty digits, positive and without a sign, that
  parses back to the stored number, and its state is one of the nine the service stores, never the
  draft state nor one of the two that no operation enters.
\<close>

theorem cheques_well_typed:
  assumes "reach empty_db (svc_step s) db" and "r \<in> set (cheques db)"
  shows "length (ID (scan_cheque r)) \<le> 26 \<and> length (SenderAddress (scan_cheque r)) \<le> 56 \<and>
    length (ReceiverAddress (scan_cheque r)) \<le> 56 \<and> length (TokenContract (scan_cheque r)) \<le> 56 \<and>
    all_digits (AmountRaw (scan_cheque r)) \<and> length (AmountRaw (scan_cheque r)) \<in> {1..40} \<and>
    bigint_SetString (AmountRaw (scan_cheque r)) = Some (amount_raw r) \<and> 0 < amount_raw r \<and>
    ChequeState (scan_cheque r) \<notin> {StateTaslak, StateFonlaniyor, StateHukumsuz}"
proof -
  have t: "typed_row r" using typed.inv_reach [OF svc_reach [OF assms(1)]] assms(2) by (simp add: typed_db_def list_all_iff)
  then have a: "0 < amount_raw r" "amount_raw r < 10 ^ 40" by (auto simp: typed_row_def row_ok_def numeric_40_0_def)
  then have s: "bigint_String (amount_raw r) = string_of_nat (nat (amount_raw r))" by (simp add: bigint_String_def)
  have "nat (amount_raw r) < 10 ^ 40" using a by (simp add: nat_less_iff)
  then have "length (string_of_nat (nat (amount_raw r))) \<le> 40" by (rule string_of_nat_length) simp
  moreover have "1 \<le> length (string_of_nat (nat (amount_raw r)))" by (simp add: Suc_le_eq)
  moreover have "bigint_SetString (bigint_String (amount_raw r)) = Some (amount_raw r)" by (rule SetString_String)
  moreover have "state r \<notin> {StateTaslak, StateFonlaniyor, StateHukumsuz}" using t by (auto simp: typed_row_def stored_states_def)
  ultimately show ?thesis using t a(1) s by (simp add: scan_cheque_def typed_row_def)
qed

theorem cheques_well_typed_witness:
  "\<exists>r. cheques (snd ex_create) = [r] \<and> all_digits (AmountRaw (scan_cheque r)) \<and> length (AmountRaw (scan_cheque r)) \<in> {1..40}"
proof -
  obtain r where r: "cheques (snd ex_create) = [r]" using ex_create_ok ex_create_row by blast
  from cheques_well_typed [OF ex_create_reach, of r] show ?thesis using r by auto
qed

end
