(* ===== verification/Scheduler.thy ===== *)
theory Scheduler
  imports ChequeFlows
begin

text \<open>
  \<open>backend/services/scheduler/service.go\<close>: the sweep that refunds expired cheques, with its retry
  backoff, and the instance bump; \<open>ports/directadapter/scheduler_cheque_gateway.go\<close>, the in-process
  gateway to the cheque service. The gateway is an interface of the code and a record of functions
  here; a locale states what the sweep relies on, and the cheque service implements it.
\<close>

section \<open>The service\<close>

record sweepFailure =
  sf_count :: int
  sf_nextAttempt :: time

record sched_Config =
  sch_EscrowContractID :: string
  sch_NetworkPassphrase :: string
  sch_KeeperSeed :: string

record ExpiredCheque =
  ec_ID :: string
  ec_SenderAddress :: string
  ec_ReceiverAddress :: string
  ec_TokenContract :: string
  ec_AmountRaw :: string
  ec_Decimals :: u8

record 'd chequeGateway =
  gw_ExpiredFundedCheques :: "'d \<Rightarrow> ExpiredCheque list res \<times> 'd"
  gw_MarkRefunded :: "string \<Rightarrow> string \<Rightarrow> 'd \<Rightarrow> unit res \<times> 'd"

record 'tx SchedService =
  sch_cfg :: sched_Config
  sch_sdk :: "'tx sdk"
  sch_keeper :: keypair
  sch_failures :: "string \<rightharpoonup> sweepFailure"

text \<open>What the sweep meets during one attempt: the answers of the chain, and the clock after it.\<close>

record moment =
  mo_chain :: ChainGateway
  mo_now :: time

definition backoffBase :: i64 where "backoffBase = 60 * 1000000000"
definition backoffCap :: i64 where "backoffCap = 3600 * 1000000000"
definition deadLetterThreshold :: int where "deadLetterThreshold = 10"

definition NewSchedService :: "'tx sdk \<Rightarrow> sched_Config \<Rightarrow> 'tx SchedService res" where
  "NewSchedService k config =
     (case keypair_ParseFull k (sch_KeeperSeed config) of
        Inl e \<Rightarrow> Inl (Wrap ''scheduler: parse keeper seed'' e)
      | Inr kp \<Rightarrow> Inr \<lparr>sch_cfg = config, sch_sdk = k, sch_keeper = kp, sch_failures = Map.empty\<rparr>)"

definition inBackoff :: "(string \<rightharpoonup> sweepFailure) \<Rightarrow> string \<Rightarrow> time \<Rightarrow> bool" where
  "inBackoff failures chequeID now =
     (case failures chequeID of None \<Rightarrow> False | Some f \<Rightarrow> now < sf_nextAttempt f)"

text \<open>\<open>min(backoffBase<<uint(min(f.count-1, 6)), backoffCap)\<close>.\<close>

definition backoffDelay :: "int \<Rightarrow> i64" where
  "backoffDelay n =
     (let d = push_bit (nat (min (n - 1) 6)) backoffBase in if sint d \<le> sint backoffCap then d else backoffCap)"

definition recordFailure :: "string \<Rightarrow> time \<Rightarrow> (string \<rightharpoonup> sweepFailure) \<Rightarrow> (string \<rightharpoonup> sweepFailure)" where
  "recordFailure chequeID now failures =
     (let f = (case failures chequeID of None \<Rightarrow> \<lparr>sf_count = 0, sf_nextAttempt = time_zero\<rparr> | Some f \<Rightarrow> f);
          n = sf_count f + 1 in
      failures(chequeID \<mapsto> \<lparr>sf_count = n, sf_nextAttempt = now + sint (backoffDelay n)\<rparr>))"

definition clearFailure :: "string \<Rightarrow> (string \<rightharpoonup> sweepFailure) \<Rightarrow> (string \<rightharpoonup> sweepFailure)" where
  "clearFailure chequeID failures = failures(chequeID := None)"

definition sched_decodeULID :: "'tx sdk \<Rightarrow> string \<Rightarrow> byte list res" where
  "sched_decodeULID k s = (case ulid_ParseStrict k s of
      Inl e \<Rightarrow> Inl (Wrap (''scheduler: bad cheque id '' @ s) e) | Inr b \<Rightarrow> Inr b)"

definition sched_simulator :: "ChainGateway \<Rightarrow> Simulator" where
  "sched_simulator g unsignedXDR =
     (case SimulateTransaction g unsignedXDR of
        Inl e \<Rightarrow> Inl e
      | Inr r \<Rightarrow>
          if \<not> sr_Success r then Inl (Opaque (''simulation failed: '' @ sr_Error r))
          else Inr \<lparr>sim_TransactionDataXDR = sr_TransactionDataXDR r, sim_AuthXDR = sr_AuthXDR r\<rparr>)"

text \<open>\<open>refundOne\<close> up to the signed transaction.\<close>

definition refundXDR :: "'tx SchedService \<Rightarrow> ChainGateway \<Rightarrow> ExpiredCheque \<Rightarrow> string res" where
  "refundXDR s g c =
     (let k = sch_sdk s; address = kp_address (sch_keeper s) in
      case GetAccount g address of
        Inl e \<Rightarrow> Inl (Wrap ''get keeper account'' e)
      | Inr keeperAccount \<Rightarrow>
          if \<not> acc_Exists keeperAccount
          then Inl (Opaque (''keeper account '' @ address @ '' does not exist on-chain (needs funding)''))
          else
          res_bind (sched_decodeULID k (ec_ID c)) (\<lambda>idBytes.
          res_bind (ScBytes idBytes) (\<lambda>chequeIDArg.
          case InvokeContract k (sch_EscrowContractID (sch_cfg s)) address ''refund'' [chequeIDArg] of
            Inl e \<Rightarrow> Inl (Wrap ''build refund op'' e)
          | Inr op \<Rightarrow>
          (case AssembleInvocation k (sched_simulator g) (sch_NetworkPassphrase (sch_cfg s)) address
                  (sint (acc_Sequence keeperAccount)) op of
             Inl e \<Rightarrow> Inl (Wrap ''assemble refund tx'' e)
           | Inr unsignedXDR \<Rightarrow>
          (case SignTransactionXDR k unsignedXDR (sch_NetworkPassphrase (sch_cfg s)) (sch_keeper s) of
             Inl e \<Rightarrow> Inl (Wrap ''sign refund tx'' e)
           | Inr signedXDR \<Rightarrow> Inr signedXDR)))))"

definition refundOne ::
  "'tx SchedService \<Rightarrow> 'd chequeGateway \<Rightarrow> ChainGateway \<Rightarrow> ExpiredCheque \<Rightarrow> 'd \<Rightarrow> unit res \<times> 'd" where
  "refundOne s gw g c db =
     (case refundXDR s g c of
        Inl e \<Rightarrow> (Inl e, db)
      | Inr signedXDR \<Rightarrow>
     (case SubmitSoroban g signedXDR of
        Inl e \<Rightarrow> (Inl (Wrap ''submit refund tx'' e), db)
      | Inr result \<Rightarrow>
          if \<not> sub_Successful result
          then (Inl (Opaque (''refund tx did not succeed: '' @ sub_ResultCode result)), db)
          else
          (case gw_MarkRefunded gw (ec_ID c) (sub_Hash result) db of
             (Inl e, db1) \<Rightarrow> (Inl (Wrap ''mark refunded'' e), db1)
           | (Inr _, db1) \<Rightarrow> (Inr (), db1))))"

text \<open>The loop of the sweep; the \<open>i\<close>-th cheque of the list is tried at the \<open>i\<close>-th moment.\<close>

fun sweep_loop ::
  "'tx SchedService \<Rightarrow> 'd chequeGateway \<Rightarrow> (nat \<Rightarrow> moment) \<Rightarrow> time \<Rightarrow> nat \<Rightarrow> ExpiredCheque list \<Rightarrow> 'd \<Rightarrow> 'tx SchedService \<times> 'd" where
  "sweep_loop s gw mo now i [] db = (s, db)"
| "sweep_loop s gw mo now i (c # cs) db =
     (if inBackoff (sch_failures s) (ec_ID c) now then sweep_loop s gw mo now (Suc i) cs db
      else (case refundOne s gw (mo_chain (mo i)) c db of
              (Inl e, db1) \<Rightarrow>
                sweep_loop (s\<lparr>sch_failures := recordFailure (ec_ID c) (mo_now (mo i)) (sch_failures s)\<rparr>) gw mo now (Suc i) cs db1
            | (Inr _, db1) \<Rightarrow>
                sweep_loop (s\<lparr>sch_failures := clearFailure (ec_ID c) (sch_failures s)\<rparr>) gw mo now (Suc i) cs db1))"

definition SweepExpiredCheques ::
  "'tx SchedService \<Rightarrow> 'd chequeGateway \<Rightarrow> (nat \<Rightarrow> moment) \<Rightarrow> time \<Rightarrow> 'd \<Rightarrow> 'tx SchedService \<times> 'd" where
  "SweepExpiredCheques s gw mo now db =
     (case gw_ExpiredFundedCheques gw db of
        (Inl _, db1) \<Rightarrow> (s, db1)
      | (Inr expired, db1) \<Rightarrow> if expired = [] then (s, db1) else sweep_loop s gw mo now 0 expired db1)"

definition BumpEscrowInstance :: "'tx SchedService \<Rightarrow> ChainGateway \<Rightarrow> unit res" where
  "BumpEscrowInstance s g =
     (let k = sch_sdk s; address = kp_address (sch_keeper s);
          simulate = (\<lambda>unsignedXDR. case SimulateTransaction g unsignedXDR of Inl e \<Rightarrow> Inl e
            | Inr r \<Rightarrow> Inr \<lparr>sim_TransactionDataXDR = sr_TransactionDataXDR r, sim_AuthXDR = sr_AuthXDR r\<rparr>) in
      case GetAccount g address of
        Inl e \<Rightarrow> Inl (Wrap ''get keeper account'' e)
      | Inr keeperAccount \<Rightarrow>
     (case InvokeContract k (sch_EscrowContractID (sch_cfg s)) address ''bump_instance'' [] of
        Inl e \<Rightarrow> Inl e
      | Inr op \<Rightarrow>
     (case AssembleInvocation k simulate (sch_NetworkPassphrase (sch_cfg s)) address (sint (acc_Sequence keeperAccount)) op of
        Inl e \<Rightarrow> Inl (Wrap ''assemble bump tx'' e)
      | Inr unsignedXDR \<Rightarrow>
     (case SignTransactionXDR k unsignedXDR (sch_NetworkPassphrase (sch_cfg s)) (sch_keeper s) of
        Inl e \<Rightarrow> Inl e
      | Inr signedXDR \<Rightarrow>
     (case SubmitSoroban g signedXDR of Inl e \<Rightarrow> Inl e | Inr _ \<Rightarrow> Inr ())))))"

section \<open>The gateway in one process\<close>

definition narrow_cheque :: "Cheque \<Rightarrow> ExpiredCheque" where
  "narrow_cheque c = \<lparr>ec_ID = ID c, ec_SenderAddress = SenderAddress c, ec_ReceiverAddress = ReceiverAddress c,
     ec_TokenContract = TokenContract c, ec_AmountRaw = AmountRaw c, ec_Decimals = ChequeDecimals c\<rparr>"

definition SchedulerChequeGateway :: "'tx Service \<Rightarrow> outside \<Rightarrow> pay_db chequeGateway" where
  "SchedulerChequeGateway svc out =
     \<lparr>gw_ExpiredFundedCheques = (\<lambda>db. case ExpiredFundedCheques svc out db of
          (Inl e, db1) \<Rightarrow> (Inl e, db1) | (Inr chqs, db1) \<Rightarrow> (Inr (map narrow_cheque chqs), db1)),
      gw_MarkRefunded = (\<lambda>chequeID txHash db. MarkRefunded svc chequeID txHash db)\<rparr>"

section \<open>Backoff\<close>

lemma backoffDelay_value:
  assumes "1 \<le> n"
  shows "sint (backoffDelay n) = min (60000000000 * 2 ^ nat (n - 1)) 3600000000000"
proof -
  consider "n = 1" | "n = 2" | "n = 3" | "n = 4" | "n = 5" | "n = 6" | "7 \<le> n" using assms by linarith
  then show ?thesis
  proof cases
    case 7
    have "sint (backoffDelay n) = 3600000000000"
      using 7 by (simp add: backoffDelay_def backoffBase_def backoffCap_def push_bit_eq_mult)
    moreover have "(2::int) ^ 6 \<le> 2 ^ nat (n - 1)" using 7 by (intro power_increasing) auto
    ultimately show ?thesis by simp
  qed (simp_all add: backoffDelay_def backoffBase_def backoffCap_def push_bit_eq_mult)
qed

lemma recordFailure_entry:
  "recordFailure x now F x = (let n = (case F x of None \<Rightarrow> 1 | Some f \<Rightarrow> sf_count f + 1)
     in Some \<lparr>sf_count = n, sf_nextAttempt = now + sint (backoffDelay n)\<rparr>)"
  "y \<noteq> x \<Longrightarrow> recordFailure x now F y = F y"
  by (auto simp: recordFailure_def Let_def split: option.split)

lemma clearFailure_entry: "clearFailure x F y = (if y = x then None else F y)"
  by (simp add: clearFailure_def)

section \<open>The sweep and its gateway\<close>

text \<open>A refund transaction of the cheque was accepted by the network in one of the attempts.\<close>

definition refund_accepted :: "'tx SchedService \<Rightarrow> (nat \<Rightarrow> moment) \<Rightarrow> string \<Rightarrow> bool" where
  "refund_accepted s mo x \<longleftrightarrow> (\<exists>i c signed result. ec_ID c = x \<and> refundXDR s (mo_chain (mo i)) c = Inr signed \<and>
     SubmitSoroban (mo_chain (mo i)) signed = Inr result \<and> sub_Successful result)"

lemma refundXDR_failures [simp]: "refundXDR (s\<lparr>sch_failures := F\<rparr>) = refundXDR s"
proof -
  have "sch_cfg (s\<lparr>sch_failures := F\<rparr>) = sch_cfg s" "sch_sdk (s\<lparr>sch_failures := F\<rparr>) = sch_sdk s"
    "sch_keeper (s\<lparr>sch_failures := F\<rparr>) = sch_keeper s" by simp_all
  then show ?thesis by (intro ext) (simp only: refundXDR_def)
qed

lemma refund_accepted_failures [simp]: "refund_accepted (s\<lparr>sch_failures := F\<rparr>) = refund_accepted s"
  by (simp add: refund_accepted_def fun_eq_iff)

lemma refundOne_failures [simp]: "refundOne (s\<lparr>sch_failures := F\<rparr>) = refundOne s"
  by (simp add: refundOne_def fun_eq_iff)

lemma refundOne_cases:
  assumes "refundOne s gw (mo_chain (mo i)) c d = (r, d')"
  shows "d' = d \<and> (\<exists>e. r = Inl e) \<or>
    (\<exists>h q. refund_accepted s mo (ec_ID c) \<and> gw_MarkRefunded gw (ec_ID c) h d = (q, d') \<and> (r = Inr () \<longleftrightarrow> q = Inr ()))"
  using assms unfolding refundOne_def refund_accepted_def
  by (auto split: sum.splits if_splits prod.splits)

text \<open>Whether the refund of a cheque is built and accepted by the network, as the chain answers at one moment.\<close>

definition refund_goes_through :: "'tx SchedService \<Rightarrow> ChainGateway \<Rightarrow> ExpiredCheque \<Rightarrow> bool" where
  "refund_goes_through s g c = (case refundXDR s g c of Inl _ \<Rightarrow> False
     | Inr signedXDR \<Rightarrow> (case SubmitSoroban g signedXDR of Inl _ \<Rightarrow> False | Inr result \<Rightarrow> sub_Successful result))"

lemma sweep_loop_untouched:
  "sweep_loop s gw mo now i cs d = (s', d') \<Longrightarrow> x \<notin> ec_ID ` set cs \<Longrightarrow> sch_failures s' x = sch_failures s x"
proof (induction cs arbitrary: s i d)
  case (Cons c cs)
  obtain r d1 where r: "refundOne s gw (mo_chain (mo i)) c d = (r, d1)" by fastforce
  show ?case
  proof (cases "inBackoff (sch_failures s) (ec_ID c) now")
    case False
    obtain F where F: "sweep_loop (s\<lparr>sch_failures := F\<rparr>) gw mo now (Suc i) cs d1 = (s', d')" "F x = sch_failures s x"
      using Cons.prems False r by (auto simp: recordFailure_entry clearFailure_entry split: sum.splits)
    then show ?thesis using Cons.IH [OF F(1)] Cons.prems(2) by simp
  qed (use Cons in auto)
qed simp

text \<open>
  What the sweep relies on: listing changes nothing and lists only cheques that are due, marking
  touches the named cheque only and only moves it from \<open>HAVUZDA\<close> towards \<open>IADE_EDILDI\<close>.
\<close>

locale refund_gateway =
  fixes gw :: "'d chequeGateway" and due :: "'d \<Rightarrow> string set" and phase :: "'d \<Rightarrow> string \<Rightarrow> State option"
  assumes listed: "gw_ExpiredFundedCheques gw d = (r, d') \<Longrightarrow>
      phase d' = phase d \<and> (\<forall>cs. r = Inr cs \<longrightarrow> ec_ID ` set cs \<subseteq> due d)"
    and marked: "gw_MarkRefunded gw x h d = (q, d') \<Longrightarrow> (\<forall>y. y \<noteq> x \<longrightarrow> phase d' y = phase d y) \<and>
      (phase d' x = phase d x \<or> phase d x \<in> {Some StateHavuzda, Some StateIadeEdilebilir} \<and>
         phase d' x \<in> {Some StateIadeEdilebilir, Some StateIadeEdildi})"
begin

lemma loop_moves:
  assumes "sweep_loop s gw mo now i cs d = (s', d')"
  shows "phase d' x = phase d x \<or> x \<in> ec_ID ` set cs \<and> refund_accepted s mo x \<and>
    phase d x \<in> {Some StateHavuzda, Some StateIadeEdilebilir} \<and>
    phase d' x \<in> {Some StateIadeEdilebilir, Some StateIadeEdildi}"
  using assms
proof (induction cs arbitrary: s i d)
  case (Cons c cs)
  show ?case
  proof (cases "inBackoff (sch_failures s) (ec_ID c) now")
    case True
    then show ?thesis using Cons.IH [of s "Suc i" d] Cons.prems by auto
  next
    case False
    obtain r d1 where r: "refundOne s gw (mo_chain (mo i)) c d = (r, d1)" by fastforce
    obtain F where "sweep_loop (s\<lparr>sch_failures := F\<rparr>) gw mo now (Suc i) cs d1 = (s', d')"
      using Cons.prems False by (auto simp: r split: sum.splits)
    note tail = Cons.IH [OF this]
    have "phase d1 x = phase d x \<or> x = ec_ID c \<and> refund_accepted s mo x \<and>
        phase d x \<in> {Some StateHavuzda, Some StateIadeEdilebilir} \<and>
        phase d1 x \<in> {Some StateIadeEdilebilir, Some StateIadeEdildi}"
      using refundOne_cases [where mo = mo, OF r] marked by metis
    with tail show ?thesis by auto
  qed
qed simp

lemma loop_keeps:
  assumes "sweep_loop s gw mo now i cs d = (s', d')" and "distinct (map ec_ID cs)" and "j < length cs" and "ec_ID (cs ! j) = x"
    and "inBackoff (sch_failures s) x now \<or> \<not> refund_goes_through s (mo_chain (mo (i + j))) (cs ! j)"
  shows "phase d' x = phase d x"
  using assms
proof (induction cs arbitrary: s i d j)
  case (Cons c cs)
  obtain r d1 where r: "refundOne s gw (mo_chain (mo i)) c d = (r, d1)" by fastforce
  define s1 where "s1 = (if inBackoff (sch_failures s) (ec_ID c) now then s else
    s\<lparr>sch_failures := (case r of Inl _ \<Rightarrow> recordFailure (ec_ID c) (mo_now (mo i)) (sch_failures s)
       | Inr _ \<Rightarrow> clearFailure (ec_ID c) (sch_failures s))\<rparr>)"
  define e where "e = (if inBackoff (sch_failures s) (ec_ID c) now then d else d1)"
  have loop: "sweep_loop s1 gw mo now (Suc i) cs e = (s', d')"
    using Cons.prems(1) by (auto simp: r s1_def e_def split: sum.splits if_splits)
  show ?case
  proof (cases j)
    case 0
    then have c: "ec_ID c = x" "x \<notin> ec_ID ` set cs" using Cons.prems(2,4) by auto
    have "e = d" using Cons.prems(5) 0 c(1) r
      by (auto simp: e_def refundOne_def refund_goes_through_def split: sum.splits prod.splits if_splits)
    then show ?thesis using loop_moves [OF loop, of x] c(2) by auto
  next
    case (Suc k)
    have x: "k < length cs" "ec_ID (cs ! k) = x" using Cons.prems(3,4) Suc by simp_all
    then have "x \<in> ec_ID ` set cs" using nth_mem by blast
    then have other: "x \<noteq> ec_ID c" using Cons.prems(2) by (cases "x = ec_ID c") simp_all
    have "sch_failures s1 x = sch_failures s x"
      using other by (auto simp: s1_def recordFailure_entry clearFailure_entry split: sum.split)
    moreover have "phase e x = phase d x"
      using other refundOne_cases [where mo = mo, OF r] marked by (auto simp: e_def)
    moreover have "refund_goes_through s1 = refund_goes_through s" by (simp add: s1_def refund_goes_through_def fun_eq_iff)
    ultimately show ?thesis
      using Cons.IH [OF loop _ x] Cons.prems(2,5) Suc by (simp add: inBackoff_def)
  qed
qed simp

lemma sweep_keeps:
  assumes "gw_ExpiredFundedCheques gw d = (Inr cs, d1)" and "distinct (map ec_ID cs)"
    and "SweepExpiredCheques s gw mo now d = (s', d')" and "j < length cs"
    and "inBackoff (sch_failures s) (ec_ID (cs ! j)) now \<or> \<not> refund_goes_through s (mo_chain (mo j)) (cs ! j)"
  shows "phase d' (ec_ID (cs ! j)) = phase d (ec_ID (cs ! j))"
proof -
  have "sweep_loop s gw mo now 0 cs d1 = (s', d')"
    using assms(1,3,4) by (auto simp: SweepExpiredCheques_def split: if_splits)
  from loop_keeps [OF this assms(2,4) refl] assms(5) listed [OF assms(1)] show ?thesis by simp
qed

lemma sweep_moves:
  assumes "SweepExpiredCheques s gw mo now d = (s', d')"
  shows "phase d' x = phase d x \<or> x \<in> due d \<and> refund_accepted s mo x \<and>
    phase d x \<in> {Some StateHavuzda, Some StateIadeEdilebilir} \<and>
    phase d' x \<in> {Some StateIadeEdilebilir, Some StateIadeEdildi}"
proof -
  obtain r d1 where l: "gw_ExpiredFundedCheques gw d = (r, d1)" by fastforce
  note law = listed [OF l]
  show ?thesis
  proof (cases r)
    case (Inl e)
    then show ?thesis using assms law by (simp add: SweepExpiredCheques_def l)
  next
    case (Inr cs)
    then consider "d' = d1" | "sweep_loop s gw mo now 0 cs d1 = (s', d')"
      using assms by (auto simp: SweepExpiredCheques_def l split: if_splits)
    then show ?thesis
    proof cases
      case 2
      from loop_moves [OF this, of x] law Inr show ?thesis by auto
    qed (use law in simp)
  qed
qed

end

text \<open>And when the gateway is healthy: it lists every due cheque, and marking succeeds.\<close>

locale live_gateway = refund_gateway gw due phase
  for gw :: "'d chequeGateway" and due :: "'d \<Rightarrow> string set" and phase :: "'d \<Rightarrow> string \<Rightarrow> State option" +
  fixes healthy :: "'d \<Rightarrow> bool"
  assumes lists_due: "healthy d \<Longrightarrow> \<exists>cs. gw_ExpiredFundedCheques gw d = (Inr cs, d) \<and> ec_ID ` set cs = due d \<and>
      (\<forall>x\<in>due d. phase d x = Some StateHavuzda)"
    and marks: "healthy d \<Longrightarrow> \<exists>d'. gw_MarkRefunded gw x h d = (Inr (), d') \<and> healthy d' \<and>
      phase d' = (if phase d x \<in> {Some StateHavuzda, Some StateIadeEdilebilir} then (phase d)(x \<mapsto> StateIadeEdildi) else phase d)"
begin

lemma refund_healthy:
  assumes "healthy d" and "refundOne s gw g c d = (r, d')"
  shows "healthy d'"
proof -
  have "d' = d \<or> (\<exists>h q. gw_MarkRefunded gw (ec_ID c) h d = (q, d'))"
    using assms(2) by (auto simp: refundOne_def split: sum.splits prod.splits if_splits)
  then show ?thesis using marks [OF assms(1)] assms(1) by (metis prod.inject)
qed

text \<open>What becomes of one cheque, whatever becomes of the others: in backoff, failing, or refunded before it.\<close>

lemma loop_healthy: "healthy d \<Longrightarrow> sweep_loop s gw mo now i cs d = (s', d') \<Longrightarrow> healthy d'"
proof (induction cs arbitrary: s i d)
  case (Cons c cs)
  obtain r d1 where r: "refundOne s gw (mo_chain (mo i)) c d = (r, d1)" by fastforce
  then show ?case
    using Cons refund_healthy [OF Cons.prems(1) r] by (auto split: if_splits sum.splits)
qed simp

lemma loop_refunds:
  assumes "healthy d" and "sweep_loop s gw mo now i cs d = (s', d')" and "distinct (map ec_ID cs)" and "j < length cs"
    and "ec_ID (cs ! j) = x" and "phase d x = Some StateHavuzda" and "\<not> inBackoff (sch_failures s) x now"
    and "refund_goes_through s (mo_chain (mo (i + j))) (cs ! j)"
  shows "phase d' x = Some StateIadeEdildi \<and> sch_failures s' x = None"
  using assms
proof (induction cs arbitrary: s i d j)
  case (Cons c cs)
  obtain r d1 where r: "refundOne s gw (mo_chain (mo i)) c d = (r, d1)" by fastforce
  define s1 where "s1 = (if inBackoff (sch_failures s) (ec_ID c) now then s else
    s\<lparr>sch_failures := (case r of Inl _ \<Rightarrow> recordFailure (ec_ID c) (mo_now (mo i)) (sch_failures s)
       | Inr _ \<Rightarrow> clearFailure (ec_ID c) (sch_failures s))\<rparr>)"
  define e where "e = (if inBackoff (sch_failures s) (ec_ID c) now then d else d1)"
  have loop: "sweep_loop s1 gw mo now (Suc i) cs e = (s', d')"
    using Cons.prems(2) by (auto simp: r s1_def e_def split: sum.splits if_splits)
  show ?case
  proof (cases j)
    case 0
    then have c: "ec_ID c = x" "x \<notin> ec_ID ` set cs" using Cons.prems(3,5) by auto
    obtain h q where m: "gw_MarkRefunded gw x h d = (q, d1)" "r = Inr () \<longleftrightarrow> q = Inr ()"
      using Cons.prems(8) 0 c(1) r
      by (auto simp: refundOne_def refund_goes_through_def split: sum.splits prod.splits if_splits)
    with marks [OF Cons.prems(1), of x h] have "r = Inr ()" "phase d1 x = Some StateIadeEdildi"
      using Cons.prems(6) by auto
    then have "phase e x = Some StateIadeEdildi" "sch_failures s1 x = None"
      using Cons.prems(7) c(1) by (auto simp: s1_def e_def clearFailure_entry)
    then show ?thesis using loop_moves [OF loop, of x] sweep_loop_untouched [OF loop c(2)] c(2) by auto
  next
    case (Suc k)
    have x: "k < length cs" "ec_ID (cs ! k) = x" using Cons.prems(3-5) Suc by simp_all
    then have "x \<in> ec_ID ` set cs" using nth_mem by blast
    then have other: "x \<noteq> ec_ID c" using Cons.prems(3) by (cases "x = ec_ID c") simp_all
    have "sch_failures s1 x = sch_failures s x"
      using other by (auto simp: s1_def recordFailure_entry clearFailure_entry split: sum.split)
    moreover have "phase e x = phase d x"
      using other refundOne_cases [where mo = mo, OF r] marked by (auto simp: e_def)
    moreover have "healthy e" using Cons.prems(1) refund_healthy [OF _ r] by (simp add: e_def)
    moreover have "refund_goes_through s1 = refund_goes_through s" by (simp add: s1_def refund_goes_through_def fun_eq_iff)
    ultimately show ?thesis
      using Cons.IH [OF _ loop _ x] Cons.prems(3,6-8) Suc by (simp add: inBackoff_def)
  qed
qed simp

lemma sweep_refunds:
  assumes "healthy d" and "gw_ExpiredFundedCheques gw d = (Inr cs, d)" and "distinct (map ec_ID cs)"
    and "SweepExpiredCheques s gw mo now d = (s', d')"
  shows "healthy d'"
    and "j < length cs \<Longrightarrow> \<not> inBackoff (sch_failures s) (ec_ID (cs ! j)) now \<Longrightarrow> refund_goes_through s (mo_chain (mo j)) (cs ! j) \<Longrightarrow>
      phase d' (ec_ID (cs ! j)) = Some StateIadeEdildi \<and> sch_failures s' (ec_ID (cs ! j)) = None"
proof -
  have run: "cs = [] \<and> s' = s \<and> d' = d \<or> sweep_loop s gw mo now 0 cs d = (s', d')"
    using assms(4) by (auto simp: SweepExpiredCheques_def assms(2) split: if_splits)
  then show "healthy d'" using loop_healthy assms(1) by blast
  have "phase d (ec_ID c) = Some StateHavuzda" if "c \<in> set cs" for c
    using lists_due [OF assms(1)] that assms(2) by auto
  note parked = this
  show "phase d' (ec_ID (cs ! j)) = Some StateIadeEdildi \<and> sch_failures s' (ec_ID (cs ! j)) = None"
    if "j < length cs" "\<not> inBackoff (sch_failures s) (ec_ID (cs ! j)) now" "refund_goes_through s (mo_chain (mo j)) (cs ! j)"
  proof (rule disjE [OF run])
    assume "sweep_loop s gw mo now 0 cs d = (s', d')"
    from loop_refunds [OF assms(1) this assms(3) that(1) refl] show ?thesis
      using that parked by simp
  qed (use that(1) in simp)
qed

end

section \<open>The cheque service implements the gateway\<close>

definition due_cheques :: "outside \<Rightarrow> pay_db \<Rightarrow> string set" where
  "due_cheques out db =
     row_id ` {r \<in> set (cheques db). state r = StateHavuzda \<and> expires_at r \<le> pg_timestamp (time_Now out)}"

lemma cheque_state_same: "same_tables a b \<Longrightarrow> cheque_state b = cheque_state a"
  by (rule ext) (simp add: cheque_state_def same_tables_proj)

lemma cheque_state_kept:
  assumes "cheque_state db x \<noteq> Some from"
  shows "cheque_state (moved x from to cs h db) = cheque_state db"
proof (rule ext)
  fix y
  let ?f = "move_row x from to (db_clock db)"
  have find: "find (\<lambda>r. row_id r = y) (map ?f (cheques db)) = map_option ?f (find (\<lambda>r. row_id r = y) (cheques db))"
    by (rule find_map_other) (simp add: move_row_def)
  show "cheque_state (moved x from to cs h db) y = cheque_state db y"
  proof (cases "find (\<lambda>r. row_id r = y) (cheques db)")
    case (Some r)
    then have "row_id r = y" by (auto dest: find_SomeD)
    with Some show ?thesis using assms by (auto simp: cheque_state_def moved_def find move_row_def)
  qed (simp add: cheque_state_def moved_def find)
qed

lemma Transition_phase:
  "cheque_state (snd (Transition x f t cs h db)) = cheque_state db \<or>
   cheque_state db x = Some f \<and> cheque_state (snd (Transition x f t cs h db)) = (cheque_state db)(x \<mapsto> t)"
proof -
  obtain r d where tr: "Transition x f t cs h db = (r, d)" by fastforce
  from Transition_cases [OF tr] show ?thesis
    using cheque_state_same cheque_state_moved [of db x f t cs h] cheque_state_kept [of db x f t cs h]
    by (cases "cheque_state db x = Some f") (auto simp: tr)
qed

lemma snd_tolerate [simp]: "snd (tolerate rd) = snd rd"
  by (cases rd; cases "fst rd") (auto simp: tolerate_def)

lemma MarkRefunded_phase:
  assumes "MarkRefunded svc x h db = (r, db')"
  shows "(\<forall>y. y \<noteq> x \<longrightarrow> cheque_state db' y = cheque_state db y) \<and>
    (cheque_state db' x = cheque_state db x \<or> cheque_state db x \<in> {Some StateHavuzda, Some StateIadeEdilebilir} \<and>
       cheque_state db' x \<in> {Some StateIadeEdilebilir, Some StateIadeEdildi})"
proof (cases "db_ready svc")
  case False
  then show ?thesis using assms by (simp add: MarkRefunded_def)
next
  case True
  define d1 where "d1 = snd (Transition x StateHavuzda StateIadeEdilebilir ''scheduler_sweep'' [] db)"
  define d2 where "d2 = snd (Transition x StateIadeEdilebilir StateIadeEdildi ''scheduler_sweep'' h d1)"
  obtain u e1 where t1: "tolerate (Transition x StateHavuzda StateIadeEdilebilir ''scheduler_sweep'' [] db) = (u, e1)" by fastforce
  then have e1: "e1 = d1" using snd_tolerate d1_def by (metis snd_conv)
  obtain v e2 where t2: "tolerate (Transition x StateIadeEdilebilir StateIadeEdildi ''scheduler_sweep'' h d1) = (v, e2)" by fastforce
  then have e2: "e2 = d2" using snd_tolerate d2_def by (metis snd_conv)
  have "cheque_state db' = cheque_state d1 \<or> cheque_state db' = cheque_state d2"
    using assms True by (auto simp: MarkRefunded_def t1 e1 t2 e2 db_bind_def split: sum.splits)
  moreover have "cheque_state d1 = cheque_state db \<or>
      cheque_state db x = Some StateHavuzda \<and> cheque_state d1 = (cheque_state db)(x \<mapsto> StateIadeEdilebilir)"
    unfolding d1_def by (rule Transition_phase)
  moreover have "cheque_state d2 = cheque_state d1 \<or>
      cheque_state d1 x = Some StateIadeEdilebilir \<and> cheque_state d2 = (cheque_state d1)(x \<mapsto> StateIadeEdildi)"
    unfolding d2_def by (rule Transition_phase)
  ultimately show ?thesis by auto
qed

lemma audit_no_faults: "faults db = [] \<Longrightarrow> faults (audit a b c db) = []"
  by (simp add: audit_def InsertAudit_def exec_no_faults)

lemma MarkRefunded_healthy:
  assumes "healthy_db db" and "db_ready svc"
  shows "healthy_db (snd (MarkRefunded svc x h db))"
proof -
  have e: "(StateHavuzda, StateIadeEdilebilir) \<in> set edges" "(StateIadeEdilebilir, StateIadeEdildi) \<in> set edges" by simp_all
  obtain d1 where d1: "tolerate (Transition x StateHavuzda StateIadeEdilebilir ''scheduler_sweep'' [] db) = (Inr (), d1)" "healthy_db d1"
    using repo_store.tolerated_move [OF assms(1) e(1)] by blast
  obtain d2 where d2: "tolerate (Transition x StateIadeEdilebilir StateIadeEdildi ''scheduler_sweep'' h d1) = (Inr (), d2)" "healthy_db d2"
    using repo_store.tolerated_move [OF d1(2) e(2)] by blast
  have "faults (snd (MarkRefunded svc x h db)) = []"
    using assms(2) d2(2) by (simp add: MarkRefunded_def d1(1) d2(1) healthy_db_def audit_no_faults)
  moreover have "ledger_inv (snd (MarkRefunded svc x h db))"
    using ledger.inv_steps svc_call_steps [OF call_mark_refunded] assms(1) unfolding healthy_db_def by blast
  ultimately show ?thesis by (simp add: healthy_db_def)
qed

lemma expired_listed:
  assumes "gw_ExpiredFundedCheques (SchedulerChequeGateway svc out) db = (r, db')"
  shows "cheque_state db' = cheque_state db \<and> (\<forall>cs. r = Inr cs \<longrightarrow> ec_ID ` set cs = due_cheques out db)"
proof (cases "db_ready svc")
  case False
  then show ?thesis using assms by (auto simp: SchedulerChequeGateway_def ExpiredFundedCheques_def)
next
  case True
  let ?P = "\<lambda>r. state r = StateHavuzda \<and> expires_at r \<le> pg_timestamp (time_Now out)"
  obtain q d where e: "exec (\<lambda>db. Inr (filter ?P (cheques db), db)) db = (q, d)" by fastforce
  have d: "db' = d" "r = (case q of Inl e \<Rightarrow> Inl (pgErr e) | Inr rows \<Rightarrow> Inr (map narrow_cheque (map scan_cheque rows)))"
    using assms True
    by (auto simp: SchedulerChequeGateway_def ExpiredFundedCheques_def ExpiredFundedChequesRepo_def e split: sum.splits)
  have "ec_ID ` set (map narrow_cheque (map scan_cheque rows)) = due_cheques out db" if q: "q = Inr rows" for rows
  proof -
    obtain db1 where "same_tables db db1" "rows = filter ?P (cheques db1)" using exec_read_same(2) [OF e q] by blast
    then have "rows = filter ?P (cheques db)" by (simp add: same_tables_proj)
    then show ?thesis by (auto simp: due_cheques_def image_image narrow_cheque_def)
  qed
  then show ?thesis using d cheque_state_same [OF exec_read_same(1) [OF e]] by (cases q) auto
qed

interpretation direct: live_gateway "SchedulerChequeGateway svc out" "due_cheques out" cheque_state
    "\<lambda>db. healthy_db db \<and> db_ready svc" for svc out
proof unfold_locales
  show "cheque_state d' = cheque_state d \<and> (\<forall>cs. r = Inr cs \<longrightarrow> ec_ID ` set cs \<subseteq> due_cheques out d)"
    if "gw_ExpiredFundedCheques (SchedulerChequeGateway svc out) d = (r, d')" for d r d'
    using expired_listed [OF that] by auto
  show "(\<forall>y. y \<noteq> x \<longrightarrow> cheque_state d' y = cheque_state d y) \<and>
      (cheque_state d' x = cheque_state d x \<or> cheque_state d x \<in> {Some StateHavuzda, Some StateIadeEdilebilir} \<and>
         cheque_state d' x \<in> {Some StateIadeEdilebilir, Some StateIadeEdildi})"
    if "gw_MarkRefunded (SchedulerChequeGateway svc out) x h d = (q, d')" for x h d q d'
    using that MarkRefunded_phase by (simp add: SchedulerChequeGateway_def)
  show "\<exists>d'. gw_MarkRefunded (SchedulerChequeGateway svc out) x h d = (Inr (), d') \<and> (healthy_db d' \<and> db_ready svc) \<and>
      cheque_state d' = (if cheque_state d x \<in> {Some StateHavuzda, Some StateIadeEdilebilir}
        then (cheque_state d)(x \<mapsto> StateIadeEdildi) else cheque_state d)"
    if "healthy_db d \<and> db_ready svc" for d x h
    using that MarkRefunded_state [of d svc x h] MarkRefunded_healthy [of d svc x h]
    by (intro exI [of _ "snd (MarkRefunded svc x h d)"]) (simp add: SchedulerChequeGateway_def prod_eq_iff)
  show "\<exists>cs. gw_ExpiredFundedCheques (SchedulerChequeGateway svc out) d = (Inr cs, d) \<and> ec_ID ` set cs = due_cheques out d \<and>
      (\<forall>x\<in>due_cheques out d. cheque_state d x = Some StateHavuzda)"
    if h: "healthy_db d \<and> db_ready svc" for d
  proof -
    obtain cs where cs: "gw_ExpiredFundedCheques (SchedulerChequeGateway svc out) d = (Inr cs, d)"
      using h by (simp add: SchedulerChequeGateway_def ExpiredFundedCheques_def ExpiredFundedChequesRepo_def
          exec_no_faults healthy_db_def)
    moreover have "cheque_state d x = Some StateHavuzda" if "x \<in> due_cheques out d" for x
      using that h by (auto simp: due_cheques_def healthy_db_def cheque_state_Some)
    ultimately show ?thesis using expired_listed [OF cs] by blast
  qed
qed

lemma expired_distinct:
  assumes "healthy_db db" and "db_ready svc"
  shows "\<exists>cs. gw_ExpiredFundedCheques (SchedulerChequeGateway svc out) db = (Inr cs, db) \<and> distinct (map ec_ID cs) \<and>
    ec_ID ` set cs = due_cheques out db"
proof -
  have d: "distinct (map row_id (cheques db))" using assms(1) by (simp add: healthy_db_def ledger_inv_def cheques_inv_def)
  let ?rows = "filter (\<lambda>r. state r = StateHavuzda \<and> expires_at r \<le> pg_timestamp (time_Now out)) (cheques db)"
  have cs: "gw_ExpiredFundedCheques (SchedulerChequeGateway svc out) db = (Inr (map narrow_cheque (map scan_cheque ?rows)), db)"
    using assms by (simp add: SchedulerChequeGateway_def ExpiredFundedCheques_def ExpiredFundedChequesRepo_def exec_no_faults healthy_db_def)
  have "map ec_ID (map narrow_cheque (map scan_cheque ?rows)) = map row_id ?rows" by (auto simp: narrow_cheque_def scan_cheque_def)
  then have "distinct (map ec_ID (map narrow_cheque (map scan_cheque ?rows)))" using d by (simp only: distinct_map_filter)
  then show ?thesis using cs expired_listed [OF cs] by blast
qed

text \<open>A sweep in one process changes the database through the cheque service.\<close>

lemma refundOne_runs: "repo_step\<^sup>*\<^sup>* db (snd (refundOne s (SchedulerChequeGateway svc out) g c db))"
proof -
  have "repo_step\<^sup>*\<^sup>* db (snd (MarkRefunded svc x h db))" for x h by (rule svc_call_steps [OF call_mark_refunded])
  then show ?thesis
    by (auto simp: refundOne_def SchedulerChequeGateway_def split: sum.split prod.split) (metis snd_conv)+
qed

lemma sweep_loop_runs: "repo_step\<^sup>*\<^sup>* db (snd (sweep_loop s (SchedulerChequeGateway svc out) mo now i cs db))"
proof (induction cs arbitrary: s i db)
  case (Cons c cs)
  obtain r db1 where r: "refundOne s (SchedulerChequeGateway svc out) (mo_chain (mo i)) c db = (r, db1)" by fastforce
  have "repo_step\<^sup>*\<^sup>* db db1" using refundOne_runs [of db s svc out "mo_chain (mo i)" c] by (simp add: r)
  then show ?case using Cons.IH by (cases r) (auto simp: r intro: rtranclp_trans)
qed simp

lemma SweepExpiredCheques_runs: "repo_step\<^sup>*\<^sup>* db (snd (SweepExpiredCheques s (SchedulerChequeGateway svc out) mo now db))"
proof -
  have e: "repo_step\<^sup>*\<^sup>* db (snd (ExpiredFundedCheques svc out db))" by (rule svc_call_steps [OF call_expired])
  obtain r db1 where r: "ExpiredFundedCheques svc out db = (r, db1)" by fastforce
  have gw: "gw_ExpiredFundedCheques (SchedulerChequeGateway svc out) db = (map_sum id (map narrow_cheque) r, db1)"
    by (cases r) (simp_all add: SchedulerChequeGateway_def r)
  have e: "repo_step\<^sup>*\<^sup>* db db1" using e by (simp add: r)
  show ?thesis using e
    by (cases r) (auto simp: SweepExpiredCheques_def gw r intro: rtranclp_trans [OF e sweep_loop_runs])
qed

section \<open>What one sweep records\<close>

text \<open>The \<open>j\<close>-th cheque meets the database as the cheques before it left it.\<close>

lemma sweep_loop_failures:
  assumes "sweep_loop s gw mo now i cs d = (s', d')" and "distinct (map ec_ID cs)" and "j < length cs" and "ec_ID (cs ! j) = x"
  shows "sch_failures s' x = (if inBackoff (sch_failures s) x now then sch_failures s x
    else case fst (refundOne s gw (mo_chain (mo (i + j))) (cs ! j) (snd (sweep_loop s gw mo now i (take j cs) d))) of
      Inl _ \<Rightarrow> recordFailure x (mo_now (mo (i + j))) (sch_failures s) x | Inr _ \<Rightarrow> None)"
  using assms
proof (induction cs arbitrary: s i d j)
  case (Cons c cs)
  obtain r d1 where r: "refundOne s gw (mo_chain (mo i)) c d = (r, d1)" by fastforce
  define s1 where "s1 = (if inBackoff (sch_failures s) (ec_ID c) now then s else
    s\<lparr>sch_failures := (case r of Inl _ \<Rightarrow> recordFailure (ec_ID c) (mo_now (mo i)) (sch_failures s)
       | Inr _ \<Rightarrow> clearFailure (ec_ID c) (sch_failures s))\<rparr>)"
  define e where "e = (if inBackoff (sch_failures s) (ec_ID c) now then d else d1)"
  have go: "sweep_loop s gw mo now i (c # xs) d = sweep_loop s1 gw mo now (Suc i) xs e" for xs
    by (auto simp: r s1_def e_def split: sum.splits)
  show ?case
  proof (cases j)
    case 0
    then have "sch_failures s' x = sch_failures s1 x"
      using sweep_loop_untouched [OF Cons.prems(1) [unfolded go], of x] Cons.prems(2,4) by simp
    then show ?thesis using 0 Cons.prems(4) r by (auto simp: s1_def clearFailure_entry split: sum.splits)
  next
    case (Suc k)
    have x: "k < length cs" "ec_ID (cs ! k) = x" using Cons.prems(2-4) Suc by simp_all
    then have "x \<in> ec_ID ` set cs" using nth_mem by blast
    then have other: "x \<noteq> ec_ID c" using Cons.prems(2) by (cases "x = ec_ID c") simp_all
    have same: "sch_failures s1 x = sch_failures s x" "refundOne s1 = refundOne s"
      using other by (auto simp: s1_def recordFailure_entry clearFailure_entry split: sum.split)
    then have "inBackoff (sch_failures s1) x now = inBackoff (sch_failures s) x now"
      "recordFailure x t (sch_failures s1) x = recordFailure x t (sch_failures s) x" for t
      by (simp_all add: inBackoff_def recordFailure_entry)
    then show ?thesis
      using Cons.IH [of s1 "Suc i" e k] Cons.prems(1,2) x same Suc by (simp only: go take_Suc_Cons nth_Cons_Suc add_Suc add_Suc_right) (simp add: same)
  qed
qed simp

section \<open>A concrete sweep\<close>

definition ex_sched :: "string SchedService" where
  "ex_sched = \<lparr>sch_cfg = \<lparr>sch_EscrowContractID = EscrowContractID ex_config, sch_NetworkPassphrase = ''testnet'', sch_KeeperSeed = ''SK''\<rparr>,
     sch_sdk = ex_sdk ex_entry ScvVoid, sch_keeper = \<lparr>kp_seed = ''SK'', kp_address = ''GK''\<rparr>, sch_failures = Map.empty\<rparr>"

definition ex_late :: outside where
  "ex_late = ex_outside\<lparr>time_Now := 700000000000000\<rparr>"

definition ex_moments :: "nat \<Rightarrow> moment" where
  "ex_moments i = \<lparr>mo_chain = ex_gateway, mo_now = 700000000000000\<rparr>"

lemma ex_db2_healthy: "healthy_db ex_db2"
proof -
  have "faults ex_db2 = []" by code_simp
  moreover have "ledger_inv ex_db2" using ledger.inv_reach reach_steps [OF ex_db1_reach ex_db2_steps] by blast
  ultimately show ?thesis by (simp add: healthy_db_def)
qed

lemma ex_due: "due_cheques ex_late ex_db2 = {ID ex_cheque}"
proof -
  have "map (\<lambda>r. (row_id r, state r, expires_at r)) (cheques ex_db2) = [(ID ex_cheque, StateHavuzda, 604800000000000)]"
    by code_simp
  then obtain r where "cheques ex_db2 = [r]" "row_id r = ID ex_cheque" "state r = StateHavuzda" "expires_at r = 604800000000000"
    by (auto simp: map_eq_Cons_conv)
  then show ?thesis by (auto simp: due_cheques_def ex_late_def pg_timestamp_def)
qed

lemma ex_refund_ok:
  assumes "ec_ID c = ID ex_cheque"
  shows "\<exists>signed result. refundXDR ex_sched (mo_chain (ex_moments i)) c = Inr signed \<and>
    SubmitSoroban (mo_chain (ex_moments i)) signed = Inr result \<and> sub_Successful result"
proof -
  let ?c = "\<lparr>ec_ID = ID ex_cheque, ec_SenderAddress = [], ec_ReceiverAddress = [], ec_TokenContract = [], ec_AmountRaw = [], ec_Decimals = 0\<rparr>"
  have "refundXDR ex_sched (mo_chain (ex_moments i)) c = refundXDR ex_sched ex_gateway ?c"
    by (simp only: refundXDR_def assms ex_moments_def moment.select_convs ExpiredCheque.select_convs)
  moreover have "case refundXDR ex_sched ex_gateway ?c of Inl _ \<Rightarrow> False | Inr _ \<Rightarrow> True" by code_simp
  ultimately show ?thesis by (auto simp: ex_moments_def ex_gateway_def split: sum.splits)
qed

section \<open>Properties\<close>

text \<open>
  C29. The sweep refunds nothing but expired cheques, and marks nothing that was not refunded: under
  any answers of the chain and any connection failures, a cheque whose state a sweep changes was in
  \<open>HAVUZDA\<close> with its expiry passed when the sweep listed it, a \<open>refund\<close> transaction built for that very
  cheque was accepted by the network during the sweep, and the cheque moved to \<open>IADE_EDILEBILIR\<close> or
  \<open>IADE_EDILDI\<close>; every other cheque keeps its state.
\<close>

theorem sweep_refunds_only_expired:
  assumes "SweepExpiredCheques s (SchedulerChequeGateway svc out) mo now db = (s', db')"
  shows "cheque_state db' x = cheque_state db x \<or>
    (\<exists>r\<in>set (cheques db). row_id r = x \<and> state r = StateHavuzda \<and> expires_at r \<le> pg_timestamp (time_Now out)) \<and>
    refund_accepted s mo x \<and> cheque_state db x \<in> {Some StateHavuzda, Some StateIadeEdilebilir} \<and>
    cheque_state db' x \<in> {Some StateIadeEdilebilir, Some StateIadeEdildi}"
  using direct.sweep_moves [OF assms, of x] by (auto simp: due_cheques_def)

theorem sweep_refunds_only_expired_witness:
  "\<exists>s' db'. SweepExpiredCheques ex_sched (SchedulerChequeGateway (ex_service ScvVoid) ex_outside) ex_moments 0 ex_db2 = (s', db') \<and>
     cheque_state db' (ID ex_cheque) = cheque_state ex_db2 (ID ex_cheque)"
proof -
  obtain s' db' where sw: "SweepExpiredCheques ex_sched (SchedulerChequeGateway (ex_service ScvVoid) ex_outside) ex_moments 0 ex_db2 = (s', db')"
    by fastforce
  have "map expires_at (cheques ex_db2) = [604800000000000]" by code_simp
  then have "\<not> (\<exists>r\<in>set (cheques ex_db2). expires_at r \<le> pg_timestamp (time_Now ex_outside))"
    by (auto simp: map_eq_Cons_conv ex_outside_def pg_timestamp_def)
  with sweep_refunds_only_expired [OF sw, of "ID ex_cheque"] sw show ?thesis by blast
qed

text \<open>
  C30. The sweep does its work, cheque by cheque: on a healthy database it lists exactly the funded cheques whose
  expiry has passed, each once, and every one of them that is not in backoff, and whose refund the network accepts when
  its turn comes, is in \<open>IADE_EDILDI\<close> after the sweep, with its failures forgotten, whatever happens to the other
  cheques of the sweep: they may be in backoff, or their refund may fail to be built or be refused.
\<close>

theorem sweep_refunds_all:
  assumes "healthy_db db" and "db_ready svc"
  shows "\<exists>cs s' db'. gw_ExpiredFundedCheques (SchedulerChequeGateway svc out) db = (Inr cs, db) \<and> distinct (map ec_ID cs) \<and>
    ec_ID ` set cs = row_id ` {r \<in> set (cheques db). state r = StateHavuzda \<and> expires_at r \<le> pg_timestamp (time_Now out)} \<and>
    SweepExpiredCheques s (SchedulerChequeGateway svc out) mo now db = (s', db') \<and> healthy_db db' \<and>
    (\<forall>j. j < length cs \<and> \<not> inBackoff (sch_failures s) (ec_ID (cs ! j)) now \<and>
       refund_goes_through s (mo_chain (mo j)) (cs ! j) \<longrightarrow>
       cheque_state db' (ec_ID (cs ! j)) = Some StateIadeEdildi \<and> sch_failures s' (ec_ID (cs ! j)) = None)"
proof -
  obtain s' db' where sw: "SweepExpiredCheques s (SchedulerChequeGateway svc out) mo now db = (s', db')" by fastforce
  obtain cs where cs: "gw_ExpiredFundedCheques (SchedulerChequeGateway svc out) db = (Inr cs, db)"
      "distinct (map ec_ID cs)" "ec_ID ` set cs = due_cheques out db"
    using expired_distinct [OF assms] by blast
  show ?thesis
    using direct.sweep_refunds [of db svc out cs s mo now s' db', OF _ cs(1,2) sw] assms cs sw
    by (intro exI [of _ cs] exI [of _ s'] exI [of _ db']) (auto simp: due_cheques_def)
qed

text \<open>Two cheques of two senders are due; the network refuses the refund of the first one.\<close>

definition ex_other :: Cheque where
  "ex_other = ex_cheque\<lparr>ID := ''01J0000000000000000000000B'', SenderAddress := ''GC'', RequestID := ''req-2''\<rparr>"

definition ex_reserved_two :: pay_db where
  "ex_reserved_two = snd (CreateReservedCheque ex_other ex_db2)"

definition ex_db_two :: pay_db where
  "ex_db_two = snd (Transition (ID ex_other) StateImzaliRezerve StateHavuzda ''user_action'' ''h'' ex_reserved_two)"

definition ex_moments_two :: "nat \<Rightarrow> moment" where
  "ex_moments_two i = \<lparr>mo_chain = if i = 0 then ex_gateway\<lparr>SubmitSoroban := (\<lambda>_. Inl (Opaque ''down''))\<rparr> else ex_gateway,
     mo_now = 700000000000000\<rparr>"

lemma ex_db_two_healthy: "healthy_db ex_db_two"
proof -
  have "faults ex_db_two = []" by code_simp
  moreover have "repo_step\<^sup>*\<^sup>* ex_db2 ex_reserved_two"
    by (rule CreateReservedCheque_steps [of ex_other _ "fst (CreateReservedCheque ex_other ex_db2)"])
      (simp_all add: ex_reserved_two_def ex_other_def ex_cheque_def)
  moreover have "repo_step\<^sup>*\<^sup>* ex_reserved_two ex_db_two"
    using runs_Transition [of StateImzaliRezerve StateHavuzda] by (simp add: ex_db_two_def runs_def)
  ultimately show ?thesis using ex_db2_healthy ledger.inv_steps by (auto simp: healthy_db_def)
qed

lemma ex_sweep_two:
  "map ec_ID (projr (fst (gw_ExpiredFundedCheques (SchedulerChequeGateway (ex_service ScvVoid) ex_late) ex_db_two))) = [ID ex_cheque, ID ex_other]"
  "refund_goes_through ex_sched (mo_chain (ex_moments_two 1))
     (projr (fst (gw_ExpiredFundedCheques (SchedulerChequeGateway (ex_service ScvVoid) ex_late) ex_db_two)) ! 1)"
  "\<not> refund_goes_through ex_sched (mo_chain (ex_moments_two 0))
     (projr (fst (gw_ExpiredFundedCheques (SchedulerChequeGateway (ex_service ScvVoid) ex_late) ex_db_two)) ! 0)"
  by code_simp+

theorem sweep_refunds_all_witness:
  "\<exists>s' db'. SweepExpiredCheques ex_sched (SchedulerChequeGateway (ex_service ScvVoid) ex_late) ex_moments_two 0 ex_db_two = (s', db') \<and>
     \<not> refund_goes_through ex_sched (mo_chain (ex_moments_two 0))
        (projr (fst (gw_ExpiredFundedCheques (SchedulerChequeGateway (ex_service ScvVoid) ex_late) ex_db_two)) ! 0) \<and>
     cheque_state db' (ID ex_other) = Some StateIadeEdildi"
proof -
  have "db_ready (ex_service ScvVoid)" by (simp add: ex_service_def)
  from sweep_refunds_all [OF ex_db_two_healthy this, where out = ex_late and s = ex_sched and mo = ex_moments_two and now = 0]
  obtain cs s' db' where cs: "gw_ExpiredFundedCheques (SchedulerChequeGateway (ex_service ScvVoid) ex_late) ex_db_two = (Inr cs, ex_db_two)"
      and sw: "SweepExpiredCheques ex_sched (SchedulerChequeGateway (ex_service ScvVoid) ex_late) ex_moments_two 0 ex_db_two = (s', db')"
      and all: "\<And>j. j < length cs \<Longrightarrow> \<not> inBackoff (sch_failures ex_sched) (ec_ID (cs ! j)) 0 \<Longrightarrow>
         refund_goes_through ex_sched (mo_chain (ex_moments_two j)) (cs ! j) \<Longrightarrow> cheque_state db' (ec_ID (cs ! j)) = Some StateIadeEdildi"
    by blast
  have two: "map ec_ID cs = [ID ex_cheque, ID ex_other]" "refund_goes_through ex_sched (mo_chain (ex_moments_two 1)) (cs ! 1)"
    using ex_sweep_two(1,2) by (simp_all add: cs)
  then have "length cs = 2" "ec_ID (cs ! 1) = ID ex_other" by (auto simp: map_eq_Cons_conv)
  then have "cheque_state db' (ID ex_other) = Some StateIadeEdildi"
    using all [of 1] two(2) by (simp add: inBackoff_def ex_sched_def)
  then show ?thesis using sw ex_sweep_two(3) by blast
qed

text \<open>
  C31. Failures are isolated and backed off. After a sweep over distinct cheques, one that was not listed or was in
  backoff keeps its failure record. Every other one was tried, on the database as the ones before it left it and whatever
  happened to them, and its record says how that ended: none when \<open>refundOne\<close> succeeded; when it failed, one failure
  more than before, with the next attempt one minute, doubled with each failure in a row and at most one hour, after the
  failed one. The doubling never overflows, for any number of failures.
\<close>

theorem sweep_backoff:
  assumes "gw_ExpiredFundedCheques gw d = (Inr cs, d1)" and "distinct (map ec_ID cs)"
    and "SweepExpiredCheques s gw mo now d = (s', d')" and "\<And>x f. sch_failures s x = Some f \<Longrightarrow> 1 \<le> sf_count f"
  shows "(x \<notin> ec_ID ` set cs \<longrightarrow> sch_failures s' x = sch_failures s x) \<and>
    (\<forall>j. j < length cs \<and> x = ec_ID (cs ! j) \<longrightarrow> sch_failures s' x =
      (if inBackoff (sch_failures s) x now then sch_failures s x
       else (case fst (refundOne s gw (mo_chain (mo j)) (cs ! j) (snd (sweep_loop s gw mo now 0 (take j cs) d1))) of
          Inr _ \<Rightarrow> None
        | Inl _ \<Rightarrow> (let n = (case sch_failures s x of None \<Rightarrow> 1 | Some f \<Rightarrow> sf_count f + 1) in
            Some \<lparr>sf_count = n, sf_nextAttempt = mo_now (mo j) + min (60000000000 * 2 ^ nat (n - 1)) 3600000000000\<rparr>))))"
proof (cases "cs = []")
  case True
  then show ?thesis using assms(1,3) by (auto simp: SweepExpiredCheques_def)
next
  case False
  then have loop: "sweep_loop s gw mo now 0 cs d1 = (s', d')" using assms(1,3) by (simp add: SweepExpiredCheques_def)
  have "1 \<le> (case sch_failures s x of None \<Rightarrow> 1 | Some f \<Rightarrow> sf_count f + 1)"
    using assms(4) [of x] by (auto split: option.split)
  then have entry: "recordFailure x t (sch_failures s) x = (let n = (case sch_failures s x of None \<Rightarrow> 1 | Some f \<Rightarrow> sf_count f + 1) in
      Some \<lparr>sf_count = n, sf_nextAttempt = t + min (60000000000 * 2 ^ nat (n - 1)) 3600000000000\<rparr>)" for t
    by (simp add: recordFailure_entry(1) Let_def backoffDelay_value)
  show ?thesis
  proof (intro conjI allI impI)
    fix j
    assume "j < length cs \<and> x = ec_ID (cs ! j)"
    with sweep_loop_failures [OF loop assms(2), of j x] show "sch_failures s' x =
      (if inBackoff (sch_failures s) x now then sch_failures s x
       else (case fst (refundOne s gw (mo_chain (mo j)) (cs ! j) (snd (sweep_loop s gw mo now 0 (take j cs) d1))) of
          Inr _ \<Rightarrow> None
        | Inl _ \<Rightarrow> (let n = (case sch_failures s x of None \<Rightarrow> 1 | Some f \<Rightarrow> sf_count f + 1) in
            Some \<lparr>sf_count = n, sf_nextAttempt = mo_now (mo j) + min (60000000000 * 2 ^ nat (n - 1)) 3600000000000\<rparr>)))"
      unfolding entry add_0 by (simp only: refl)
  qed (rule sweep_loop_untouched [OF loop])
qed

theorem sweep_backoff_witness:
  "\<exists>s' db'. SweepExpiredCheques ex_sched (SchedulerChequeGateway (ex_service ScvVoid) ex_late) ex_moments_two 0 ex_db_two = (s', db') \<and>
     sch_failures s' (ID ex_cheque) = Some \<lparr>sf_count = 1, sf_nextAttempt = 700060000000000\<rparr> \<and> sch_failures s' (ID ex_other) = None"
proof -
  let ?gw = "SchedulerChequeGateway (ex_service ScvVoid) ex_late"
  obtain s' db' where sw: "SweepExpiredCheques ex_sched ?gw ex_moments_two 0 ex_db_two = (s', db')" by fastforce
  obtain cs where cs: "gw_ExpiredFundedCheques ?gw ex_db_two = (Inr cs, ex_db_two)" "distinct (map ec_ID cs)"
    using expired_distinct [OF ex_db_two_healthy, of "ex_service ScvVoid" ex_late] by (auto simp: ex_service_def)
  have ids: "map ec_ID cs = [ID ex_cheque, ID ex_other]" using ex_sweep_two(1) by (simp add: cs)
  then have n: "length cs = 2" "ec_ID (cs ! 0) = ID ex_cheque" "ec_ID (cs ! 1) = ID ex_other" by (auto simp: map_eq_Cons_conv)
  have pos: "1 \<le> sf_count f" if "sch_failures ex_sched x = Some f" for x f using that by (simp add: ex_sched_def)
  have "isl (fst (refundOne ex_sched ?gw (mo_chain (ex_moments_two 0)) (projr (fst (gw_ExpiredFundedCheques ?gw ex_db_two)) ! 0) ex_db_two))"
    "\<not> isl (fst (refundOne ex_sched ?gw (mo_chain (ex_moments_two 1)) (projr (fst (gw_ExpiredFundedCheques ?gw ex_db_two)) ! 1)
       (snd (sweep_loop ex_sched ?gw ex_moments_two 0 0 (take 1 (projr (fst (gw_ExpiredFundedCheques ?gw ex_db_two)))) ex_db_two))))"
    by code_simp+
  then have "isl (fst (refundOne ex_sched ?gw (mo_chain (ex_moments_two 0)) (cs ! 0) ex_db_two))"
    "\<not> isl (fst (refundOne ex_sched ?gw (mo_chain (ex_moments_two 1)) (cs ! 1)
       (snd (sweep_loop ex_sched ?gw ex_moments_two 0 0 (take 1 cs) ex_db_two))))"
    by (simp_all add: cs)
  then have out: "\<exists>e. fst (refundOne ex_sched ?gw (mo_chain (ex_moments_two 0)) (cs ! 0) ex_db_two) = Inl e"
    "\<exists>u. fst (refundOne ex_sched ?gw (mo_chain (ex_moments_two 1)) (cs ! 1)
       (snd (sweep_loop ex_sched ?gw ex_moments_two 0 0 (take 1 cs) ex_db_two))) = Inr u"
    by (simp_all only: isl_def) (metis sum.exhaust)
  note b = sweep_backoff [OF cs(1,2) sw pos, THEN conjunct2, rule_format]
  have fresh: "sch_failures ex_sched = Map.empty" "mo_now (ex_moments_two 0) = 700000000000000"
    by (simp_all add: ex_sched_def ex_moments_two_def)
  obtain e u where e: "fst (refundOne ex_sched ?gw (mo_chain (ex_moments_two 0)) (cs ! 0) ex_db_two) = Inl e"
    and u: "fst (refundOne ex_sched ?gw (mo_chain (ex_moments_two 1)) (cs ! 1)
       (snd (sweep_loop ex_sched ?gw ex_moments_two 0 0 (take 1 cs) ex_db_two))) = Inr u"
    using out by blast
  have "sch_failures s' (ID ex_cheque) = Some \<lparr>sf_count = 1, sf_nextAttempt = 700060000000000\<rparr>"
    using b [where j = 0 and x = "ID ex_cheque"] by (simp add: n fresh inBackoff_def e)
  moreover have "sch_failures s' (ID ex_other) = None"
    using b [where j = 1 and x = "ID ex_other"] by (simp add: n(1) n(3) [unfolded One_nat_def] fresh inBackoff_def u [unfolded One_nat_def])
  ultimately show ?thesis using sw by blast
qed

end
