(* ===== verification/Lifecycle.thy ===== *)
theory Lifecycle
  imports Scheduler
begin

text \<open>
  How a sender gets the single reservation back without acting: the refund sweep, and what it does not free.
\<close>

lemma open_senders:
  assumes "ledger_inv db"
  shows "a \<in> set (active_accounts (reservations db)) \<longleftrightarrow> (\<exists>r\<in>set (cheques db). sender_address r = a \<and> \<not> IsTerminal (state r))"
    and "r \<in> set (cheques db) \<Longrightarrow> q \<in> set (cheques db) \<Longrightarrow> \<not> IsTerminal (state r) \<Longrightarrow> \<not> IsTerminal (state q) \<Longrightarrow>
      sender_address r = sender_address q \<Longrightarrow> r = q"
proof -
  have a: "active_accounts (reservations db) = map sender_address (filter (\<lambda>r. \<not> IsTerminal (state r)) (cheques db))"
    using assms by (intro active_accounts_open) (simp add: ledger_inv_def reservations_inv_def)
  then show "a \<in> set (active_accounts (reservations db)) \<longleftrightarrow> (\<exists>r\<in>set (cheques db). sender_address r = a \<and> \<not> IsTerminal (state r))"
    by auto
  have "inj_on sender_address (set (filter (\<lambda>r. \<not> IsTerminal (state r)) (cheques db)))"
    using assms a by (simp add: ledger_inv_def reservations_inv_def distinct_map)
  then show "r \<in> set (cheques db) \<Longrightarrow> q \<in> set (cheques db) \<Longrightarrow> \<not> IsTerminal (state r) \<Longrightarrow> \<not> IsTerminal (state q) \<Longrightarrow>
      sender_address r = sender_address q \<Longrightarrow> r = q"
    by (auto dest: inj_onD)
qed

text \<open>A sweep creates no cheque, so a sender is free after it when the one open cheque closed.\<close>

lemma sweep_freed:
  assumes "ledger_inv db" and "SweepExpiredCheques s (SchedulerChequeGateway svc out) mo now db = (s', db')"
    and "c \<in> set (cheques db)" and "\<not> IsTerminal (state c)" and "cheque_state db' (row_id c) = Some t"
  shows "sender_address c \<in> set (active_accounts (reservations db')) \<longleftrightarrow> \<not> IsTerminal t"
proof -
  have run: "repo_step\<^sup>*\<^sup>* db db'" using SweepExpiredCheques_runs [of db s svc out mo now] assms(2) by simp
  note inv' = ChequeLedger.ledger.inv_steps [OF assms(1) run]
  have ids: "distinct (map row_id (cheques db'))" using inv' by (simp add: ledger_inv_def cheques_inv_def)
  have sender: "sender_address p = sender_address q"
    if "p \<in> set (cheques db)" "q \<in> set (cheques db')" "row_id p = row_id q" for p q
    using later_row(1) [OF assms(1) run that(1)] find_distinct [OF ids that(2)] that(3) by (simp add: cheque_terms_def)
  obtain c' where c': "c' \<in> set (cheques db')" "row_id c' = row_id c" "state c' = t"
    using assms(5) cheque_state_Some [OF inv'] by blast
  show ?thesis
  proof
    assume "sender_address c \<in> set (active_accounts (reservations db'))"
    then obtain q where q: "q \<in> set (cheques db')" "sender_address q = sender_address c" "\<not> IsTerminal (state q)"
      using open_senders(1) [OF inv'] by blast
    have "cheque_state db' (row_id q) = Some (state q)" using q(1) cheque_state_Some [OF inv'] by blast
    then have "\<exists>st. cheque_state db (row_id q) = Some st \<and> \<not> IsTerminal st"
      using direct.sweep_moves [OF assms(2), of "row_id q"] q(3) by (cases "cheque_state db (row_id q)") (auto simp: IsTerminal_def terminalStates_def)
    then obtain p where p: "p \<in> set (cheques db)" "row_id p = row_id q" "\<not> IsTerminal (state p)"
      by (auto simp: cheque_state_Some [OF assms(1)])
    then have "p = c" using open_senders(2) [OF assms(1) p(1) assms(3) p(3) assms(4)] sender [OF p(1) q(1) p(2)] q(2) by simp
    then have "q = c'" using p(2) c'(1,2) q(1) ids by (metis distinct_map inj_onD)
    then show "\<not> IsTerminal t" using q(3) c'(3) by simp
  next
    assume "\<not> IsTerminal t"
    then show "sender_address c \<in> set (active_accounts (reservations db'))"
      using open_senders(1) [OF inv'] c' sender [OF assms(3) c'(1)] by metis
  qed
qed

section \<open>Properties\<close>

text \<open>
  C7. Which senders a sweep frees. Take any state the transactions of the repository can reach, so any the service
  can be in, with the database answering, and let the refund sweep run. A sender with an open cheque has no active reservation after the sweep, and so may create a cheque
  again without having acted, exactly when the cheque is funded and expired, is not in backoff, and the network accepts
  its refund when its turn comes. So a sender whose cheque is not due keeps the reservation: in particular one whose
  cheque was never funded, however long ago it expired.
\<close>

theorem sweep_frees_senders:
  assumes "reach empty_db repo_step db" and "faults db = []" and "db_ready svc"
    and "SweepExpiredCheques s (SchedulerChequeGateway svc out) mo now db = (s', db')"
    and "c \<in> set (cheques db)" and "\<not> IsTerminal (state c)"
  shows "\<exists>cs. gw_ExpiredFundedCheques (SchedulerChequeGateway svc out) db = (Inr cs, db) \<and>
    (sender_address c \<notin> set (active_accounts (reservations db')) \<longleftrightarrow>
      (\<exists>j < length cs. ec_ID (cs ! j) = row_id c \<and> \<not> inBackoff (sch_failures s) (row_id c) now \<and>
         refund_goes_through s (mo_chain (mo j)) (cs ! j))) \<and>
    (row_id c \<in> ec_ID ` set cs \<longleftrightarrow> state c = StateHavuzda \<and> expires_at c \<le> pg_timestamp (time_Now out)) \<and>
    (state c = StateImzaliRezerve \<longrightarrow> sender_address c \<in> set (active_accounts (reservations db')))"
proof -
  have inv: "ledger_inv db" by (rule ChequeLedger.ledger.inv_reach [OF assms(1)])
  have h: "healthy_db db" using inv assms(2) by (simp add: healthy_db_def)
  have ids: "distinct (map row_id (cheques db))" using inv by (simp add: ledger_inv_def cheques_inv_def)
  have st: "cheque_state db (row_id c) = Some (state c)" using assms(5) cheque_state_Some [OF inv] by blast
  obtain cs where cs: "gw_ExpiredFundedCheques (SchedulerChequeGateway svc out) db = (Inr cs, db)"
      "distinct (map ec_ID cs)" "ec_ID ` set cs = due_cheques out db"
    using expired_distinct [OF h assms(3)] by blast
  have due: "row_id c \<in> ec_ID ` set cs \<longleftrightarrow> state c = StateHavuzda \<and> expires_at c \<le> pg_timestamp (time_Now out)"
    using assms(5) ids unfolding cs(3) due_cheques_def by (auto simp: distinct_map dest: inj_onD)
  let ?freed = "\<exists>j < length cs. ec_ID (cs ! j) = row_id c \<and> \<not> inBackoff (sch_failures s) (row_id c) now \<and>
         refund_goes_through s (mo_chain (mo j)) (cs ! j)"
  have "cheque_state db' (row_id c) = Some (if ?freed then StateIadeEdildi else state c)"
  proof (cases ?freed)
    case True
    then obtain j where "j < length cs" "ec_ID (cs ! j) = row_id c" "\<not> inBackoff (sch_failures s) (ec_ID (cs ! j)) now"
        "refund_goes_through s (mo_chain (mo j)) (cs ! j)"
      by metis
    then show ?thesis using direct.sweep_refunds(2) [OF _ cs(1,2) assms(4), of j] h assms(3) True by simp
  next
    case False
    have "cheque_state db' (row_id c) = cheque_state db (row_id c)"
    proof (cases "row_id c \<in> ec_ID ` set cs")
      case True
      then obtain j where "j < length cs" "ec_ID (cs ! j) = row_id c" by (auto simp: in_set_conv_nth)
      then show ?thesis using direct.sweep_keeps [OF cs(1,2) assms(4)] False by metis
    qed (use direct.sweep_moves [OF assms(4)] cs(3) in blast)
    then show ?thesis using st unfolding if_not_P [OF False] by simp
  qed
  from sweep_freed [OF inv assms(4-6) this]
  have iff: "sender_address c \<notin> set (active_accounts (reservations db')) \<longleftrightarrow> ?freed"
    using assms(6) by (auto simp: IsTerminal_def terminalStates_def)
  moreover have "?freed \<Longrightarrow> row_id c \<in> ec_ID ` set cs" using nth_mem [of _ cs] by (metis image_eqI)
  then have "state c = StateImzaliRezerve \<longrightarrow> sender_address c \<in> set (active_accounts (reservations db'))"
    unfolding due iff [symmetric] by (intro impI) (rule ccontr, simp)
  ultimately show ?thesis using cs(1) due by blast
qed

theorem sweep_frees_senders_witness:
  "''GA'' \<in> set (active_accounts (reservations ex_db2)) \<and>
   ''GA'' \<notin> set (active_accounts (reservations (snd (SweepExpiredCheques ex_sched (SchedulerChequeGateway (ex_service ScvVoid) ex_late) ex_moments 0 ex_db2)))) \<and>
   ''GA'' \<in> set (active_accounts (reservations (snd (SweepExpiredCheques ex_sched (SchedulerChequeGateway (ex_service ScvVoid) ex_late) ex_moments 0 ex_db1))))"
proof -
  let ?gw = "SchedulerChequeGateway (ex_service ScvVoid) ex_late"
  have ready: "db_ready (ex_service ScvVoid)" by (simp add: ex_service_def)
  have rows: "map (\<lambda>r. (row_id r, sender_address r, state r)) (cheques ex_db1) = [(ID ex_cheque, ''GA'', StateImzaliRezerve)]"
    "map (\<lambda>r. (row_id r, sender_address r, state r)) (cheques ex_db2) = [(ID ex_cheque, ''GA'', StateHavuzda)]"
    "faults ex_db1 = []" "faults ex_db2 = []" "''GA'' \<in> set (active_accounts (reservations ex_db2))"
    by code_simp+
  then obtain c1 c2 where c: "c1 \<in> set (cheques ex_db1)" "sender_address c1 = ''GA''" "state c1 = StateImzaliRezerve"
      "c2 \<in> set (cheques ex_db2)" "sender_address c2 = ''GA''" "state c2 = StateHavuzda" "row_id c2 = ID ex_cheque"
    by (fastforce simp: map_eq_Cons_conv)
  have r2: "reach empty_db repo_step ex_db2" by (rule reach_steps [OF ex_db1_reach ex_db2_steps])
  have op: "\<not> IsTerminal (state c1)" "\<not> IsTerminal (state c2)" using c(3,6) by (simp_all add: IsTerminal_def terminalStates_def)
  obtain cs where cs: "gw_ExpiredFundedCheques ?gw ex_db2 = (Inr cs, ex_db2)"
    and iff: "''GA'' \<notin> set (active_accounts (reservations (snd (SweepExpiredCheques ex_sched ?gw ex_moments 0 ex_db2)))) \<longleftrightarrow>
      (\<exists>j < length cs. ec_ID (cs ! j) = row_id c2 \<and> \<not> inBackoff (sch_failures ex_sched) (row_id c2) 0 \<and>
         refund_goes_through ex_sched (mo_chain (ex_moments j)) (cs ! j))"
    using sweep_frees_senders [OF r2 rows(4) ready surjective_pairing c(4) op(2), where s = ex_sched and out = ex_late and mo = ex_moments and now = 0] c(5)
    by auto
  have "ec_ID ` set cs = due_cheques ex_late ex_db2" using expired_listed [OF cs] ex_db2_healthy by simp
  then obtain j where j: "j < length cs" "ec_ID (cs ! j) = ID ex_cheque" by (metis ex_due imageE in_set_conv_nth insertI1)
  have "refund_goes_through ex_sched (mo_chain (ex_moments j)) (cs ! j)"
    using ex_refund_ok [OF j(2), of j] by (auto simp: refund_goes_through_def)
  then have "''GA'' \<notin> set (active_accounts (reservations (snd (SweepExpiredCheques ex_sched ?gw ex_moments 0 ex_db2))))"
    using iff j c(7) by (auto simp: inBackoff_def ex_sched_def)
  moreover have "''GA'' \<in> set (active_accounts (reservations (snd (SweepExpiredCheques ex_sched ?gw ex_moments 0 ex_db1))))"
    using sweep_frees_senders [OF ex_db1_reach rows(3) ready surjective_pairing c(1) op(1), where s = ex_sched and out = ex_late and mo = ex_moments and now = 0] c(2,3)
    by auto
  ultimately show ?thesis using rows(5) by blast
qed

end
