(* ===== verification/Http.thy ===== *)
theory Http
  imports Pay_Prelude
begin

text \<open>
  What the handlers use of \<open>net/http\<close> and \<open>encoding/json\<close>, with \<open>backend/pkg/httpx\<close>,
  \<open>backend/pkg/authx\<close> and the middleware of \<open>backend/pkg/dbx\<close>. A request carries its method, the
  decoded segments of its (clean) path (a trailing slash is a last, empty one), its headers, its body as the JSON value the decoder finds
  in it, and what the middleware and the router put into its context. A handler takes a request
  and the state and returns the response it writes and the state afterwards.
\<close>

section \<open>JSON bodies\<close>

text \<open>\<open>JInt\<close> is a number literal without fraction and exponent, \<open>JNum\<close> any other.\<close>

datatype json = JNull | JBool bool | JInt int | JNum | JStr string | JArr "json list" | JObj "(string \<times> json) list"

text \<open>No value before the end of the body, a body that cannot be read as JSON, or its first value.\<close>

datatype http_body = BodyEOF | BodyBad | BodyDoc json

datatype decode_error = DecEOF | DecOther

text \<open>
  Field names match up to simple Unicode case folding; the characters that fold to an ASCII letter are the
  ASCII letters, the long s and the Kelvin sign (in UTF-8).
\<close>

function fold_name :: "nat list \<Rightarrow> nat list" where
  "fold_name [] = []"
| "fold_name (c # cs) =
     (if c = 197 \<and> take 1 cs = [191] then 83 # fold_name (drop 1 cs)
      else if c = 226 \<and> take 2 cs = [132, 170] then 75 # fold_name (drop 2 cs)
      else (if 97 \<le> c \<and> c \<le> 122 then c - 32 else c) # fold_name cs)"
  by pat_completeness auto
termination by (relation "measure length") auto

definition same_name :: "string \<Rightarrow> string \<Rightarrow> bool" where
  "same_name a b \<longleftrightarrow> a = b \<or> fold_name (map of_char a) = fold_name (map of_char b)"

text \<open>
  A struct is decoded member by member, in the order of the document; a member that does not fit
  its field is skipped, and the error is reported at the end. A field setter returns \<open>None\<close> for a
  value of the wrong type.
\<close>

type_synonym 's fields = "(string \<times> (json \<Rightarrow> 's \<Rightarrow> 's option)) list"

fun decode_members :: "'s fields \<Rightarrow> (string \<times> json) list \<Rightarrow> 's \<Rightarrow> bool \<times> 's" where
  "decode_members fs [] s = (True, s)"
| "decode_members fs ((k, v) # ms) s =
     (case find (\<lambda>(name, put). same_name name k) fs of
        None \<Rightarrow> decode_members fs ms s
      | Some (_, put) \<Rightarrow>
          (case put v s of
             Some s' \<Rightarrow> decode_members fs ms s'
           | None \<Rightarrow> (False, snd (decode_members fs ms s))))"

definition Decode :: "'s fields \<Rightarrow> http_body \<Rightarrow> 's \<Rightarrow> decode_error option \<times> 's" where
  "Decode fs b s =
     (case b of
        BodyEOF \<Rightarrow> (Some DecEOF, s)
      | BodyBad \<Rightarrow> (Some DecOther, s)
      | BodyDoc (JObj ms) \<Rightarrow>
          (case decode_members fs ms s of (ok, s') \<Rightarrow> (if ok then None else Some DecOther, s'))
      | BodyDoc JNull \<Rightarrow> (None, s)
      | BodyDoc _ \<Rightarrow> (Some DecOther, s))"

definition put_string :: "(string \<Rightarrow> 's \<Rightarrow> 's) \<Rightarrow> json \<Rightarrow> 's \<Rightarrow> 's option" where
  "put_string f v s = (case v of JStr x \<Rightarrow> Some (f x s) | JNull \<Rightarrow> Some s | _ \<Rightarrow> None)"

definition put_bool_ptr :: "(bool option \<Rightarrow> 's \<Rightarrow> 's) \<Rightarrow> json \<Rightarrow> 's \<Rightarrow> 's option" where
  "put_bool_ptr f v s = (case v of JBool b \<Rightarrow> Some (f (Some b) s) | JNull \<Rightarrow> Some (f None s) | _ \<Rightarrow> None)"

definition put_int64 :: "(i64 \<Rightarrow> 's \<Rightarrow> 's) \<Rightarrow> json \<Rightarrow> 's \<Rightarrow> 's option" where
  "put_int64 f v s =
     (case v of JInt n \<Rightarrow> if - (2 ^ 63) \<le> n \<and> n < 2 ^ 63 then Some (f (word_of_int n) s) else None
      | JNull \<Rightarrow> Some s | _ \<Rightarrow> None)"

section \<open>Requests and responses\<close>

text \<open>The registered claims the services set, and the account; times are whole seconds.\<close>

record Claims =
  claims_Subject :: string
  claims_StellarAccount :: string
  claims_Issuer :: string
  claims_Audience :: "string list"
  claims_ExpiresAt :: "int option"
  claims_IssuedAt :: "int option"

record http_request =
  req_Method :: string
  req_Path :: "string list"
  req_Query :: "string \<Rightarrow> string" \<comment> \<open>\<open>URL.Query().Get\<close>\<close>
  req_Header :: "string \<Rightarrow> string" \<comment> \<open>\<open>Header.Get\<close>: empty when absent\<close>
  req_Body :: http_body
  req_PathValues :: "(string \<times> string) list"
  req_Claims :: "Claims option"

datatype 'p response_body = DataBody 'p | ErrorBody string string | NoBody

datatype 'p http_response = Response (resp_Status: nat) (resp_Body: "'p response_body")

type_synonym ('d, 'p) handler = "http_request \<Rightarrow> 'd \<Rightarrow> 'p http_response \<times> 'd"

definition PathValue :: "http_request \<Rightarrow> string \<Rightarrow> string" where
  "PathValue r name = (case map_of (req_PathValues r) name of None \<Rightarrow> [] | Some v \<Rightarrow> v)"

definition WriteData :: "nat \<Rightarrow> 'p \<Rightarrow> 'p http_response" where
  "WriteData status payload = Response status (DataBody payload)"

definition WriteError :: "nat \<Rightarrow> string \<Rightarrow> string \<Rightarrow> 'p http_response" where
  "WriteError status code message = Response status (ErrorBody code message)"

text \<open>
  The health endpoint: always 200, with the readiness of the database at the time of the request;
  \<open>payload\<close> is the body in the payload type of the process.
\<close>

definition HealthHandler :: "(bool \<Rightarrow> 'p) \<Rightarrow> bool \<Rightarrow> ('d, 'p) handler" where
  [simp]: "HealthHandler payload ready r d = (WriteData 200 (payload ready), d)"

section \<open>Routing\<close>

text \<open>
  \<open>http.ServeMux\<close>: a \<open>GET\<close> pattern also serves \<open>HEAD\<close>; a wildcard takes one segment (or, written \<open>{name...}\<close>, all that are left); a path that is
  registered for other methods only is answered 405, an unknown one 404.
\<close>

datatype segment = Lit string | Wild string | WildRest string

fun join_slash :: "string list \<Rightarrow> string" where
  "join_slash [] = []"
| "join_slash [x] = x"
| "join_slash (x # y # xs) = x @ CHR ''/'' # join_slash (y # xs)"

fun match_path :: "segment list \<Rightarrow> string list \<Rightarrow> (string \<times> string) list option" where
  "match_path [] [] = Some []"
| "match_path (Lit l # ps) (x # xs) = (if l = x then match_path ps xs else None)"
| "match_path (Wild n # ps) (x # xs) = (if x = [] then None else map_option ((#) (n, x)) (match_path ps xs))"
| "match_path (WildRest n # ps) (x # xs) = (if ps = [] then Some [(n, join_slash (x # xs))] else None)"
| "match_path _ _ = None"

definition method_matches :: "string \<Rightarrow> string \<Rightarrow> bool" where
  "method_matches pattern method \<longleftrightarrow> pattern = method \<or> (pattern = ''GET'' \<and> method = ''HEAD'')"

fun ServeMux :: "(string \<times> segment list \<times> ('d, 'p) handler) list \<Rightarrow> bool \<Rightarrow> ('d, 'p) handler" where
  "ServeMux [] other r db = (Response (if other then 405 else 404) NoBody, db)"
| "ServeMux ((m, ps, h) # rs) other r db =
     (case match_path ps (req_Path r) of
        None \<Rightarrow> ServeMux rs other r db
      | Some vs \<Rightarrow>
          if method_matches m (req_Method r) then h (r\<lparr>req_PathValues := vs\<rparr>) db
          else ServeMux rs True r db)"

section \<open>Authentication\<close>

text \<open>
  The JWT library parses a token under a list of accepted algorithms, an audience to require (if
  any) and a function from the token's signing method to the key to verify with; it returns the
  claims and whether the token is valid.
\<close>

datatype signing_method = SigningMethodRSA string | SigningMethodOther string

type_synonym 'key jwt_parser =
  "string list \<Rightarrow> string option \<Rightarrow> (signing_method \<Rightarrow> 'key res) \<Rightarrow> string \<Rightarrow> (Claims \<times> bool) res"

definition ErrInvalidToken :: go_error where
  "ErrInvalidToken = Sentinel ''authx: invalid or expired token''"

definition VerifyJWT :: "'key jwt_parser \<Rightarrow> string \<Rightarrow> 'key \<Rightarrow> string \<Rightarrow> Claims res" where
  "VerifyJWT jwt token publicKey expectedAudience =
     (case jwt [''RS256''] (if expectedAudience \<noteq> [] then Some expectedAudience else None)
             (\<lambda>m. case m of SigningMethodRSA _ \<Rightarrow> Inr publicKey | SigningMethodOther _ \<Rightarrow> Inl ErrInvalidToken) token of
        Inl _ \<Rightarrow> Inl ErrInvalidToken
      | Inr (claims, valid) \<Rightarrow>
          if \<not> valid then Inl ErrInvalidToken
          else if claims_StellarAccount claims = [] then Inl ErrInvalidToken
          else Inr claims)"

definition accessTokenSubject :: string where
  "accessTokenSubject = ''access''"

definition VerifyAccessToken :: "'key jwt_parser \<Rightarrow> string \<Rightarrow> 'key \<Rightarrow> string \<Rightarrow> Claims res" where
  "VerifyAccessToken jwt token publicKey expectedAudience =
     (case VerifyJWT jwt token publicKey expectedAudience of
        Inl e \<Rightarrow> Inl e
      | Inr claims \<Rightarrow> if claims_Subject claims \<noteq> accessTokenSubject then Inl ErrInvalidToken else Inr claims)"

definition RequireInternalKey :: "string \<Rightarrow> ('d, 'p) handler \<Rightarrow> ('d, 'p) handler" where
  "RequireInternalKey expected next_h r db =
     (if expected = [] \<or> req_Header r ''X-Internal-Api-Key'' \<noteq> expected then (Response 403 NoBody, db)
      else next_h r db)"

definition CutPrefix :: "string \<Rightarrow> string \<Rightarrow> string option" where
  "CutPrefix s prefix = (if take (length prefix) s = prefix then Some (drop (length prefix) s) else None)"

definition RequireBearer ::
  "'key jwt_parser \<Rightarrow> 'key \<Rightarrow> string \<Rightarrow> 'p http_response \<Rightarrow> ('d, 'p) handler \<Rightarrow> ('d, 'p) handler" where
  "RequireBearer jwt publicKey expectedAudience onError next_h r db =
     (case CutPrefix (req_Header r ''Authorization'') ''Bearer '' of
        None \<Rightarrow> (onError, db)
      | Some token \<Rightarrow>
          if token = [] then (onError, db)
          else (case VerifyAccessToken jwt token publicKey expectedAudience of
                  Inl _ \<Rightarrow> (onError, db)
                | Inr claims \<Rightarrow> next_h (r\<lparr>req_Claims := Some claims\<rparr>) db))"

definition ClaimsFromContext :: "http_request \<Rightarrow> Claims option" where
  "ClaimsFromContext r = req_Claims r"

definition RequireReady :: "bool \<Rightarrow> string \<Rightarrow> ('d, 'p) handler \<Rightarrow> ('d, 'p) handler" where
  "RequireReady ready code next_h r db =
     (if \<not> ready then (WriteError 503 code ''database not ready yet'', db) else next_h r db)"

text \<open>The account a request acts for: what \<open>RequireBearer\<close> lets through, if anything.\<close>

definition bearer_account :: "'key jwt_parser \<Rightarrow> 'key \<Rightarrow> string \<Rightarrow> http_request \<Rightarrow> string option" where
  "bearer_account jwt publicKey aud r =
     (case CutPrefix (req_Header r ''Authorization'') ''Bearer '' of
        None \<Rightarrow> None
      | Some token \<Rightarrow> if token = [] then None
          else (case VerifyAccessToken jwt token publicKey aud of
                  Inl _ \<Rightarrow> None | Inr claims \<Rightarrow> Some (claims_StellarAccount claims)))"

lemma VerifyAccessToken_Inr:
  assumes "VerifyAccessToken jwt token key aud = Inr claims"
  shows "claims_Subject claims = ''access''" and "claims_StellarAccount claims \<noteq> []"
    and "\<exists>kf. jwt [''RS256''] (if aud = [] then None else Some aud) kf token = Inr (claims, True)"
  using assms
  by (auto simp: VerifyAccessToken_def VerifyJWT_def accessTokenSubject_def split: sum.splits if_splits)

lemma bearer_cases:
  "(case bearer_account jwt key aud r of
      None \<Rightarrow> RequireBearer jwt key aud onError next_h r db = (onError, db)
    | Some a \<Rightarrow> a \<noteq> [] \<and> (\<exists>claims. claims_StellarAccount claims = a \<and>
        RequireBearer jwt key aud onError next_h r db = next_h (r\<lparr>req_Claims := Some claims\<rparr>) db))"
  by (auto simp: bearer_account_def RequireBearer_def split: option.splits sum.splits if_splits
      dest: VerifyAccessToken_Inr(2))

lemma RequireBearer_split:
  assumes "RequireBearer jwt key aud onError next_h r db = (resp, db')"
  shows "bearer_account jwt key aud r = None \<and> resp = onError \<and> db' = db \<or>
    (\<exists>claims. bearer_account jwt key aud r = Some (claims_StellarAccount claims) \<and>
       next_h (r\<lparr>req_Claims := Some claims\<rparr>) db = (resp, db'))"
  using assms by (auto simp: bearer_account_def RequireBearer_def split: option.splits sum.splits if_splits)

text \<open>A property that every handler of a router has, the router has.\<close>

lemma ServeMux_cases:
  assumes "ServeMux rs b r db = (resp, db')"
  shows "(resp = Response 404 NoBody \<or> resp = Response 405 NoBody) \<and> db' = db \<or>
    (\<exists>m ps h vs. (m, ps, h) \<in> set rs \<and> match_path ps (req_Path r) = Some vs \<and> method_matches m (req_Method r) \<and>
       h (r\<lparr>req_PathValues := vs\<rparr>) db = (resp, db'))"
  using assms by (induction rs b r db rule: ServeMux.induct) (auto split: option.splits if_splits)

section \<open>Properties\<close>

text \<open>
  C19. The bearer gate: a request gets past \<open>RequireBearer\<close> only with an \<open>Authorization: Bearer\<close> token
  that the JWT library finds valid when told to accept RS256 only, to require the audience
  whenever one is configured and to verify with the published key and RSA methods only; the
  token must be an access token (never a refresh token) of a named account, and the handler then
  runs with exactly its claims. Otherwise the caller's error response is written and nothing runs.
\<close>

theorem RequireBearer_gate:
  assumes "RequireBearer jwt publicKey aud onError next_h r db \<noteq> (onError, db)"
  shows "\<exists>token claims kf. req_Header r ''Authorization'' = ''Bearer '' @ token \<and> token \<noteq> [] \<and>
    jwt [''RS256''] (if aud = [] then None else Some aud) kf token = Inr (claims, True) \<and>
    (\<forall>m k. kf m = Inr k \<longrightarrow> k = publicKey \<and> (\<exists>alg. m = SigningMethodRSA alg)) \<and>
    claims_Subject claims = ''access'' \<and> claims_StellarAccount claims \<noteq> [] \<and>
    RequireBearer jwt publicKey aud onError next_h r db = next_h (r\<lparr>req_Claims := Some claims\<rparr>) db"
proof -
  let ?kf = "\<lambda>m. case m of SigningMethodRSA _ \<Rightarrow> Inr publicKey | SigningMethodOther _ \<Rightarrow> Inl ErrInvalidToken"
  obtain token claims where c: "CutPrefix (req_Header r ''Authorization'') ''Bearer '' = Some token" "token \<noteq> []"
      "VerifyAccessToken jwt token publicKey aud = Inr claims"
    using assms by (auto simp: RequireBearer_def split: option.splits if_splits sum.splits)
  have "req_Header r ''Authorization'' = ''Bearer '' @ token"
    using c(1) append_take_drop_id [of "length ''Bearer ''" "req_Header r ''Authorization''"]
    by (auto simp: CutPrefix_def split: if_splits simp del: append_take_drop_id)
  moreover have "jwt [''RS256''] (if aud = [] then None else Some aud) ?kf token = Inr (claims, True)"
    using c(3) by (auto simp: VerifyAccessToken_def VerifyJWT_def split: sum.splits if_splits)
  moreover have "\<forall>m k. ?kf m = Inr k \<longrightarrow> k = publicKey \<and> (\<exists>alg. m = SigningMethodRSA alg)"
    by (auto split: signing_method.splits)
  moreover have "RequireBearer jwt publicKey aud onError next_h r db = next_h (r\<lparr>req_Claims := Some claims\<rparr>) db"
    using c by (simp add: RequireBearer_def)
  ultimately show ?thesis
    using c(2) VerifyAccessToken_Inr(1,2) [OF c(3)] by blast
qed

definition ex_claims :: "string \<Rightarrow> string \<Rightarrow> Claims" where
  "ex_claims sub account = \<lparr>claims_Subject = sub, claims_StellarAccount = account, claims_Issuer = ''pay-auth-service'',
     claims_Audience = [''pay''], claims_ExpiresAt = Some 900, claims_IssuedAt = Some 0\<rparr>"

definition ex_jwt :: "string jwt_parser" where
  "ex_jwt algs aud kf token =
     (if token = ''t1'' then Inr (ex_claims ''access'' ''GA'', True)
      else if token = ''t2'' then Inr (ex_claims ''refresh'' ''GA'', True)
      else Inl (Opaque ''token is malformed''))"

definition ex_request :: "string \<Rightarrow> string \<Rightarrow> string list \<Rightarrow> json \<Rightarrow> http_request" where
  "ex_request token m p doc = \<lparr>req_Method = m, req_Path = p, req_Query = (\<lambda>_. []),
     req_Header = (\<lambda>h. if h = ''Authorization'' then ''Bearer '' @ token else []), req_Body = BodyDoc doc,
     req_PathValues = [], req_Claims = None\<rparr>"

theorem RequireBearer_gate_witness:
  "(\<exists>kf. ex_jwt [''RS256''] (Some ''pay'') kf ''t1'' = Inr (ex_claims ''access'' ''GA'', True)) \<and>
   RequireBearer ex_jwt ''key'' ''pay'' (Response 401 NoBody) (\<lambda>r db. (Response 200 (DataBody (req_Claims r)), db))
     (ex_request ''t1'' ''GET'' [] JNull) () =
   (Response 200 (DataBody (Some (ex_claims ''access'' ''GA''))), ())"
proof -
  let ?h = "\<lambda>r (db :: unit). (Response 200 (DataBody (req_Claims r)), db)"
  have h: "req_Header (ex_request ''t1'' ''GET'' [] JNull) ''Authorization'' = ''Bearer t1''" by (simp add: ex_request_def)
  have "RequireBearer ex_jwt ''key'' ''pay'' (Response 401 NoBody) ?h (ex_request ''t1'' ''GET'' [] JNull) () \<noteq>
      (Response 401 NoBody, ())"
    by (simp add: RequireBearer_def h CutPrefix_def VerifyAccessToken_def VerifyJWT_def ex_jwt_def ex_claims_def accessTokenSubject_def)
  from RequireBearer_gate [OF this] show ?thesis unfolding h by (auto simp: ex_jwt_def)
qed

end
