(* ===== verification/ChequeHttp.thy ===== *)
theory ChequeHttp
  imports Http ChequeProps
begin

text \<open>
  The HTTP surface of the cheque service: \<open>handler.go\<close>, \<open>internal_handler.go\<close>, \<open>endpoint.go\<close> and
  the router of \<open>cmd/chequesvc/main.go\<close>. Each handler decodes its request, calls the service with
  the account of the verified token, and writes the result or the error's code and status.
\<close>

section \<open>Responses\<close>

datatype cheque_payload =
    PCreated CreateChequeResult
  | PFlag string bool \<comment> \<open>\<open>map[string]bool\<close> with one entry\<close>
  | PField string string
  | PView SyncView
  | PCheques "Cheque list"
  | PHealth bool

text \<open>The switch of \<open>writeChequeError\<close>, in the order of its cases.\<close>

definition chequeErrorTable :: "(go_error \<times> string \<times> nat) list" where
  "chequeErrorTable =
    [(ErrDBNotReadyErr, ''cheque.db_not_ready'', 503),
     (errInsufficientBalance, ''cheque.insufficient_balance'', 422),
     (errInsufficientFee, ''cheque.insufficient_fee'', 422),
     (errAlreadyActive, ''cheque.already_active'', 409),
     (errInvalidReceiver, ''cheque.invalid_receiver'', 400),
     (errSenderNoTrustline, ''cheque.sender_no_trustline'', 422),
     (errReceiverNoTrustline, ''cheque.receiver_no_trustline'', 422),
     (errSelfTransfer, ''cheque.self_transfer'', 400),
     (errRequestUsed, ''cheque.request_used'', 409),
     (errInvalidRequestID, ''cheque.invalid_request_id'', 400),
     (errInvalidAmount, ''cheque.invalid_amount'', 400),
     (errExpired, ''cheque.expired'', 409),
     (errTerminalState, ''cheque.terminal_state'', 409),
     (errNotFound, ''cheque.not_found'', 404),
     (errChainUnavailable, ''chain.rpc_unavailable'', 502),
     (errAccountNotFunded, ''cheque.account_not_funded'', 422),
     (errSimulationFailed, ''cheque.simulation_failed'', 422),
     (errAlreadyClaimed, ''cheque.already_claimed'', 409),
     (errNotFunded, ''cheque.not_funded'', 422)]"

definition writeChequeError :: "go_error \<Rightarrow> 'p http_response" where
  "writeChequeError e =
     (case find (\<lambda>(target, _). errors_Is e target) chequeErrorTable of
        None \<Rightarrow> WriteError 400 ''cheque.bad_request'' (err_text e)
      | Some (_, code, status) \<Rightarrow> WriteError status code (err_text e))"

text \<open>\<open>if err != nil { writeChequeError(w, err); return }; httpx.WriteData(w, status, data)\<close>.\<close>

definition respond :: "nat \<Rightarrow> ('a \<Rightarrow> 'p) \<Rightarrow> 'a res \<times> 'd \<Rightarrow> 'p http_response \<times> 'd" where
  "respond status f rd = (case rd of
     (Inl e, db) \<Rightarrow> (writeChequeError e, db) | (Inr x, db) \<Rightarrow> (WriteData status (f x), db))"

definition badBody :: "string \<Rightarrow> 'p http_response" where
  "badBody msg = WriteError 400 ''cheque.bad_request'' msg"

definition callerAddress :: "http_request \<Rightarrow> string option" where
  "callerAddress r = (case ClaimsFromContext r of None \<Rightarrow> None | Some claims \<Rightarrow> Some (claims_StellarAccount claims))"

text \<open>The opening of every handler: the caller's address, or 401.\<close>

definition with_caller :: "(string \<Rightarrow> ('d, 'p) handler) \<Rightarrow> ('d, 'p) handler" where
  "with_caller h r db = (case callerAddress r of
     None \<Rightarrow> (WriteError 401 ''auth.invalid_token'' ''missing bearer claims'', db) | Some a \<Rightarrow> h a r db)"

section \<open>Request bodies\<close>

record createChequeRequest =
  cr_Receiver :: string
  cr_Amount :: string
  cr_RequestID :: string

definition createChequeFields :: "createChequeRequest fields" where
  "createChequeFields =
    [(''receiver'', put_string (\<lambda>x s. s\<lparr>cr_Receiver := x\<rparr>)), (''amount'', put_string (\<lambda>x s. s\<lparr>cr_Amount := x\<rparr>)),
     (''requestId'', put_string (\<lambda>x s. s\<lparr>cr_RequestID := x\<rparr>))]"

record confirmForceCollectRequest =
  fc_TxHash :: string
  fc_Collected :: "bool option"

definition confirmForceCollectFields :: "confirmForceCollectRequest fields" where
  "confirmForceCollectFields =
    [(''txHash'', put_string (\<lambda>x s. s\<lparr>fc_TxHash := x\<rparr>)), (''collected'', put_bool_ptr (\<lambda>x s. s\<lparr>fc_Collected := x\<rparr>))]"

text \<open>The requests with a single string are decoded into the string.\<close>

definition stringField :: "string \<Rightarrow> string fields" where
  "stringField name = [(name, put_string (\<lambda>x _. x))]"

definition depositFields :: "(string \<times> i64) fields" where
  "depositFields = [(''amount'', put_string (\<lambda>x (_, l). (x, l))), (''ledgerSeq'', put_int64 (\<lambda>x (a, _). (a, x)))]"

text \<open>An empty body leaves the request at its zero value and is no error.\<close>

definition decodeConfirmBody :: "'s fields \<Rightarrow> http_body \<Rightarrow> 's \<Rightarrow> bool \<times> 's" where
  "decodeConfirmBody fs b s = (case Decode fs b s of
      (None, s') \<Rightarrow> (True, s') | (Some DecEOF, s') \<Rightarrow> (True, s') | (Some DecOther, s') \<Rightarrow> (False, s'))"

section \<open>Handlers\<close>

definition h_CreateCheque :: "'tx Service \<Rightarrow> outside \<Rightarrow> (pay_db, cheque_payload) handler" where
  "h_CreateCheque s out = with_caller (\<lambda>sender r db.
     (case Decode createChequeFields (req_Body r) \<lparr>cr_Receiver = [], cr_Amount = [], cr_RequestID = []\<rparr> of
        (Some _, _) \<Rightarrow> (badBody ''invalid JSON body'', db)
      | (None, req) \<Rightarrow>
          respond 201 PCreated (CreateCheque s out sender (cr_Receiver req) (cr_Amount req) (cr_RequestID req) db)))"

definition h_StorePreauth :: "'tx Service \<Rightarrow> (pay_db, cheque_payload) handler" where
  "h_StorePreauth s = with_caller (\<lambda>caller r db.
     (case Decode (stringField ''signedEntryXdr'') (req_Body r) [] of
        (Some _, _) \<Rightarrow> (badBody ''signedEntryXdr is required'', db)
      | (None, entry) \<Rightarrow>
          if entry = [] then (badBody ''signedEntryXdr is required'', db)
          else respond 200 (\<lambda>_. PFlag ''stored'' True) (StorePreauth s (PathValue r ''id'') caller entry db)))"

definition h_ClaimXDR :: "'tx Service \<Rightarrow> outside \<Rightarrow> (pay_db, cheque_payload) handler" where
  "h_ClaimXDR s out = with_caller (\<lambda>receiver r db.
     respond 200 (PField ''claimXdr'') (ClaimXDR s out (PathValue r ''id'') receiver db))"

definition h_ForceCollectXDR :: "'tx Service \<Rightarrow> (pay_db, cheque_payload) handler" where
  "h_ForceCollectXDR s = with_caller (\<lambda>receiver r db.
     respond 200 (PField ''forceCollectXdr'') (ForceCollectXDR s (PathValue r ''id'') receiver db))"

definition h_ConfirmLock :: "'tx Service \<Rightarrow> (pay_db, cheque_payload) handler" where
  "h_ConfirmLock s = with_caller (\<lambda>caller r db.
     (case decodeConfirmBody (stringField ''txHash'') (req_Body r) [] of
        (False, _) \<Rightarrow> (badBody ''invalid JSON body'', db)
      | (True, txHash) \<Rightarrow>
          respond 200 (\<lambda>_. PFlag ''confirmed'' True) (ConfirmLock s (PathValue r ''id'') caller txHash db)))"

definition h_ConfirmClaim :: "'tx Service \<Rightarrow> (pay_db, cheque_payload) handler" where
  "h_ConfirmClaim s = with_caller (\<lambda>caller r db.
     (case decodeConfirmBody (stringField ''txHash'') (req_Body r) [] of
        (False, _) \<Rightarrow> (badBody ''invalid JSON body'', db)
      | (True, txHash) \<Rightarrow>
          respond 200 (\<lambda>_. PFlag ''confirmed'' True) (ConfirmClaim s (PathValue r ''id'') caller txHash db)))"

definition h_AcknowledgeReceipt :: "'tx Service \<Rightarrow> (pay_db, cheque_payload) handler" where
  "h_AcknowledgeReceipt s = with_caller (\<lambda>caller r db.
     respond 200 (\<lambda>_. PFlag ''acknowledged'' True) (AcknowledgeReceipt s (PathValue r ''id'') caller db))"

definition h_ConfirmForceCollect :: "'tx Service \<Rightarrow> (pay_db, cheque_payload) handler" where
  "h_ConfirmForceCollect s = with_caller (\<lambda>caller r db.
     (case decodeConfirmBody confirmForceCollectFields (req_Body r) \<lparr>fc_TxHash = [], fc_Collected = None\<rparr> of
        (False, _) \<Rightarrow> (badBody ''collected is required'', db)
      | (True, req) \<Rightarrow>
          (case fc_Collected req of
             None \<Rightarrow> (badBody ''collected is required'', db)
           | Some collected \<Rightarrow>
               respond 200 (\<lambda>_. PFlag ''confirmed'' True)
                 (ConfirmForceCollect s (PathValue r ''id'') caller (fc_TxHash req) collected db))))"

definition h_Sync :: "'tx Service \<Rightarrow> outside \<Rightarrow> (pay_db, cheque_payload) handler" where
  "h_Sync s out = with_caller (\<lambda>address r db. respond 200 PView (Sync s out address db))"

definition h_PoolDepositXDR :: "'tx Service \<Rightarrow> (pay_db, cheque_payload) handler" where
  "h_PoolDepositXDR s = with_caller (\<lambda>owner r db.
     (case Decode (stringField ''amount'') (req_Body r) [] of
        (Some _, _) \<Rightarrow> (badBody ''invalid JSON body'', db)
      | (None, amount) \<Rightarrow> respond 200 (PField ''depositXdr'') (PoolDepositXDR s owner amount, db)))"

definition h_PoolWithdrawXDR :: "'tx Service \<Rightarrow> (pay_db, cheque_payload) handler" where
  "h_PoolWithdrawXDR s = with_caller (\<lambda>owner r db.
     (case Decode (stringField ''amount'') (req_Body r) [] of
        (Some _, _) \<Rightarrow> (badBody ''invalid JSON body'', db)
      | (None, amount) \<Rightarrow> respond 200 (PField ''withdrawXdr'') (PoolWithdrawXDR s owner amount, db)))"

definition h_ConfirmPoolDeposit :: "'tx Service \<Rightarrow> (pay_db, cheque_payload) handler" where
  "h_ConfirmPoolDeposit s = with_caller (\<lambda>owner r db.
     (case Decode depositFields (req_Body r) ([], 0) of
        (Some _, _) \<Rightarrow> (badBody ''invalid JSON body'', db)
      | (None, amount, ledgerSeq) \<Rightarrow>
          respond 200 (\<lambda>_. PFlag ''confirmed'' True) (ConfirmPoolDeposit s owner amount ledgerSeq db)))"

definition h_ConfirmPoolWithdraw :: "'tx Service \<Rightarrow> (pay_db, cheque_payload) handler" where
  "h_ConfirmPoolWithdraw s = with_caller (\<lambda>owner r db.
     (case Decode (stringField ''amount'') (req_Body r) [] of
        (Some _, _) \<Rightarrow> (badBody ''invalid JSON body'', db)
      | (None, amount) \<Rightarrow> respond 200 (\<lambda>_. PFlag ''confirmed'' True) (ConfirmPoolWithdraw s owner amount db)))"

definition h_ExpiredFunded :: "'tx Service \<Rightarrow> outside \<Rightarrow> (pay_db, cheque_payload) handler" where
  "h_ExpiredFunded s out r db = respond 200 PCheques (ExpiredFundedCheques s out db)"

text \<open>The body's decoding error is ignored.\<close>

definition h_MarkRefunded :: "'tx Service \<Rightarrow> (pay_db, cheque_payload) handler" where
  "h_MarkRefunded s r db =
     respond 200 (\<lambda>_. PFlag ''marked'' True)
       (MarkRefunded s (PathValue r ''id'') (snd (Decode (stringField ''txHash'') (req_Body r) [])) db)"

section \<open>Routes\<close>

definition RegisterRoutes :: "'tx Service \<Rightarrow> outside \<Rightarrow> (string \<times> segment list \<times> (pay_db, cheque_payload) handler) list" where
  "RegisterRoutes s out =
    [(''POST'', [Lit ''cheques''], h_CreateCheque s out),
     (''POST'', [Lit ''cheques'', Wild ''id'', Lit ''preauth''], h_StorePreauth s),
     (''POST'', [Lit ''cheques'', Wild ''id'', Lit ''claim-xdr''], h_ClaimXDR s out),
     (''POST'', [Lit ''cheques'', Wild ''id'', Lit ''force-collect-xdr''], h_ForceCollectXDR s),
     (''POST'', [Lit ''cheques'', Wild ''id'', Lit ''confirm-lock''], h_ConfirmLock s),
     (''POST'', [Lit ''cheques'', Wild ''id'', Lit ''confirm-claim''], h_ConfirmClaim s),
     (''POST'', [Lit ''cheques'', Wild ''id'', Lit ''confirm-force-collect''], h_ConfirmForceCollect s),
     (''POST'', [Lit ''cheques'', Wild ''id'', Lit ''ack''], h_AcknowledgeReceipt s),
     (''GET'', [Lit ''sync''], h_Sync s out),
     (''POST'', [Lit ''pool'', Lit ''deposit-xdr''], h_PoolDepositXDR s),
     (''POST'', [Lit ''pool'', Lit ''withdraw-xdr''], h_PoolWithdrawXDR s),
     (''POST'', [Lit ''pool'', Lit ''confirm-deposit''], h_ConfirmPoolDeposit s),
     (''POST'', [Lit ''pool'', Lit ''confirm-withdraw''], h_ConfirmPoolWithdraw s)]"

definition RegisterInternalRoutes ::
  "'tx Service \<Rightarrow> outside \<Rightarrow> (string \<times> segment list \<times> (pay_db, cheque_payload) handler) list" where
  "RegisterInternalRoutes s out =
    [(''GET'', [Lit ''internal'', Lit ''cheques'', Lit ''expired-funded''], h_ExpiredFunded s out),
     (''POST'', [Lit ''internal'', Lit ''cheques'', Wild ''id'', Lit ''mark-refunded''], h_MarkRefunded s)]"

record 'key server =
  srv_jwt :: "'key jwt_parser"
  srv_publicKey :: 'key
  srv_webAuthDomain :: string
  srv_internalKey :: string

definition unauthorized :: "'p http_response" where
  "unauthorized = WriteError 401 ''auth.invalid_token'' ''missing or invalid bearer token''"

text \<open>
  The root router of the process: \<open>GET /health\<close>, the subtree \<open>/internal/\<close> (a request for
  \<open>/internal\<close> itself is redirected there), and everything else.
\<close>

definition chequesvc :: "'key server \<Rightarrow> 'tx Service \<Rightarrow> outside \<Rightarrow> (pay_db, cheque_payload) handler" where
  "chequesvc srv s out r db =
     (if req_Path r = [''health''] \<and> method_matches ''GET'' (req_Method r)
      then HealthHandler PHealth (pool_ready s) r db
      else if req_Path r = [''internal''] then (Response 307 NoBody, db)
      else if take 1 (req_Path r) = [''internal'']
      then RequireInternalKey (srv_internalKey srv)
             (RequireReady (pool_ready s) ''cheque.db_not_ready'' (ServeMux (RegisterInternalRoutes s out) False)) r db
      else RequireReady (pool_ready s) ''cheque.db_not_ready''
             (RequireBearer (srv_jwt srv) (srv_publicKey srv) (srv_webAuthDomain srv) unauthorized
               (ServeMux (RegisterRoutes s out) False)) r db)"

section \<open>What a call may touch\<close>

text \<open>
  Relations between the databases before and after a call that compose: reflexive, transitive, and
  kept by connection faults alone. Every such relation passes through the control flow of the service.
\<close>

locale db_relation =
  fixes rel :: "pay_db \<Rightarrow> pay_db \<Rightarrow> bool"
  assumes rel_same: "same_tables a b \<Longrightarrow> rel a b"
    and rel_trans: "rel a b \<Longrightarrow> rel b c \<Longrightarrow> rel a c"
begin

lemma ret: "rel db (snd (r, db))"
  by (simp add: rel_same)

lemma bind: "rel db (snd rd) \<Longrightarrow> (\<And>x d. rel d (snd (f x d))) \<Longrightarrow> rel db (snd (db_bind rd f))"
  unfolding db_bind_def by (cases rd; cases "fst rd") (auto intro: rel_trans)

lemma on_error: "rel db (snd rd) \<Longrightarrow> (\<And>e d. rel d (snd (f e d))) \<Longrightarrow> (\<And>x d. rel d (snd (g x d))) \<Longrightarrow>
    rel db (snd (case rd of (Inl e, d) \<Rightarrow> f e d | (Inr x, d) \<Rightarrow> g x d))"
  by (cases rd; cases "fst rd") (auto intro: rel_trans)

lemma branch: "rel db (snd a) \<Longrightarrow> rel db (snd b) \<Longrightarrow> rel db (snd (if c then a else b))"
  by simp

lemma result: "(\<And>e. rel db (snd (f e))) \<Longrightarrow> (\<And>x. rel db (snd (g x))) \<Longrightarrow>
    rel db (snd (case r of Inl e \<Rightarrow> f e | Inr x \<Rightarrow> g x))"
  by (cases r) simp_all

lemma pair: "(\<And>a b. rel db (snd (f a b))) \<Longrightarrow> rel db (snd (case p of (a, b) \<Rightarrow> f a b))"
  by (cases p) simp

lemma pair_arg: "(\<And>a b. rel db (snd (f a b d))) \<Longrightarrow> rel db (snd ((case p of (a, b) \<Rightarrow> f a b) d))"
  by (cases p) simp

lemma tolerated: "rel db (snd rd) \<Longrightarrow> rel db (snd (tolerate rd))"
  unfolding tolerate_def by (rule on_error) (simp_all add: rel_same)

lemma checked: "rel db (snd (getCheque s x db))"
  using getCheque_same [of s x db] by (cases "getCheque s x db") (simp add: rel_same)

lemma executed:
  assumes "pure_stmt f" and "\<And>x d. f db = Inr (x, d) \<Longrightarrow> rel db d"
  shows "rel db (snd (exec f db))"
proof -
  obtain r d where e: "exec f db = (r, d)" by fastforce
  from exec_pure_cases [OF assms(1) e] show ?thesis
    using assms(2) by (auto simp: e intro: rel_same rel_trans)
qed

lemmas flow = ret bind on_error branch result tolerated checked

end

interpretation run: db_relation "repo_step\<^sup>*\<^sup>*"
  by unfold_locales (auto intro: same_tables_step)

text \<open>
  Cheques outside a set keep their rows (new ones may appear), and the pool rows of all owners but
  one stay as they are.
\<close>

definition touches :: "string set \<Rightarrow> string \<Rightarrow> pay_db \<Rightarrow> pay_db \<Rightarrow> bool" where
  "touches X a db db' \<longleftrightarrow>
     (\<forall>y row. y \<notin> X \<longrightarrow> find (\<lambda>r. row_id r = y) (cheques db) = Some row \<longrightarrow>
        find (\<lambda>r. row_id r = y) (cheques db') = Some row) \<and>
     (\<forall>o'. o' \<noteq> a \<longrightarrow> filter (\<lambda>p. owner_address p = o') (pool_deposits db') =
        filter (\<lambda>p. owner_address p = o') (pool_deposits db))"

interpretation touch: db_relation "touches X a" for X a
  by unfold_locales (auto simp: touches_def dest: same_tables_proj)

lemma touches_frame: "cheques d = cheques db \<Longrightarrow> pool_deposits d = pool_deposits db \<Longrightarrow> touches X a db d"
  by (simp add: touches_def)

lemma touches_refl [simp]: "touches X a db db"
  by (simp add: touches_frame)

lemma touches_audit: "touches X a db (snd (r, audit b c e db))"
  by (simp add: touches_frame)

lemma find_update_other:
  "y \<noteq> x \<Longrightarrow> (\<And>r. row_id (f r) = row_id r) \<Longrightarrow>
   find (\<lambda>r. row_id r = y) (map (\<lambda>r. if row_id r = x \<and> P r then f r else r) cs) = find (\<lambda>r. row_id r = y) cs"
  by (induction cs) auto

lemma touches_update:
  assumes "x \<in> X" and "update_cheques (\<lambda>r. row_id r = x \<and> P r) f db = Inr (n, d)" and "\<And>r. row_id (f r) = row_id r"
  shows "touches X a db d"
proof -
  have "y \<noteq> x" if "y \<notin> X" for y using that assms(1) by blast
  moreover have "cheques d = map (\<lambda>r. if row_id r = x \<and> P r then (f r)\<lparr>updated_at := db_clock db\<rparr> else r) (cheques db)"
      "pool_deposits d = pool_deposits db" using assms(2) by (auto simp: update_cheques_def)
  ultimately show ?thesis
    using find_update_other [of _ x "\<lambda>r. (f r)\<lparr>updated_at := db_clock db\<rparr>" P "cheques db"] assms(3)
    by (simp add: touches_def)
qed

lemma touches_Transition: "x \<in> X \<Longrightarrow> touches X a db (snd (Transition x f t cs h db))"
proof -
  assume x: "x \<in> X"
  obtain r d where tr: "Transition x f t cs h db = (r, d)" by fastforce
  have move: "touches X a db (moved x f t cs h db)"
  proof -
    have "find (\<lambda>r. row_id r = y) (map (move_row x f t (db_clock db)) cs) = find (\<lambda>r. row_id r = y) cs"
      if "y \<noteq> x" for y cs
      using that by (induction cs) (auto simp: move_row_def)
    moreover have "y \<noteq> x" if "y \<notin> X" for y using that x by blast
    ultimately show ?thesis by (simp add: touches_def moved_def)
  qed
  from Transition_cases [OF tr] show ?thesis
    using move by (auto simp: tr intro: touch.rel_same touch.rel_trans)
qed

lemma touches_setters:
  assumes "x \<in> X"
  shows "touches X a db (snd (SetPreauthEntry x e db))" and "touches X a db (snd (SetLockTxHash x e db))"
proof -
  have set_row: "touches X a db (snd (exec (update_cheques (\<lambda>r. row_id r = x) f) db))" if "\<And>r. row_id (f r) = row_id r" for f
    using touches_update [OF assms, of "\<lambda>_. True" f db _ _ a] that
    by (intro touch.executed pure_update_cheques) simp
  show "touches X a db (snd (SetPreauthEntry x e db))" "touches X a db (snd (SetLockTxHash x e db))"
    unfolding SetPreauthEntry_def SetLockTxHash_def by (intro touch.on_error set_row touch.ret; simp)+
qed

lemma touches_Create: "touches X a db (snd (CreateReservedCheque c db))"
proof -
  obtain r d where cr: "CreateReservedCheque c db = (r, d)" by fastforce
  have "touches X a db d'" if "create_stmts c db = Inr ((), d')" for d'
  proof -
    from that obtain d1 d2 where
        d1: "insert_cheque c db = Inr ((), d1)"
      and d2: "insert_reservation (ID c) (SenderAddress c) (AmountRaw c) d1 = Inr ((), d2)"
      and d3: "insert_transition (ID c) StateTaslak StateImzaliRezerve ''user_action'' [] d2 = Inr ((), d')"
      by (rule create_stmts_Inr)
    have "pool_deposits d2 = pool_deposits d1" using d2 by (rule insert_reservation_Inr) simp
    moreover have "pool_deposits d' = pool_deposits d2" "cheques d' = cheques d2"
      using insert_transition_Inr(1) [OF d3] by simp_all
    moreover obtain row where "d1 = db\<lparr>cheques := cheques db @ [row]\<rparr>" using insert_cheque_row [OF d1] by blast
    ultimately show ?thesis
      using insert_reservation_keeps(1) [OF d2] by (simp add: touches_def find_append)
  qed
  then show ?thesis using CreateReservedCheque_cases [OF cr] by (auto simp: cr intro: touch.rel_same touch.rel_trans)
qed

lemma filter_owner_map:
  "o' \<noteq> a \<Longrightarrow> (\<And>r. owner_address (f r) = owner_address r) \<Longrightarrow>
   filter (\<lambda>p. owner_address p = o') (map (\<lambda>r. if owner_address r = a then f r else r) ps) =
   filter (\<lambda>p. owner_address p = o') ps"
  by (induction ps) auto

lemma touches_upsert:
  assumes "upsert_pool a n new upd db = Inr (x, d)"
    and "\<And>m. owner_address (new m) = a" and "\<And>m r. owner_address (upd m r) = owner_address r"
  shows "touches X a db d"
proof -
  have "cheques d = cheques db" using assms(1) by (auto simp: upsert_pool_def split: option.splits if_splits)
  have "(\<exists>m. pool_deposits d = pool_deposits db @ [new m]) \<or>
      (\<exists>m. pool_deposits d = map (\<lambda>r. if owner_address r = a then upd m r else r) (pool_deposits db))"
    using assms(1) by (auto simp: upsert_pool_def split: option.splits if_splits)
  then show ?thesis
  proof
    assume "\<exists>m. pool_deposits d = pool_deposits db @ [new m]"
    then show ?thesis using \<open>cheques d = cheques db\<close> assms(2) by (auto simp: touches_def)
  next
    assume "\<exists>m. pool_deposits d = map (\<lambda>r. if owner_address r = a then upd m r else r) (pool_deposits db)"
    then obtain m where "pool_deposits d = map (\<lambda>r. if owner_address r = a then upd m r else r) (pool_deposits db)" ..
    then show ?thesis
      using \<open>cheques d = cheques db\<close> filter_owner_map [of _ a "upd m" "pool_deposits db"] assms(3) by (simp add: touches_def)
  qed
qed

lemma touches_debit:
  assumes "debit_pool a n db = Inr (x, d)"
  shows "touches X a db d"
proof -
  obtain m where "bigint_SetString n = Some m" using assms by (cases "bigint_SetString n") (auto simp: debit_pool_def)
  then have "cheques d = cheques db" "pool_deposits d = map (\<lambda>r. if owner_address r = a
      then r\<lparr>pl_amount_raw := max (pl_amount_raw r - m) 0, pl_updated_at := db_clock db\<rparr> else r) (pool_deposits db)"
    using assms by (auto simp: debit_pool_def split: if_splits)
  then show ?thesis
    unfolding touches_def by (intro conjI allI impI) (simp, simp only:, rule filter_owner_map, simp_all)
qed

lemma touches_pool:
  "touches X a db (snd (RecordDeposit a n k l db))" "touches X a db (snd (RecordWithdraw a n db))"
  "touches X a db (snd (SetPoolAmount a n k db))"
proof -
  have up: "touches X a db (snd (exec (upsert_pool a n new upd) db))"
    if "\<And>m. owner_address (new m) = a" "\<And>m r. owner_address (upd m r) = owner_address r" for new upd
    by (rule touch.executed [OF pure_upsert_pool]) (rule touches_upsert [OF _ that])
  have down: "touches X a db (snd (exec (debit_pool a n) db))"
    by (rule touch.executed [OF pure_debit_pool]) (rule touches_debit)
  show "touches X a db (snd (RecordDeposit a n k l db))" "touches X a db (snd (SetPoolAmount a n k db))"
    unfolding RecordDeposit_def SetPoolAmount_def Let_def by (rule touch.on_error, rule up; simp add: touches_frame)+
  show "touches X a db (snd (RecordWithdraw a n db))"
    unfolding RecordWithdraw_def by (intro touch.on_error touch.branch down touch.ret)
qed

lemma touches_GetPool: "touches X a db (snd (GetPool b db))"
  unfolding GetPool_def
  by (auto split: prod.splits sum.splits option.splits intro: touch.rel_same dest: exec_read_same(1))

lemma touches_ListActive: "touches X a db (snd (ListActiveForAddress b db))"
  unfolding ListActiveForAddress_def
  by (auto split: prod.splits sum.splits intro: touch.rel_same dest: exec_read_same(1))

lemma touches_reconcile: "touches X a db (snd (reconcilePoolWithChain s a pool q db))"
  unfolding reconcilePoolWithChain_def Let_def
  by (auto simp: touches_frame split: option.split prod.split sum.split) (metis snd_conv touches_pool(3))+

lemma touches_Sync: "touches X a db (snd (Sync s out a db))"
proof -
  have fin: "touches X a d (snd (let (chqs, pool, db3) = (case GetAccount (chain s) a of
           Inl _ \<Rightarrow> (chqs, pool, d) | Inr acc \<Rightarrow>
             (let verified = f acc; (pool', db') = reconcilePoolWithChain s a pool (acc_Sequence acc) d
              in (verified, pool', db'))) in (g chqs pool, db3)))" for chqs pool d f g
    using touches_reconcile [of X a d s pool]
    by (auto simp: touches_frame Let_def split: sum.split prod.split) (metis snd_conv)
  show ?thesis
    unfolding Sync_def Let_def
    by (rule touch.branch, rule touch.ret, rule touch.bind, rule touches_ListActive, rule touch.bind,
        rule touches_GetPool, rule touch.pair_arg) (intro touch.bind touch.ret fin [unfolded Let_def])
qed

lemma touches_CreateCheque: "touches X a db (snd (CreateCheque s out b c n q db))"
proof (cases "createChecks s b c n q")
  case (Inr p)
  show ?thesis
    unfolding CreateCheque_def Let_def Inr sum.case
    by (rule touch.pair, rule touch.on_error, rule touches_Create, rule touch.ret, rule touch.result, rule touch.ret,
        (rule touch.pair)+, rule touches_audit)
qed (simp add: CreateCheque_def touches_frame)

lemma touches_cheque_ops:
  assumes "x \<in> X"
  shows "touches X a db (snd (StorePreauth s x caller e db))" "touches X a db (snd (ConfirmLock s x caller h db))"
    "touches X a db (snd (ConfirmClaim s x caller h db))" "touches X a db (snd (AcknowledgeReceipt s x caller db))"
    "touches X a db (snd (ConfirmForceCollect s x caller h b db))"
  unfolding StorePreauth_def ConfirmLock_def ConfirmClaim_def AcknowledgeReceipt_def ConfirmForceCollect_def
  by (intro touch.flow touches_Transition [OF assms] touches_setters [OF assms] touches_audit)+

lemma touches_claims:
  assumes "x \<in> X"
  shows "touches X a db (snd (ClaimXDR s out x caller db))" "touches X a db (snd (ForceCollectXDR s x caller db))"
proof -
  show "touches X a db (snd (ClaimXDR s out x caller db))"
    unfolding ClaimXDR_def Let_def
    by (intro touch.flow; (split option.split)?; (split option.split)?;
        auto intro!: touch.flow touches_Transition [OF assms] touches_audit)
  have "touches X a d (snd (case buildForceCollect s x caller c of Inl e \<Rightarrow> (Inl e, d) | Inr y \<Rightarrow>
          (Inr y, snd (Transition x (ChequeState c) StateZorlaTahsilDenendi ''user_action'' [] d))))" for c d
    using touches_Transition [OF assms] by (auto simp: touches_frame split: sum.split)
  then show "touches X a db (snd (ForceCollectXDR s x caller db))"
    unfolding ForceCollectXDR_def by (intro touch.bind touch.checked)
qed

lemma touches_pool_ops:
  "touches X a db (snd (ConfirmPoolDeposit s a n l db))" "touches X a db (snd (ConfirmPoolWithdraw s a n db))"
  unfolding ConfirmPoolDeposit_def ConfirmPoolWithdraw_def Let_def
  by (intro touch.flow touches_pool touches_audit)+

section \<open>What a request may do\<close>

text \<open>A request of account \<open>a\<close> leaves the cheques of others and the pool rows of others alone.\<close>

definition confined :: "string \<Rightarrow> pay_db \<Rightarrow> pay_db \<Rightarrow> bool" where
  "confined a db db' \<longleftrightarrow>
     (\<forall>x row. find (\<lambda>r. row_id r = x) (cheques db) = Some row \<longrightarrow> a \<noteq> sender_address row \<longrightarrow>
        a \<noteq> receiver_address row \<longrightarrow> find (\<lambda>r. row_id r = x) (cheques db') = Some row) \<and>
     (\<forall>o'. o' \<noteq> a \<longrightarrow> filter (\<lambda>p. owner_address p = o') (pool_deposits db') =
        filter (\<lambda>p. owner_address p = o') (pool_deposits db))"

lemma confined_refl [simp]: "confined a db db"
  by (simp add: confined_def)

lemma confined_touch_none: "touches {} a db db' \<Longrightarrow> confined a db db'"
  by (simp add: confined_def touches_def)

lemma confined_touch_one:
  assumes "touches {x} a db db'"
    and "\<And>row. find (\<lambda>r. row_id r = x) (cheques db) = Some row \<Longrightarrow> a \<noteq> sender_address row \<Longrightarrow>
      a \<noteq> receiver_address row \<Longrightarrow> same_tables db db'"
  shows "confined a db db'"
  unfolding confined_def
proof (intro conjI allI impI)
  fix y row
  assume row: "find (\<lambda>r. row_id r = y) (cheques db) = Some row" "a \<noteq> sender_address row" "a \<noteq> receiver_address row"
  show "find (\<lambda>r. row_id r = y) (cheques db') = Some row"
  proof (cases "y = x")
    case True
    then have "cheques db' = cheques db" using assms(2) [of row] row same_tables_proj by blast
    then show ?thesis using row by simp
  next
    case False
    then show ?thesis using assms(1) row unfolding touches_def by blast
  qed
qed (use assms(1) in \<open>simp add: touches_def\<close>)

lemma confined_cheque_ops:
  "confined a db (snd (StorePreauth s x a e db))" "confined a db (snd (ConfirmLock s x a h db))"
  "confined a db (snd (ConfirmClaim s x a h db))" "confined a db (snd (AcknowledgeReceipt s x a db))"
  "confined a db (snd (ConfirmForceCollect s x a h b db))" "confined a db (snd (ClaimXDR s out x a db))"
  "confined a db (snd (ForceCollectXDR s x a db))"
proof -
  have x: "x \<in> {x}" by simp
  note t = touches_cheque_ops [OF x] touches_claims [OF x]
  note g = party_guard [where caller = a and s = s and x = x and db = db and e = e and h = h and b = b and out = out]
  show "confined a db (snd (StorePreauth s x a e db))"
    by (rule confined_touch_one [OF t(1)]) (drule g; simp)
  show "confined a db (snd (ConfirmLock s x a h db))"
    by (rule confined_touch_one [OF t(2)]) (drule g; simp)
  show "confined a db (snd (ConfirmClaim s x a h db))"
    by (rule confined_touch_one [OF t(3)]) (drule g; simp)
  show "confined a db (snd (AcknowledgeReceipt s x a db))"
    by (rule confined_touch_one [OF t(4)]) (drule g; simp)
  show "confined a db (snd (ConfirmForceCollect s x a h b db))"
    by (rule confined_touch_one [OF t(5)]) (drule g; simp)
  show "confined a db (snd (ClaimXDR s out x a db))"
    by (rule confined_touch_one [OF t(6)]) (drule g; simp)
  show "confined a db (snd (ForceCollectXDR s x a db))"
    by (rule confined_touch_one [OF t(7)]) (drule g; simp)
qed

lemma snd_respond [simp]: "snd (respond st f rd) = snd rd"
  by (cases rd; cases "fst rd") (auto simp: respond_def)

lemma snd_with_caller:
  "snd (with_caller h r db) = (case req_Claims r of None \<Rightarrow> db | Some c \<Rightarrow> snd (h (claims_StellarAccount c) r db))"
  by (simp add: with_caller_def callerAddress_def ClaimsFromContext_def split: option.split)

lemmas handler_defs =
  h_CreateCheque_def h_StorePreauth_def h_ClaimXDR_def h_ForceCollectXDR_def h_ConfirmLock_def h_ConfirmClaim_def
  h_AcknowledgeReceipt_def h_ConfirmForceCollect_def h_Sync_def h_PoolDepositXDR_def h_PoolWithdrawXDR_def
  h_ConfirmPoolDeposit_def h_ConfirmPoolWithdraw_def

text \<open>Every route runs one call of the service, for the caller, or nothing at all.\<close>

lemma route_calls:
  assumes "(m, ps, h) \<in> set (RegisterRoutes s out)" and "req_Claims r = Some c"
  shows "snd (h r db) = db \<or> (svc_call s db (snd (h r db)) \<and> confined (claims_StellarAccount c) db (snd (h r db)))"
proof -
  let ?a = "claims_StellarAccount c"
  note conf = confined_cheque_ops confined_touch_none [OF touches_Sync] confined_touch_none [OF touches_CreateCheque]
    confined_touch_none [OF touches_pool_ops(1)] confined_touch_none [OF touches_pool_ops(2)]
  have "h \<in> {h_CreateCheque s out, h_StorePreauth s, h_ClaimXDR s out, h_ForceCollectXDR s, h_ConfirmLock s,
      h_ConfirmClaim s, h_ConfirmForceCollect s, h_AcknowledgeReceipt s, h_Sync s out, h_PoolDepositXDR s,
      h_PoolWithdrawXDR s, h_ConfirmPoolDeposit s, h_ConfirmPoolWithdraw s}"
    using assms(1) unfolding RegisterRoutes_def by auto
  then show ?thesis
    by (elim insertE emptyE;
        simp add: handler_defs snd_with_caller assms(2) svc_call.intros conf split: prod.split option.split bool.split)
qed

lemma internal_route_calls:
  assumes "(m, ps, h) \<in> set (RegisterInternalRoutes s out)"
  shows "svc_call s db (snd (h r db))"
  using assms by (auto simp: RegisterInternalRoutes_def h_ExpiredFunded_def h_MarkRefunded_def svc_call.intros)

lemma snd_ServeMux_cases:
  assumes "\<And>m ps h vs. (m, ps, h) \<in> set rs \<Longrightarrow> P (snd (h (r\<lparr>req_PathValues := vs\<rparr>) db))" and "P db"
  shows "P (snd (ServeMux rs b r db))"
  using ServeMux_cases [of rs b r db "fst (ServeMux rs b r db)" "snd (ServeMux rs b r db)"] assms
  by (metis prod.collapse snd_conv)

lemma api_calls:
  assumes "req_Claims r = Some c"
  shows "snd (ServeMux (RegisterRoutes s out) b r db) = db \<or>
    svc_call s db (snd (ServeMux (RegisterRoutes s out) b r db)) \<and>
    confined (claims_StellarAccount c) db (snd (ServeMux (RegisterRoutes s out) b r db))"
  by (rule snd_ServeMux_cases [where P = "\<lambda>d. d = db \<or> svc_call s db d \<and> confined (claims_StellarAccount c) db d"])
    (use route_calls [of _ _ _ s out "r\<lparr>req_PathValues := vs\<rparr>" c db for vs] assms in auto)

lemma bearer_api:
  "case bearer_account (srv_jwt srv) (srv_publicKey srv) (srv_webAuthDomain srv) r of
     None \<Rightarrow> RequireBearer (srv_jwt srv) (srv_publicKey srv) (srv_webAuthDomain srv) unauthorized
        (ServeMux (RegisterRoutes s out) False) r db = (unauthorized, db)
   | Some a \<Rightarrow> (let d = snd (RequireBearer (srv_jwt srv) (srv_publicKey srv) (srv_webAuthDomain srv) unauthorized
        (ServeMux (RegisterRoutes s out) False) r db) in d = db \<or> svc_call s db d \<and> confined a db d)"
proof (cases "bearer_account (srv_jwt srv) (srv_publicKey srv) (srv_webAuthDomain srv) r")
  case None
  then show ?thesis
    using bearer_cases [of "srv_jwt srv" "srv_publicKey srv" "srv_webAuthDomain srv" unauthorized
        "ServeMux (RegisterRoutes s out) False" r db] by simp
next
  case (Some a)
  then obtain c where c: "claims_StellarAccount c = a"
      "RequireBearer (srv_jwt srv) (srv_publicKey srv) (srv_webAuthDomain srv) unauthorized
        (ServeMux (RegisterRoutes s out) False) r db = ServeMux (RegisterRoutes s out) False (r\<lparr>req_Claims := Some c\<rparr>) db"
    using bearer_cases [of "srv_jwt srv" "srv_publicKey srv" "srv_webAuthDomain srv" unauthorized
        "ServeMux (RegisterRoutes s out) False" r db] by auto
  have "req_Claims (r\<lparr>req_Claims := Some c\<rparr>) = Some c" by simp
  from api_calls [OF this, of s out False db] show ?thesis by (simp only: Some option.case c Let_def)
qed

lemma chequesvc_calls:
  "snd (chequesvc srv s out r db) = db \<or> svc_call s db (snd (chequesvc srv s out r db))"
proof -
  have "snd (ServeMux (RegisterInternalRoutes s out) False r db) = db \<or>
      svc_call s db (snd (ServeMux (RegisterInternalRoutes s out) False r db))"
    by (rule snd_ServeMux_cases [where P = "\<lambda>d. d = db \<or> svc_call s db d"]) (rule disjI2, erule internal_route_calls, simp)
  then show ?thesis
    using bearer_api [where srv = srv and r = r and s = s and out = out and db = db]
    by (auto simp: chequesvc_def RequireInternalKey_def RequireReady_def Let_def split: option.splits)
qed

lemmas sentinel_defs =
  ErrDBNotReadyErr_def errInsufficientBalance_def errInsufficientFee_def errAlreadyActive_def errInvalidReceiver_def
  errSenderNoTrustline_def errReceiverNoTrustline_def errSelfTransfer_def errRequestUsed_def errInvalidRequestID_def
  errInvalidAmount_def errExpired_def errTerminalState_def errNotFound_def errChainUnavailable_def
  errAccountNotFunded_def errSimulationFailed_def errAlreadyClaimed_def errNotFunded_def

lemma errorTable_sentinels:
  "list_all (\<lambda>(t, _). case t of Sentinel _ \<Rightarrow> True | _ \<Rightarrow> False) chequeErrorTable" "distinct (map fst chequeErrorTable)"
  by code_simp+

lemma errorTable_sentinel: "(t, x) \<in> set chequeErrorTable \<Longrightarrow> \<exists>m. t = Sentinel m"
  using errorTable_sentinels(1) unfolding list_all_iff by (cases t) auto

lemma writeChequeError_hit:
  assumes "(target, code, status) \<in> set chequeErrorTable" and "errors_Is e target"
  shows "writeChequeError e = WriteError status code (err_text e)"
proof -
  obtain p where p: "find (\<lambda>(target, _). errors_Is e target) chequeErrorTable = Some p"
    using assms by (cases "find (\<lambda>(target, _). errors_Is e target) chequeErrorTable") (auto simp: find_None_iff)
  then obtain t x where "p = (t, x)" and mem: "(t, x) \<in> set chequeErrorTable" and is_t: "errors_Is e t"
    by (cases p) (metis (mono_tags, lifting) case_prod_conv find_Some_iff nth_mem)
  obtain m n where "t = Sentinel m" "target = Sentinel n"
    using errorTable_sentinel [OF mem] errorTable_sentinel [OF assms(1)] by blast
  then have "t = target" using errors_Is_sentinel is_t assms(2) by blast
  then have "x = (code, status)" using eq_key_imp_eq_value [OF errorTable_sentinels(2) mem] assms(1) by blast
  then show ?thesis using \<open>p = (t, x)\<close> by (simp add: writeChequeError_def p)
qed

lemma decoded_collected:
  assumes "fc_Collected (snd (decode_members confirmForceCollectFields ms z)) = Some b"
  shows "(\<exists>k. (k, JBool b) \<in> set ms \<and> same_name ''collected'' k) \<or> fc_Collected z = Some b"
  using assms
proof (induction ms arbitrary: z)
  case (Cons kv ms)
  obtain k v where kv: "kv = (k, v)" by fastforce
  show ?case
  proof (cases "same_name ''txHash'' k")
    case True
    then have "\<exists>z'. fc_Collected z' = fc_Collected z \<and>
        snd (decode_members confirmForceCollectFields (kv # ms) z) = snd (decode_members confirmForceCollectFields ms z')"
      by (intro exI [of _ "case v of JStr x \<Rightarrow> z\<lparr>fc_TxHash := x\<rparr> | _ \<Rightarrow> z"])
        (cases v; simp add: kv confirmForceCollectFields_def put_string_def)
    then show ?thesis using Cons by (metis list.set_intros(2))
  next
    case False
    show ?thesis
    proof (cases "same_name ''collected'' k")
      case True
      then have "(\<exists>b'. v = JBool b' \<and> snd (decode_members confirmForceCollectFields (kv # ms) z) =
            snd (decode_members confirmForceCollectFields ms (z\<lparr>fc_Collected := Some b'\<rparr>))) \<or>
          (\<exists>z'. (fc_Collected z' = None \<or> fc_Collected z' = fc_Collected z) \<and>
            snd (decode_members confirmForceCollectFields (kv # ms) z) = snd (decode_members confirmForceCollectFields ms z'))"
        using False by (cases v) (auto simp: kv confirmForceCollectFields_def put_bool_ptr_def
            intro: exI [of _ z] exI [of _ "z\<lparr>fc_Collected := None\<rparr>"])
      then show ?thesis
      proof
        assume "\<exists>b'. v = JBool b' \<and> snd (decode_members confirmForceCollectFields (kv # ms) z) =
            snd (decode_members confirmForceCollectFields ms (z\<lparr>fc_Collected := Some b'\<rparr>))"
        then obtain b' where b': "v = JBool b'" "snd (decode_members confirmForceCollectFields (kv # ms) z) =
            snd (decode_members confirmForceCollectFields ms (z\<lparr>fc_Collected := Some b'\<rparr>))" by blast
        from Cons.IH [of "z\<lparr>fc_Collected := Some b'\<rparr>"] Cons.prems b' kv True show ?thesis by auto
      next
        assume "\<exists>z'. (fc_Collected z' = None \<or> fc_Collected z' = fc_Collected z) \<and>
            snd (decode_members confirmForceCollectFields (kv # ms) z) = snd (decode_members confirmForceCollectFields ms z')"
        then obtain z' where "fc_Collected z' = None \<or> fc_Collected z' = fc_Collected z"
            "snd (decode_members confirmForceCollectFields (kv # ms) z) = snd (decode_members confirmForceCollectFields ms z')" by blast
        then show ?thesis using Cons.IH [of z'] Cons.prems by auto
      qed
    next
      case no: False
      then have "snd (decode_members confirmForceCollectFields (kv # ms) z) = snd (decode_members confirmForceCollectFields ms z)"
        using False by (simp add: kv confirmForceCollectFields_def)
      then show ?thesis using Cons by (metis list.set_intros(2))
    qed
  qed
qed simp

section \<open>Concrete requests\<close>

definition ex_server :: "string server" where
  "ex_server = \<lparr>srv_jwt = ex_jwt, srv_publicKey = ''key'', srv_webAuthDomain = ''pay'', srv_internalKey = ''k''\<rparr>"

lemma ex_bearer:
  "bearer_account (srv_jwt ex_server) (srv_publicKey ex_server) (srv_webAuthDomain ex_server) (ex_request ''t1'' m p doc) = Some ''GA''"
  "bearer_account (srv_jwt ex_server) (srv_publicKey ex_server) (srv_webAuthDomain ex_server) (ex_request ''t2'' m p doc) = None"
  by (simp_all add: bearer_account_def ex_server_def ex_request_def CutPrefix_def VerifyAccessToken_def VerifyJWT_def
      ex_jwt_def ex_claims_def accessTokenSubject_def)

section \<open>Properties\<close>

text \<open>
  C20. Nobody without a token or the internal key gets anything: for a request that carries neither
  a valid access token nor the configured internal key, \<open>cmd/chequesvc\<close> changes nothing and answers
  307, 401, 403 or 503, except for the health check.
\<close>

theorem anonymous_request_refused:
  assumes "bearer_account (srv_jwt srv) (srv_publicKey srv) (srv_webAuthDomain srv) r = None"
    and "srv_internalKey srv = [] \<or> req_Header r ''X-Internal-Api-Key'' \<noteq> srv_internalKey srv"
  shows "snd (chequesvc srv s out r db) = db \<and>
    (req_Path r = [''health''] \<or> resp_Status (fst (chequesvc srv s out r db)) \<in> {307, 401, 403, 503})"
  using bearer_api [where srv = srv and r = r and s = s and out = out and db = db] assms
  by (simp add: chequesvc_def RequireInternalKey_def RequireReady_def WriteError_def unauthorized_def)

theorem anonymous_request_refused_witness:
  "resp_Status (fst (chequesvc ex_server (ex_service ScvVoid) ex_outside
     (ex_request ''t2'' ''POST'' [''cheques'', ''01J'', ''ack''] JNull) ex_db1)) \<in> {307, 401, 403, 503}"
proof -
  have "req_Header (ex_request ''t2'' ''POST'' [''cheques'', ''01J'', ''ack''] JNull) ''X-Internal-Api-Key'' \<noteq> srv_internalKey ex_server"
    by (simp add: ex_request_def ex_server_def)
  with anonymous_request_refused [OF ex_bearer(2)] show ?thesis by (force simp: ex_request_def)
qed

text \<open>
  C22. A user acts only on what is theirs: whatever request arrives outside \<open>/internal\<close>, the cheques
  to which the account of its token is no party keep their rows exactly, and every other account's
  pool row stays as it is; a request without a valid access token changes nothing. This holds for
  every route, body, chain answer and connection failure.
\<close>

theorem request_confined:
  assumes "take 1 (req_Path r) \<noteq> [''internal'']"
  shows "case bearer_account (srv_jwt srv) (srv_publicKey srv) (srv_webAuthDomain srv) r of
      None \<Rightarrow> snd (chequesvc srv s out r db) = db
    | Some a \<Rightarrow> confined a db (snd (chequesvc srv s out r db))"
  using bearer_api [where srv = srv and r = r and s = s and out = out and db = db] assms
  by (auto simp: chequesvc_def RequireReady_def Let_def split: option.splits)

theorem request_confined_witness:
  "confined ''GA'' ex_db1 (snd (chequesvc ex_server (ex_service ScvVoid) ex_outside
     (ex_request ''t1'' ''POST'' [''cheques'', ID ex_cheque, ''confirm-lock''] (JObj [(''txHash'', JStr ''h'')])) ex_db1))"
proof -
  have "take 1 (req_Path (ex_request ''t1'' ''POST'' [''cheques'', ID ex_cheque, ''confirm-lock''] (JObj [(''txHash'', JStr ''h'')])))
      \<noteq> [''internal'']" by (simp add: ex_request_def)
  from request_confined [OF this, of ex_server "ex_service ScvVoid" ex_outside ex_db1] show ?thesis
    by (simp only: ex_bearer(1) option.case)
qed

text \<open>One event of the running process: a request, or time passing and connections failing.\<close>

definition http_step :: "'key server \<Rightarrow> 'tx Service \<Rightarrow> pay_db \<Rightarrow> pay_db \<Rightarrow> bool" where
  "http_step srv s db db' \<longleftrightarrow>
     (\<exists>g ready up out r. db' = snd (chequesvc srv (s\<lparr>chain := g, db_ready := ready, pool_ready := up\<rparr>) out r db)) \<or>
     (\<exists>t fs. db' = db\<lparr>db_clock := t, faults := fs\<rparr>)"

text \<open>
  Every request is at most one call of the service, so the tables of a database that any
  sequence of HTTP requests has produced, with the chain answering and connections failing in any
  way in between, satisfy the ledger invariant.
\<close>

theorem requests_keep_ledger_inv:
  assumes "reach empty_db (http_step srv s) db"
  shows "ledger_inv db"
proof -
  have "reach empty_db (svc_step s) db"
    using assms
  proof (induction rule: reach.induct)
    case (reach_step db db')
    then have "db' = db \<or> svc_step s db db'" unfolding svc_step_def http_step_def using chequesvc_calls by blast
    with reach_step.IH show ?case by (blast intro: reach.reach_step)
  qed (rule reach_init)
  then show ?thesis by (rule ledger.inv_reach [OF svc_reach])
qed

theorem requests_keep_ledger_inv_witness:
  "ledger_inv (snd (chequesvc ex_server (ex_service ScvVoid) ex_outside
     (ex_request ''t1'' ''POST'' [''cheques''] (JObj [(''receiver'', JStr ''GB''), (''amount'', JStr ''25'')])) ex_db0))"
    (is "ledger_inv ?d")
proof (rule requests_keep_ledger_inv [where srv = ex_server and s = "ex_service ScvVoid"])
  have "reach empty_db (http_step ex_server (ex_service ScvVoid)) ex_db0"
    by (rule reach_init) (simp add: empty_db_def ex_db0_def)
  moreover have "http_step ex_server (ex_service ScvVoid) ex_db0 ?d"
  proof -
    have eq: "(ex_service ScvVoid)\<lparr>chain := chain (ex_service ScvVoid), db_ready := True, pool_ready := True\<rparr> = ex_service ScvVoid"
      by (simp add: ex_service_def)
    show ?thesis
      unfolding http_step_def
      by (rule disjI1, rule exI [of _ "chain (ex_service ScvVoid)"], rule exI [of _ True], rule exI [of _ True], intro exI) (simp only: eq)
  qed
  ultimately show "reach empty_db (http_step ex_server (ex_service ScvVoid)) ?d" by (rule reach_step)
qed

text \<open>
  Error codes: an error of the service, however it is wrapped, is answered with the code and
  the status of the sentinel it wraps, and one that wraps no sentinel of the table with 400
  \<open>cheque.bad_request\<close>; the status is always an error status.
\<close>

theorem writeChequeError_codes:
  "(\<forall>(target, code, status) \<in> set chequeErrorTable. errors_Is e target \<longrightarrow>
      writeChequeError e = WriteError status code (err_text e) \<and> 400 \<le> status) \<and>
   ((\<forall>(target, _) \<in> set chequeErrorTable. \<not> errors_Is e target) \<longrightarrow>
      writeChequeError e = WriteError 400 ''cheque.bad_request'' (err_text e))"
proof -
  have "400 \<le> status" if "(target, code, status) \<in> set chequeErrorTable" for target code status
    using that by (auto simp: chequeErrorTable_def)
  moreover have "find (\<lambda>(target, _). errors_Is e target) chequeErrorTable = None"
    if "\<forall>(target, _) \<in> set chequeErrorTable. \<not> errors_Is e target"
    using that by (auto simp: find_None_iff)
  ultimately show ?thesis using writeChequeError_hit by (fastforce simp: writeChequeError_def)
qed


theorem writeChequeError_codes_witness:
  "writeChequeError (Wrap ''create'' errAlreadyActive) = WriteError 409 ''cheque.already_active'' ''create: cheque.already_active'' \<and>
   writeChequeError (Opaque ''boom'') = WriteError 400 ''cheque.bad_request'' ''boom''"
proof -
  have "(errAlreadyActive, ''cheque.already_active'', 409) \<in> set chequeErrorTable" by (simp add: chequeErrorTable_def)
  then have "errors_Is (Wrap ''create'' errAlreadyActive) errAlreadyActive \<longrightarrow> writeChequeError (Wrap ''create'' errAlreadyActive) =
      WriteError 409 ''cheque.already_active'' (err_text (Wrap ''create'' errAlreadyActive))"
    using writeChequeError_codes [of "Wrap ''create'' errAlreadyActive"] by fast
  moreover have "writeChequeError (Opaque ''boom'') = WriteError 400 ''cheque.bad_request'' (err_text (Opaque ''boom''))"
    using conjunct2 [OF writeChequeError_codes [of "Opaque ''boom''"]] by auto
  ultimately show ?thesis by (simp add: errAlreadyActive_def)
qed

text \<open>
  A force collection is confirmed only on an explicit answer: whenever the confirm-force-collect
  handler answers 200 or changes the database, the body was an object with a member \<open>collected\<close>
  that is a boolean, and the service was called with one such value of it; a missing, null or
  mistyped member is refused with nothing changed.
\<close>

theorem ConfirmForceCollect_explicit:
  assumes "h_ConfirmForceCollect s r db = (resp, db')" and "resp_Status resp = 200 \<or> db' \<noteq> db"
  shows "\<exists>ms k b caller h. req_Body r = BodyDoc (JObj ms) \<and> (k, JBool b) \<in> set ms \<and> same_name ''collected'' k \<and>
    callerAddress r = Some caller \<and> db' = snd (ConfirmForceCollect s (PathValue r ''id'') caller h b db)"
proof -
  let ?z = "\<lparr>fc_TxHash = [], fc_Collected = None\<rparr>"
  obtain caller where caller: "callerAddress r = Some caller"
    using assms by (cases "callerAddress r") (auto simp: h_ConfirmForceCollect_def with_caller_def WriteError_def)
  obtain req b where dec: "decodeConfirmBody confirmForceCollectFields (req_Body r) ?z = (True, req)"
      "fc_Collected req = Some b"
    using assms
    by (auto simp: h_ConfirmForceCollect_def with_caller_def caller badBody_def WriteError_def
        split: prod.splits bool.splits option.splits)
  obtain ms where ms: "req_Body r = BodyDoc (JObj ms)" "snd (decode_members confirmForceCollectFields ms ?z) = req"
    using dec by (cases "req_Body r") (auto simp: decodeConfirmBody_def Decode_def
        split: json.splits prod.splits option.splits decode_error.splits if_splits)
  obtain k where "(k, JBool b) \<in> set ms" "same_name ''collected'' k"
    using decoded_collected [of ms ?z b] ms(2) dec(2) by auto
  moreover have "db' = snd (ConfirmForceCollect s (PathValue r ''id'') caller (fc_TxHash req) b db)"
    using assms(1) by (auto simp: h_ConfirmForceCollect_def with_caller_def caller dec respond_def split: prod.splits sum.splits)
  ultimately show ?thesis using ms(1) caller by blast
qed

definition ex_confirm :: http_request where
  "ex_confirm = (ex_request ''t1'' ''POST'' [] (JObj [(''txHash'', JStr ''h''), (''Collected'', JBool True)]))
     \<lparr>req_Claims := Some (ex_claims ''access'' ''GB'')\<rparr>"

theorem ConfirmForceCollect_explicit_witness:
  "resp_Status (fst (h_ConfirmForceCollect (ex_service ScvVoid) (ex_confirm\<lparr>req_PathValues := [(''id'', ID ex_cheque)]\<rparr>) ex_db1)) = 200 \<and>
   (\<exists>ms k. req_Body (ex_confirm\<lparr>req_PathValues := [(''id'', ID ex_cheque)]\<rparr>) = BodyDoc (JObj ms) \<and> (k, JBool True) \<in> set ms \<and>
      same_name ''collected'' k)"
proof -
  let ?r = "ex_confirm\<lparr>req_PathValues := [(''id'', ID ex_cheque)]\<rparr>"
  obtain resp d where h: "h_ConfirmForceCollect (ex_service ScvVoid) ?r ex_db1 = (resp, d)" by fastforce
  have "resp_Status (fst (h_ConfirmForceCollect (ex_service ScvVoid) ?r ex_db1)) = 200" by code_simp
  then have ok: "resp_Status resp = 200" by (simp add: h)
  from ConfirmForceCollect_explicit [OF h] ok obtain ms k b where
    "req_Body ?r = BodyDoc (JObj ms)" "(k, JBool b) \<in> set ms" "same_name ''collected'' k" by blast
  with ok h show ?thesis by (auto simp: ex_confirm_def ex_request_def)
qed

end
