(* ===== verification/TxService.thy ===== *)
theory TxService
  imports ChequeLedger
begin

text \<open>
  \<open>backend/services/tx\<close>: submission of signed transactions with idempotency keys
  (repository.go, service.go, handler.go). The service runs each submission in four stages,
  separated by what other requests can interleave with: look for a cached response, claim the
  key, hand the envelope to the network, record the verdict. \<open>Submit\<close> is their composition; the
  step relation \<open>tx_step\<close> lets any number of submissions take their stages in any order, on a
  database whose connections may fail.
\<close>

section \<open>Model\<close>

datatype Kind = KindClassic | KindSoroban

primrec Kind_string :: "Kind \<Rightarrow> string" where
  "Kind_string KindClassic = ''classic''"
| "Kind_string KindSoroban = ''soroban''"

record Submission =
  IdempotencyKey :: string
  StellarAddress :: string
  Purpose :: string
  SubTxHash :: string
  SubState :: string
  SubResultCode :: string
  SubCreatedAt :: time
  SubUpdatedAt :: time

record SubmitRequest =
  req_IdempotencyKey :: string
  req_StellarAddress :: string
  req_Purpose :: string
  req_Kind :: Kind
  req_SignedXDR :: string

definition ErrKeyInFlight :: go_error where "ErrKeyInFlight = Sentinel ''tx: idempotency key already in flight''"
definition TxErrNotFoundInRepo :: go_error where "TxErrNotFoundInRepo = Sentinel ''tx: not found''"
definition TxErrDBNotReadyErr :: go_error where "TxErrDBNotReadyErr = Sentinel ''tx.db_not_ready''"
definition errKeyInFlight :: go_error where "errKeyInFlight = Sentinel ''tx.duplicate_idempotency_key''"
definition TxErrNotFound :: go_error where "TxErrNotFound = Sentinel ''tx.not_found''"

definition resultCodeBadSeq :: string where
  "resultCodeBadSeq = ''tx_bad_seq''"

definition keyTTL :: time where
  "keyTTL = 24 * 3600 * 1000000000"

section \<open>Repository\<close>

text \<open>The two statements of \<open>BeginSubmission\<close>: the key is the gate, the history row an upsert.\<close>

definition insert_key :: "Submission \<Rightarrow> unit stmt" where
  "insert_key s db =
     (if length (StellarAddress s) > 56 then Inl (PgError ''22001'' [])
      else if list_ex (\<lambda>r. ik_key r = IdempotencyKey s) (idempotency_keys db)
      then Inl (PgError ''23505'' ''idempotency_keys_pkey'')
      else Inr ((), db\<lparr>idempotency_keys := idempotency_keys db @
             [\<lparr>ik_key = IdempotencyKey s, ik_stellar_address = StellarAddress s, ik_request_hash = Purpose s,
               ik_response_json = None, ik_status = ''pending'', ik_expires_at = db_clock db + keyTTL\<rparr>]\<rparr>))"

definition upsert_submission :: "Submission \<Rightarrow> unit stmt" where
  "upsert_submission s db =
     (if length (StellarAddress s) > 56 then Inl (PgError ''22001'' [])
      else if list_ex (\<lambda>r. sb_idempotency_key r = IdempotencyKey s) (submissions db)
      then Inr ((), db\<lparr>submissions := map (\<lambda>r. if sb_idempotency_key r = IdempotencyKey s
             then r\<lparr>sb_state := ''pending'', sb_result_code := None, sb_updated_at := db_clock db\<rparr> else r) (submissions db)\<rparr>)
      else Inr ((), db\<lparr>submissions := submissions db @
             [\<lparr>sb_idempotency_key = IdempotencyKey s, sb_stellar_address = StellarAddress s, sb_purpose = Purpose s,
               sb_tx_hash = None, sb_state = ''pending'', sb_result_code = None,
               sb_created_at = db_clock db, sb_updated_at = db_clock db\<rparr>]\<rparr>))"

definition BeginSubmission :: "Submission \<Rightarrow> pay_db \<Rightarrow> unit res \<times> pay_db" where
  "BeginSubmission s db0 =
     (case tx_begin db0 of
        (Inl e, db) \<Rightarrow> (Inl (pgErr e), db)
      | (Inr _, db) \<Rightarrow>
          (case exec (insert_key s) db of
             (Inl e, db1) \<Rightarrow>
               (Inl (case e of PgError sqlstate cn \<Rightarrow> if sqlstate = ''23505'' then ErrKeyInFlight else pgErr e
                     | PgConn \<Rightarrow> pgErr e), rollback db0 db1)
           | (Inr _, db1) \<Rightarrow>
               (case exec (upsert_submission s) db1 of
                  (Inl e, db2) \<Rightarrow> (Inl (pgErr e), rollback db0 db2)
                | (Inr _, db2) \<Rightarrow> tx_commit db0 db2)))"

definition update_submission :: "string \<Rightarrow> (submission_row \<Rightarrow> submission_row) \<Rightarrow> unit stmt" where
  "update_submission key f db =
     Inr ((), db\<lparr>submissions := map (\<lambda>r. if sb_idempotency_key r = key
        then (f r)\<lparr>sb_updated_at := db_clock db\<rparr> else r) (submissions db)\<rparr>)"

definition finish_key :: "string \<Rightarrow> SubmitResponse \<Rightarrow> unit stmt" where
  "finish_key key resp db =
     Inr ((), db\<lparr>idempotency_keys := map (\<lambda>r. if ik_key r = key
        then r\<lparr>ik_status := ''done'', ik_response_json := Some resp\<rparr> else r) (idempotency_keys db)\<rparr>)"

definition delete_pending :: "string \<Rightarrow> unit stmt" where
  "delete_pending key db =
     Inr ((), db\<lparr>idempotency_keys :=
        filter (\<lambda>r. \<not> (ik_key r = key \<and> ik_status r = ''pending'')) (idempotency_keys db)\<rparr>)"

text \<open>Two statements, not one transaction.\<close>

definition CompleteSubmission ::
  "string \<Rightarrow> string \<Rightarrow> string \<Rightarrow> string \<Rightarrow> SubmitResponse \<Rightarrow> pay_db \<Rightarrow> unit res \<times> pay_db" where
  "CompleteSubmission key txHash st resultCode resp db =
     (case exec (update_submission key (\<lambda>r. r\<lparr>sb_tx_hash := Some txHash, sb_state := st,
                   sb_result_code := Some resultCode\<rparr>)) db of
        (Inl e, db1) \<Rightarrow> (Inl (pgErr e), db1)
      | (Inr _, db1) \<Rightarrow>
          (case exec (finish_key key resp) db1 of
             (Inl e, db2) \<Rightarrow> (Inl (pgErr e), db2)
           | (Inr _, db2) \<Rightarrow> (Inr (), db2)))"

definition ReleaseSubmission :: "string \<Rightarrow> string \<Rightarrow> pay_db \<Rightarrow> unit res \<times> pay_db" where
  "ReleaseSubmission key resultCode db =
     (case exec (update_submission key (\<lambda>r. r\<lparr>sb_state := ''failed'', sb_result_code := Some resultCode\<rparr>)) db of
        (Inl e, db1) \<Rightarrow> (Inl (pgErr e), db1)
      | (Inr _, db1) \<Rightarrow>
          (case exec (delete_pending key) db1 of
             (Inl e, db2) \<Rightarrow> (Inl (pgErr e), db2)
           | (Inr _, db2) \<Rightarrow> (Inr (), db2)))"

definition GetSubmissionRepo :: "string \<Rightarrow> pay_db \<Rightarrow> Submission res \<times> pay_db" where
  "GetSubmissionRepo key db0 =
     (case exec (\<lambda>db. Inr (find (\<lambda>r. sb_idempotency_key r = key) (submissions db), db)) db0 of
        (Inl e, db) \<Rightarrow> (Inl (pgErr e), db)
      | (Inr None, db) \<Rightarrow> (Inl TxErrNotFoundInRepo, db)
      | (Inr (Some r), db) \<Rightarrow>
          (Inr \<lparr>IdempotencyKey = sb_idempotency_key r, StellarAddress = sb_stellar_address r, Purpose = sb_purpose r,
                SubTxHash = coalesce_empty (sb_tx_hash r), SubState = sb_state r,
                SubResultCode = coalesce_empty (sb_result_code r), SubCreatedAt = sb_created_at r,
                SubUpdatedAt = sb_updated_at r\<rparr>, db))"

text \<open>\<open>(json, done, err)\<close>: the stored response, if any, and whether the key is done.\<close>

definition GetIdempotentResponse :: "string \<Rightarrow> pay_db \<Rightarrow> (SubmitResponse option \<times> bool) res \<times> pay_db" where
  "GetIdempotentResponse key db0 =
     (case exec (\<lambda>db. Inr (find (\<lambda>r. ik_key r = key) (idempotency_keys db), db)) db0 of
        (Inl e, db) \<Rightarrow> (Inl (pgErr e), db)
      | (Inr None, db) \<Rightarrow> (Inr (None, False), db)
      | (Inr (Some r), db) \<Rightarrow> (Inr (ik_response_json r, ik_status r = ''done''), db))"

definition ReapExpiredPendingKeys :: "time \<Rightarrow> pay_db \<Rightarrow> nat res \<times> pay_db" where
  "ReapExpiredPendingKeys before db0 =
     (let dead = (\<lambda>r. ik_status r = ''pending'' \<and> ik_expires_at r < pg_timestamp before) in
      case exec (\<lambda>db. Inr (length (filter dead (idempotency_keys db)),
                db\<lparr>idempotency_keys := filter (\<lambda>r. \<not> dead r) (idempotency_keys db)\<rparr>)) db0 of
        (Inl e, db) \<Rightarrow> (Inl (pgErr e), db)
      | (Inr n, db) \<Rightarrow> (Inr n, db))"

section \<open>Service\<close>

text \<open>Where one submission is between its stages.\<close>

datatype tx_stage =
    Checking SubmitRequest
  | Claiming SubmitRequest
  | Sending SubmitRequest
  | Recording SubmitRequest "SubmitResult res"
  | Finished "SubmitResponse res"

definition submitCheck :: "SubmitRequest \<Rightarrow> pay_db \<Rightarrow> tx_stage \<times> pay_db" where
  "submitCheck req db =
     (case GetIdempotentResponse (req_IdempotencyKey req) db of
        (Inl e, db1) \<Rightarrow> (Finished (Inl (Wrap ''tx: check idempotency'' e)), db1)
      | (Inr (cached, isDone), db1) \<Rightarrow>
          if isDone
          then (case cached of
                  None \<Rightarrow> (Finished (Inl (Wrap ''tx: decode cached response'' (Opaque ''unexpected end of JSON input''))), db1)
                | Some resp \<Rightarrow> (Finished (Inr (resp\<lparr>resp_Replayed := True\<rparr>)), db1))
          else (Claiming req, db1))"

definition submitClaim :: "SubmitRequest \<Rightarrow> pay_db \<Rightarrow> tx_stage \<times> pay_db" where
  "submitClaim req db =
     (case BeginSubmission \<lparr>IdempotencyKey = req_IdempotencyKey req, StellarAddress = req_StellarAddress req,
              Purpose = req_Purpose req, SubTxHash = [], SubState = [], SubResultCode = [],
              SubCreatedAt = time_zero, SubUpdatedAt = time_zero\<rparr> db of
        (Inl e, db1) \<Rightarrow>
          (Finished (Inl (if errors_Is e ErrKeyInFlight then errKeyInFlight else Wrap ''tx: begin submission'' e)), db1)
      | (Inr _, db1) \<Rightarrow> (Sending req, db1))"

definition submitSend :: "ChainGateway \<Rightarrow> SubmitRequest \<Rightarrow> SubmitResult res" where
  "submitSend chn req =
     (case req_Kind req of KindSoroban \<Rightarrow> SubmitSoroban chn (req_SignedXDR req)
      | KindClassic \<Rightarrow> SubmitClassic chn (req_SignedXDR req))"

definition submissionState :: "SubmitResult \<Rightarrow> string" where
  "submissionState result = (if sub_Successful result then ''success''
     else if sub_ResultCode result = ''PENDING'' then ''submitted'' else ''failed'')"

definition submitRecord :: "SubmitRequest \<Rightarrow> SubmitResult res \<Rightarrow> pay_db \<Rightarrow> SubmitResponse res \<times> pay_db" where
  "submitRecord req outcome db =
     (let key = req_IdempotencyKey req;
          base = [(''idempotencyKey'', key), (''purpose'', req_Purpose req), (''kind'', Kind_string (req_Kind req))] in
      case outcome of
        Inl submitErr \<Rightarrow>
          (case ReleaseSubmission key (err_text submitErr) db of
             (Inl e, db1) \<Rightarrow> (Inl (Wrap ''tx: release submission'' e), db1)
           | (Inr _, db1) \<Rightarrow>
               (Inl (Wrap ''tx.submit_failed'' submitErr),
                snd (InsertAudit (req_StellarAddress req) ''tx.submission_failed''
                       (base @ [(''resultCode'', err_text submitErr)]) db1)))
      | Inr result \<Rightarrow>
          if \<not> sub_Successful result \<and> sub_ResultCode result = resultCodeBadSeq
          then (case ReleaseSubmission key (sub_ResultCode result) db of
                  (Inl e, db1) \<Rightarrow> (Inl (Wrap ''tx: release submission'' e), db1)
                | (Inr _, db1) \<Rightarrow>
                    (Inr \<lparr>resp_Hash = sub_Hash result, resp_Successful = False,
                          resp_ResultCode = sub_ResultCode result, resp_Replayed = False\<rparr>,
                     snd (InsertAudit (req_StellarAddress req) ''tx.submission_retryable''
                            (base @ [(''hash'', sub_Hash result), (''resultCode'', sub_ResultCode result)]) db1)))
          else
            (let resp = \<lparr>resp_Hash = sub_Hash result, resp_Successful = sub_Successful result,
                         resp_ResultCode = sub_ResultCode result, resp_Replayed = False\<rparr> in
             case CompleteSubmission key (sub_Hash result) (submissionState result) (sub_ResultCode result) resp db of
               (Inl e, db1) \<Rightarrow> (Inl (Wrap ''tx: complete submission'' e), db1)
             | (Inr _, db1) \<Rightarrow>
                 (Inr resp,
                  snd (InsertAudit (req_StellarAddress req) ''tx.submission_completed''
                         (base @ [(''hash'', sub_Hash result), (''state'', submissionState result),
                                  (''resultCode'', sub_ResultCode result)]) db1))))"

record TxSvc =
  tx_ready :: bool \<comment> \<open>\<open>pool.Get()\<close> has a pool\<close>
  tx_pool_ready :: bool \<comment> \<open>\<open>pool.Ready()\<close>\<close>
  tx_chain :: ChainGateway

definition Submit :: "TxSvc \<Rightarrow> SubmitRequest \<Rightarrow> pay_db \<Rightarrow> SubmitResponse res \<times> pay_db" where
  "Submit s req db =
     (if \<not> tx_ready s then (Inl TxErrDBNotReadyErr, db)
      else
      (case submitCheck req db of
         (Claiming _, db1) \<Rightarrow>
           (case submitClaim req db1 of
              (Sending _, db2) \<Rightarrow> submitRecord req (submitSend (tx_chain s) req) db2
            | (Finished r, db2) \<Rightarrow> (r, db2)
            | (_, db2) \<Rightarrow> (Inl (Opaque []), db2))
       | (Finished r, db1) \<Rightarrow> (r, db1)
       | (_, db1) \<Rightarrow> (Inl (Opaque []), db1)))"

definition GetSubmission :: "TxSvc \<Rightarrow> string \<Rightarrow> pay_db \<Rightarrow> Submission res \<times> pay_db" where
  "GetSubmission s key db =
     (if \<not> tx_ready s then (Inl TxErrDBNotReadyErr, db)
      else (case GetSubmissionRepo key db of
              (Inl e, db1) \<Rightarrow> (Inl (if errors_Is e TxErrNotFoundInRepo then TxErrNotFound else e), db1)
            | (Inr sub, db1) \<Rightarrow> (Inr sub, db1)))"

definition ReapExpiredKeys :: "TxSvc \<Rightarrow> time \<Rightarrow> pay_db \<Rightarrow> nat res \<times> pay_db" where
  "ReapExpiredKeys s now db =
     (if \<not> tx_ready s then (Inl TxErrDBNotReadyErr, db) else ReapExpiredPendingKeys now db)"

end
