(* ===== verification/TxFlight.thy ===== *)
theory TxFlight
  imports TxService
begin

text \<open>
  Single flight. Any number of submissions take the stages of theory TxService in any order on
  one database; the network may answer each of them with anything. An interface, the key gate,
  says what the stages promise about the set of claimed keys; from it alone follows that no key
  ever gets two verdicts from the network. The repository implements the gate under all
  connection failures.
\<close>

section \<open>The machine\<close>

record 'd tx_world =
  wdb :: 'd
  stages :: "nat \<Rightarrow> tx_stage option"
  sent :: "(string \<times> SubmitResult res) list"

text \<open>A verdict: an answer after which the envelope is not to be sent again under this key.\<close>

definition verdict :: "SubmitResult res \<Rightarrow> bool" where
  "verdict r = (case r of Inl _ \<Rightarrow> False
     | Inr result \<Rightarrow> sub_Successful result \<or> sub_ResultCode result \<noteq> resultCodeBadSeq)"

inductive tx_step ::
  "('d \<Rightarrow> string set) \<Rightarrow> (SubmitRequest \<Rightarrow> 'd \<Rightarrow> tx_stage \<times> 'd) \<Rightarrow> (SubmitRequest \<Rightarrow> 'd \<Rightarrow> tx_stage \<times> 'd) \<Rightarrow>
   (SubmitRequest \<Rightarrow> SubmitResult res \<Rightarrow> 'd \<Rightarrow> SubmitResponse res \<times> 'd) \<Rightarrow> 'd tx_world \<Rightarrow> 'd tx_world \<Rightarrow> bool"
  for keys check claim recrd where
  step_start: "stages w t = None \<Longrightarrow>
     tx_step keys check claim recrd w (w\<lparr>stages := (stages w)(t \<mapsto> Checking req)\<rparr>)"
| step_check: "stages w t = Some (Checking req) \<Longrightarrow> check req (wdb w) = (st, d) \<Longrightarrow>
     tx_step keys check claim recrd w (w\<lparr>wdb := d, stages := (stages w)(t \<mapsto> st)\<rparr>)"
| step_claim: "stages w t = Some (Claiming req) \<Longrightarrow> claim req (wdb w) = (st, d) \<Longrightarrow>
     tx_step keys check claim recrd w (w\<lparr>wdb := d, stages := (stages w)(t \<mapsto> st)\<rparr>)"
| step_send: "stages w t = Some (Sending req) \<Longrightarrow>
     tx_step keys check claim recrd w (w\<lparr>stages := (stages w)(t \<mapsto> Recording req r),
       sent := sent w @ [(req_IdempotencyKey req, r)]\<rparr>)"
| step_record: "stages w t = Some (Recording req r) \<Longrightarrow> recrd req r (wdb w) = (x, d) \<Longrightarrow>
     tx_step keys check claim recrd w (w\<lparr>wdb := d, stages := (stages w)(t \<mapsto> Finished x)\<rparr>)"
| step_other: "keys d = keys (wdb w) \<Longrightarrow> tx_step keys check claim recrd w (w\<lparr>wdb := d\<rparr>)"

definition tx_start :: "'d tx_world \<Rightarrow> bool" where
  "tx_start w \<longleftrightarrow> stages w = (\<lambda>_. None) \<and> sent w = []"

definition verdicts :: "string \<Rightarrow> (string \<times> SubmitResult res) list \<Rightarrow> nat" where
  "verdicts k log = length (filter (\<lambda>(k', r). k' = k \<and> verdict r) log)"

text \<open>The key a stage holds: from the claim to the recorded verdict.\<close>

fun holds :: "string \<Rightarrow> tx_stage option \<Rightarrow> bool" where
  "holds k (Some (Sending req)) = (req_IdempotencyKey req = k)"
| "holds k (Some (Recording req r)) = (req_IdempotencyKey req = k)"
| "holds k _ = False"

fun judged :: "string \<Rightarrow> tx_stage option \<Rightarrow> bool" where
  "judged k (Some (Recording req r)) = (req_IdempotencyKey req = k \<longrightarrow> verdict r)"
| "judged k st = (\<not> holds k st)"

definition flight_inv :: "('d \<Rightarrow> string set) \<Rightarrow> 'd tx_world \<Rightarrow> bool" where
  "flight_inv keys w \<longleftrightarrow>
     (\<forall>k t. holds k (stages w t) \<longrightarrow> k \<in> keys (wdb w)) \<and>
     (\<forall>k t u. holds k (stages w t) \<longrightarrow> holds k (stages w u) \<longrightarrow> t = u) \<and>
     (\<forall>k. verdicts k (sent w) \<le> 1) \<and>
     (\<forall>k. verdicts k (sent w) = 1 \<longrightarrow> k \<in> keys (wdb w) \<and> (\<forall>t. judged k (stages w t)))"

section \<open>The key gate\<close>

locale key_gate =
  fixes keys :: "'d \<Rightarrow> string set"
    and check :: "SubmitRequest \<Rightarrow> 'd \<Rightarrow> tx_stage \<times> 'd"
    and claim :: "SubmitRequest \<Rightarrow> 'd \<Rightarrow> tx_stage \<times> 'd"
    and recrd :: "SubmitRequest \<Rightarrow> SubmitResult res \<Rightarrow> 'd \<Rightarrow> SubmitResponse res \<times> 'd"
  assumes check_stage: "check req d = (st, d') \<Longrightarrow> keys d' = keys d \<and> (\<forall>k. \<not> holds k (Some st))"
    and claim_stage: "claim req d = (st, d') \<Longrightarrow> keys d \<subseteq> keys d' \<and>
      (st = Sending req \<and> req_IdempotencyKey req \<notin> keys d \<and> req_IdempotencyKey req \<in> keys d' \<or>
       (\<exists>x. st = Finished x))"
    and recrd_stage: "recrd req r d = (x, d') \<Longrightarrow>
      keys d - {req_IdempotencyKey req} \<subseteq> keys d' \<and> (verdict r \<longrightarrow> keys d \<subseteq> keys d')"
begin

lemma quiet_stage:
  assumes "flight_inv keys w" and "keys (wdb w) \<subseteq> keys d" and "\<And>k. \<not> holds k (Some st)"
  shows "flight_inv keys (w\<lparr>wdb := d, stages := (stages w)(t \<mapsto> st)\<rparr>)"
proof -
  have "judged k (Some st)" for k using assms(3) [of k] by (cases st) auto
  with assms show ?thesis unfolding flight_inv_def by auto
qed

lemma flight_inv_claim:
  assumes "flight_inv keys w" and "claim req (wdb w) = (st, d)"
  shows "flight_inv keys (w\<lparr>wdb := d, stages := (stages w)(t \<mapsto> st)\<rparr>)"
proof (cases "st = Sending req")
  case True
  let ?k = "req_IdempotencyKey req"
  have k: "keys (wdb w) \<subseteq> keys d" "?k \<notin> keys (wdb w)" "?k \<in> keys d"
    using claim_stage [OF assms(2)] True by auto
  have no: "\<not> holds ?k (stages w u)" "verdicts ?k (sent w) \<noteq> 1" for u
    using assms(1) k(2) unfolding flight_inv_def by blast+
  show ?thesis
    unfolding flight_inv_def
  proof (intro conjI allI impI)
    fix k u
    show "k \<in> keys (wdb (w\<lparr>wdb := d, stages := (stages w)(t \<mapsto> st)\<rparr>))"
      if "holds k (stages (w\<lparr>wdb := d, stages := (stages w)(t \<mapsto> st)\<rparr>) u)"
      using that k assms(1) True unfolding flight_inv_def by (auto split: if_splits)
  next
    fix k u v
    show "u = v" if "holds k (stages (w\<lparr>wdb := d, stages := (stages w)(t \<mapsto> st)\<rparr>) u)"
      "holds k (stages (w\<lparr>wdb := d, stages := (stages w)(t \<mapsto> st)\<rparr>) v)"
      using that no assms(1) True unfolding flight_inv_def by (auto split: if_splits)
  next
    fix k
    show "verdicts k (sent (w\<lparr>wdb := d, stages := (stages w)(t \<mapsto> st)\<rparr>)) \<le> 1"
      using assms(1) unfolding flight_inv_def by simp
  next
    fix k
    assume v: "verdicts k (sent (w\<lparr>wdb := d, stages := (stages w)(t \<mapsto> st)\<rparr>)) = 1"
    then show "k \<in> keys (wdb (w\<lparr>wdb := d, stages := (stages w)(t \<mapsto> st)\<rparr>))"
      using assms(1) k(1) unfolding flight_inv_def by auto
    show "judged k (stages (w\<lparr>wdb := d, stages := (stages w)(t \<mapsto> st)\<rparr>) u)" for u
      using assms(1) v no(2) True unfolding flight_inv_def by auto
  qed
next
  case False
  then obtain x where "st = Finished x" "keys (wdb w) \<subseteq> keys d" using claim_stage [OF assms(2)] by auto
  then show ?thesis using quiet_stage [OF assms(1)] by simp
qed

lemma flight_inv_send:
  assumes inv: "flight_inv keys w" and st: "stages w t = Some (Sending req)"
  shows "flight_inv keys (w\<lparr>stages := (stages w)(t \<mapsto> Recording req r), sent := sent w @ [(req_IdempotencyKey req, r)]\<rparr>)"
    (is "flight_inv keys ?w")
proof -
  let ?k = "req_IdempotencyKey req"
  have held: "holds ?k (stages w t)" using st by simp
  have none: "verdicts ?k (sent w) = 0"
  proof -
    have "\<not> judged ?k (stages w t)" using st by simp
    then have "verdicts ?k (sent w) \<noteq> 1" using inv unfolding flight_inv_def by blast
    moreover have "verdicts ?k (sent w) \<le> 1" using inv unfolding flight_inv_def by blast
    ultimately show ?thesis by simp
  qed
  have v: "verdicts k (sent ?w) = verdicts k (sent w) + (if k = ?k \<and> verdict r then 1 else 0)" for k
    by (simp add: verdicts_def)
  have h: "holds k (stages ?w u) = holds k (stages w u)" for k u using st by simp
  have only: "u = t" if "holds ?k (stages w u)" for u
    using that held inv unfolding flight_inv_def by blast
  show ?thesis
    unfolding flight_inv_def h
  proof (intro conjI allI impI)
    show "k \<in> keys (wdb ?w)" if "holds k (stages w u)" for k u
      using that inv unfolding flight_inv_def by auto
    show "u = u'" if "holds k (stages w u)" "holds k (stages w u')" for k u u'
      using that inv unfolding flight_inv_def by blast
    show "verdicts k (sent ?w) \<le> 1" for k
      using v none inv unfolding flight_inv_def by simp
    show "k \<in> keys (wdb ?w)" if "verdicts k (sent ?w) = 1" for k
      using that v held inv unfolding flight_inv_def by (cases "k = ?k") auto
    show "judged k (stages ?w u)" if one: "verdicts k (sent ?w) = 1" for k u
    proof (cases "k = ?k")
      case True
      then have "verdict r" using one v none by (auto split: if_splits)
      moreover have "judged ?k (stages w u)" if "u \<noteq> t"
      proof -
        have "\<not> holds ?k (stages w u)" using only that by blast
        then show ?thesis by (cases "stages w u"; cases "the (stages w u)") auto
      qed
      ultimately show ?thesis using True by auto
    next
      case False
      then have "verdicts k (sent w) = 1" using one v by simp
      then have "judged k (stages w u)" using inv unfolding flight_inv_def by blast
      then show ?thesis using False st by auto
    qed
  qed
qed

lemma flight_inv_record:
  assumes inv: "flight_inv keys w" and st: "stages w t = Some (Recording req r)"
    and rec: "recrd req r (wdb w) = (x, d)"
  shows "flight_inv keys (w\<lparr>wdb := d, stages := (stages w)(t \<mapsto> Finished x)\<rparr>)"
proof -
  let ?k = "req_IdempotencyKey req"
  note keep = recrd_stage [OF rec]
  have held: "holds ?k (stages w t)" using st by simp
  have "k \<in> keys d" if "holds k (stages w u)" "u \<noteq> t" for k u
  proof -
    have "k \<noteq> ?k" using that held inv unfolding flight_inv_def by blast
    moreover have "k \<in> keys (wdb w)" using that inv unfolding flight_inv_def by blast
    ultimately show ?thesis using keep by blast
  qed
  moreover have "k \<in> keys d" if "verdicts k (sent w) = 1" for k
  proof (cases "k = ?k")
    case True
    have "judged ?k (stages w t)" using that True inv unfolding flight_inv_def by blast
    then have "verdict r" using st by simp
    then show ?thesis using keep that inv unfolding flight_inv_def by blast
  next
    case False
    then show ?thesis using keep that inv unfolding flight_inv_def by blast
  qed
  ultimately show ?thesis using inv unfolding flight_inv_def by auto
qed

lemma flight_inv_step:
  assumes inv: "flight_inv keys w" and "tx_step keys check claim recrd w w'"
  shows "flight_inv keys w'"
  using assms(2)
proof cases
  case (step_start t req)
  then show ?thesis using quiet_stage [OF inv, of "wdb w" "Checking req" t] by simp
next
  case (step_check t req st d)
  then show ?thesis using quiet_stage [OF inv] check_stage by fastforce
next
  case (step_claim t req st d)
  then show ?thesis using flight_inv_claim [OF inv] by blast
next
  case (step_send t req r)
  then show ?thesis using flight_inv_send [OF inv] by blast
next
  case (step_record t req r x d)
  then show ?thesis using flight_inv_record [OF inv] by blast
next
  case (step_other d)
  then show ?thesis using inv unfolding flight_inv_def by auto
qed

end

sublocale key_gate \<subseteq> flight: invariant_system tx_start "tx_step keys check claim recrd" "flight_inv keys"
proof unfold_locales
  show "flight_inv keys s" if "tx_start s" for s
    using that unfolding flight_inv_def tx_start_def by (simp add: verdicts_def)
qed (rule flight_inv_step)

section \<open>The repository is a key gate\<close>

definition claimed_keys :: "pay_db \<Rightarrow> string set" where
  "claimed_keys db = ik_key ` set (idempotency_keys db)"

lemma claimed_keys_same: "same_tables a b \<Longrightarrow> claimed_keys b = claimed_keys a"
  by (simp add: claimed_keys_def same_tables_proj)

lemma pure_tx [pure_intros]:
  "pure_stmt (insert_key s)" "pure_stmt (upsert_submission s)" "pure_stmt (update_submission key f)"
  "pure_stmt (finish_key key resp)" "pure_stmt (delete_pending key)"
  by (simp_all add: pure_stmt_def insert_key_def upsert_submission_def update_submission_def
      finish_key_def delete_pending_def)

lemma BeginSubmission_cases:
  assumes "BeginSubmission s db = (r, db')"
  shows "same_tables db db' \<and> (\<exists>e. r = Inl e) \<or>
    (\<exists>d1 d. insert_key s db = Inr ((), d1) \<and> upsert_submission s d1 = Inr ((), d) \<and> same_tables d db' \<and>
       (r = Inr () \<or> r = Inl (pgErr PgConn)))"
proof -
  obtain b db1 where b: "tx_begin db = (b, db1)" by fastforce
  note s1 = tx_begin_same [OF b]
  obtain u db2 where u: "exec (insert_key s) db1 = (u, db2)" by fastforce
  obtain t db3 where t: "exec (upsert_submission s) db2 = (t, db3)" by fastforce
  consider (fails) "same_tables db db' \<and> (\<exists>e. r = Inl e)"
    | (commits) "u = Inr ()" "t = Inr ()" "tx_commit db db3 = (r, db')"
    using assms s1 unfolding BeginSubmission_def b by (auto simp: u t split: sum.splits pg_error.splits)
  then show ?thesis
  proof cases
    case commits
    obtain d2 where d2: "insert_key s db = Inr ((), d2)" "same_tables d2 db2"
      by (rule exec_pure [OF pure_tx(1) s1 u [unfolded commits(1)]])
    obtain d3 where d3: "upsert_submission s d2 = Inr ((), d3)" "same_tables d3 db3"
      by (rule exec_pure [OF pure_tx(2) d2(2) t [unfolded commits(2)]])
    show ?thesis
      using tx_commit_cases [OF commits(3)] d2(1) d3 by (metis same_tables_trans)
  qed simp
qed

lemma insert_key_keys:
  assumes "insert_key s db = Inr ((), d1)" and "upsert_submission s d1 = Inr ((), d)"
  shows "claimed_keys d = insert (IdempotencyKey s) (claimed_keys db)" and "IdempotencyKey s \<notin> claimed_keys db"
proof -
  have "idempotency_keys d = idempotency_keys d1"
    using assms(2) by (auto simp: upsert_submission_def split: if_splits)
  moreover have "\<exists>row. idempotency_keys d1 = idempotency_keys db @ [row] \<and> ik_key row = IdempotencyKey s"
    and "IdempotencyKey s \<notin> claimed_keys db"
    using assms(1) by (auto simp: insert_key_def claimed_keys_def list_ex_key split: if_splits)
  ultimately show "claimed_keys d = insert (IdempotencyKey s) (claimed_keys db)" "IdempotencyKey s \<notin> claimed_keys db"
    by (auto simp: claimed_keys_def)
qed

lemma submitCheck_stage:
  assumes "submitCheck req db = (st, db')"
  shows "same_tables db db'" and "st = Claiming req \<or> (\<exists>x. st = Finished x)"
proof -
  obtain r d where g: "GetIdempotentResponse (req_IdempotencyKey req) db = (r, d)" by fastforce
  have "same_tables db d"
    using g unfolding GetIdempotentResponse_def
    by (auto split: prod.splits sum.splits option.splits dest: exec_read_same(1))
  then show "same_tables db db'" "st = Claiming req \<or> (\<exists>x. st = Finished x)"
    using assms by (auto simp: submitCheck_def g split: sum.splits if_splits option.splits prod.splits)
qed

lemma InsertAudit_keys: "claimed_keys (snd (InsertAudit a b c db)) = claimed_keys db"
proof -
  let ?a = "\<lparr>actor = a, action = b, details = c\<rparr>"
  obtain u d where e: "exec (\<lambda>db. Inr ((), db\<lparr>audit_log := audit_log db @ [?a]\<rparr>)) db = (u, d)" by fastforce
  have "snd (InsertAudit a b c db) = d" by (cases u) (simp_all add: InsertAudit_def e)
  then show ?thesis using exec_pure_cases [OF pure_audit e] by (auto simp: claimed_keys_def dest: same_tables_proj)
qed

lemma exec_keys:
  assumes "exec f db = (r, d)" and "pure_stmt f"
    and "\<And>x d. f db = Inr (x, d) \<Longrightarrow> claimed_keys d = K (claimed_keys db)"
  shows "claimed_keys d = claimed_keys db \<or> claimed_keys d = K (claimed_keys db)"
  using exec_pure_cases [OF assms(2,1)] assms(3) claimed_keys_same by metis

lemma update_submission_keys:
  "exec (update_submission key f) db = (r, d) \<Longrightarrow> claimed_keys d = claimed_keys db"
  using exec_keys [of "update_submission key f" db r d "\<lambda>K. K"]
  by (auto simp: pure_intros update_submission_def claimed_keys_def)

lemma finish_key_keys: "finish_key key resp db = Inr (x, d) \<Longrightarrow> claimed_keys d = claimed_keys db"
proof -
  assume "finish_key key resp db = Inr (x, d)"
  then have "map ik_key (idempotency_keys d) = map ik_key (idempotency_keys db)" by (auto simp: finish_key_def)
  then show ?thesis unfolding claimed_keys_def by (metis list.set_map)
qed

lemma CompleteSubmission_keys:
  assumes "CompleteSubmission key h st code resp db = (r, d)"
  shows "claimed_keys d = claimed_keys db"
proof -
  have fin: "claimed_keys d' = claimed_keys db'" if "exec (finish_key key resp) db' = (q, d')" for q db' d'
    using exec_keys [OF that pure_tx(4), of "\<lambda>K. K"] finish_key_keys by blast
  show ?thesis
    using assms unfolding CompleteSubmission_def
    by (auto split: prod.splits sum.splits dest!: update_submission_keys fin)
qed

lemma ReleaseSubmission_keys:
  assumes "ReleaseSubmission key code db = (r, d)"
  shows "claimed_keys db - {key} \<subseteq> claimed_keys d" and "claimed_keys d \<subseteq> claimed_keys db"
proof -
  have del: "claimed_keys db' - {key} \<subseteq> claimed_keys d' \<and> claimed_keys d' \<subseteq> claimed_keys db'"
    if "exec (delete_pending key) db' = (q, d')" for q db' d'
  proof -
    have "claimed_keys db' - {key} \<subseteq> claimed_keys d''" "claimed_keys d'' \<subseteq> claimed_keys db'"
      if "delete_pending key db' = Inr (x, d'')" for x d''
      using that by (auto simp: delete_pending_def claimed_keys_def)
    then show ?thesis using exec_pure_cases [OF pure_tx(5) that] claimed_keys_same by (metis Diff_subset order_refl)
  qed
  show "claimed_keys db - {key} \<subseteq> claimed_keys d" "claimed_keys d \<subseteq> claimed_keys db"
    using assms unfolding ReleaseSubmission_def
    by (auto split: prod.splits sum.splits dest!: update_submission_keys del)
qed

lemma submitClaim_stage:
  assumes "submitClaim req db = (st, d)"
  shows "claimed_keys db \<subseteq> claimed_keys d \<and>
    (st = Sending req \<and> req_IdempotencyKey req \<notin> claimed_keys db \<and> req_IdempotencyKey req \<in> claimed_keys d \<or>
     (\<exists>x. st = Finished x))"
proof -
  let ?s = "\<lparr>IdempotencyKey = req_IdempotencyKey req, StellarAddress = req_StellarAddress req,
     Purpose = req_Purpose req, SubTxHash = [], SubState = [], SubResultCode = [],
     SubCreatedAt = time_zero, SubUpdatedAt = time_zero\<rparr>"
  obtain r d' where b: "BeginSubmission ?s db = (r, d')" by fastforce
  have d: "d = d'" and st: "st = (case r of Inl e \<Rightarrow> Finished (Inl (if errors_Is e ErrKeyInFlight then errKeyInFlight
        else Wrap ''tx: begin submission'' e)) | Inr _ \<Rightarrow> Sending req)"
    using assms by (auto simp: submitClaim_def b split: sum.splits)
  from BeginSubmission_cases [OF b] show ?thesis
  proof
    assume "same_tables db d' \<and> (\<exists>e. r = Inl e)"
    then show ?thesis using claimed_keys_same d st by auto
  next
    assume "\<exists>d1 d. insert_key ?s db = Inr ((), d1) \<and> upsert_submission ?s d1 = Inr ((), d) \<and> same_tables d d' \<and>
       (r = Inr () \<or> r = Inl (pgErr PgConn))"
    then obtain d1 d2 where i: "insert_key ?s db = Inr ((), d1)" "upsert_submission ?s d1 = Inr ((), d2)"
        "same_tables d2 d'" "r = Inr () \<or> r = Inl (pgErr PgConn)" by blast
    from insert_key_keys [OF i(1,2)] claimed_keys_same [OF i(3)] i(4) d st show ?thesis by auto
  qed
qed

lemma submitRecord_stage:
  assumes "submitRecord req r db = (x, d)"
  shows "claimed_keys db - {req_IdempotencyKey req} \<subseteq> claimed_keys d \<and> (verdict r \<longrightarrow> claimed_keys db \<subseteq> claimed_keys d)"
proof (cases "verdict r")
  case True
  then obtain result where r: "r = Inr result"
      and v: "(\<not> sub_Successful result \<and> sub_ResultCode result = resultCodeBadSeq) = False"
    by (auto simp: verdict_def split: sum.splits)
  let ?resp = "\<lparr>resp_Hash = sub_Hash result, resp_Successful = sub_Successful result,
     resp_ResultCode = sub_ResultCode result, resp_Replayed = False\<rparr>"
  obtain y d' where c: "CompleteSubmission (req_IdempotencyKey req) (sub_Hash result) (submissionState result)
      (sub_ResultCode result) ?resp db = (y, d')" by fastforce
  have "claimed_keys d = claimed_keys d'"
    using assms unfolding submitRecord_def Let_def r sum.case v if_False c
    by (cases y) (auto simp: InsertAudit_keys)
  with CompleteSubmission_keys [OF c] show ?thesis by blast
next
  case False
  have "\<exists>code y d'. ReleaseSubmission (req_IdempotencyKey req) code db = (y, d') \<and> claimed_keys d = claimed_keys d'"
  proof (cases r)
    case (Inl e)
    obtain y d' where rel: "ReleaseSubmission (req_IdempotencyKey req) (err_text e) db = (y, d')" by fastforce
    then have "claimed_keys d = claimed_keys d'"
      using assms unfolding submitRecord_def Let_def Inl by (cases y) (auto simp: InsertAudit_keys)
    with rel show ?thesis by blast
  next
    case (Inr result)
    obtain y d' where rel: "ReleaseSubmission (req_IdempotencyKey req) (sub_ResultCode result) db = (y, d')" by fastforce
    have "\<not> sub_Successful result \<and> sub_ResultCode result = resultCodeBadSeq"
      using False Inr by (simp add: verdict_def)
    then have "claimed_keys d = claimed_keys d'"
      using assms rel unfolding submitRecord_def Let_def Inr by (cases y) (auto simp: InsertAudit_keys)
    with rel show ?thesis by blast
  qed
  then show ?thesis using ReleaseSubmission_keys False by metis
qed

interpretation repo_gate: key_gate claimed_keys submitCheck submitClaim submitRecord
proof unfold_locales
  show "claimed_keys d' = claimed_keys d \<and> (\<forall>k. \<not> holds k (Some st))" if "submitCheck req d = (st, d')" for req d st d'
    using submitCheck_stage [OF that] claimed_keys_same by auto
qed (fact submitClaim_stage submitRecord_stage)+

section \<open>Sequential behaviour\<close>

lemma Submit_cases:
  assumes "tx_ready s"
  shows "Submit s req db = (case submitCheck req db of
      (Finished r, db1) \<Rightarrow> (r, db1)
    | (_, db1) \<Rightarrow> (case submitClaim req db1 of
         (Finished r, db2) \<Rightarrow> (r, db2)
       | (_, db2) \<Rightarrow> submitRecord req (submitSend (tx_chain s) req) db2))"
proof -
  obtain st db1 where c: "submitCheck req db = (st, db1)" by fastforce
  obtain st2 db2 where l: "submitClaim req db1 = (st2, db2)" by fastforce
  show ?thesis
    using assms submitCheck_stage(2) [OF c] submitClaim_stage [OF l] by (auto simp: Submit_def c l)
qed

lemma submitClaim_no_faults:
  assumes "faults db = []" and "length (req_StellarAddress req) \<le> 56"
  shows "if req_IdempotencyKey req \<in> claimed_keys db
    then submitClaim req db = (Finished (Inl errKeyInFlight), db)
    else \<exists>d. submitClaim req db = (Sending req, d) \<and> faults d = [] \<and>
      idempotency_keys d = idempotency_keys db @ [\<lparr>ik_key = req_IdempotencyKey req,
        ik_stellar_address = req_StellarAddress req, ik_request_hash = req_Purpose req, ik_response_json = None,
        ik_status = ''pending'', ik_expires_at = db_clock db + keyTTL\<rparr>] \<and>
      (\<exists>r\<in>set (submissions d). sb_idempotency_key r = req_IdempotencyKey req) \<and>
      cheques d = cheques db \<and> reservations d = reservations db \<and> cheque_transitions d = cheque_transitions db \<and>
      pool_deposits d = pool_deposits db \<and> audit_log d = audit_log db"
proof (cases "req_IdempotencyKey req \<in> claimed_keys db")
  case True
  then have "list_ex (\<lambda>r. ik_key r = req_IdempotencyKey req) (idempotency_keys db)"
    by (simp add: claimed_keys_def list_ex_key)
  then show ?thesis
    using True assms by (simp add: submitClaim_def BeginSubmission_def tx_no_faults exec_no_faults insert_key_def ErrKeyInFlight_def)
next
  case False
  then have "\<not> list_ex (\<lambda>r. ik_key r = req_IdempotencyKey req) (idempotency_keys db)"
    by (simp add: claimed_keys_def list_ex_key)
  then show ?thesis
    using False assms
    by (auto simp: submitClaim_def BeginSubmission_def tx_no_faults exec_no_faults insert_key_def upsert_submission_def
        list_ex_iff bex_Un)
qed

lemma InsertAudit_no_faults:
  "faults db = [] \<Longrightarrow> snd (InsertAudit a b c db) = db\<lparr>audit_log := audit_log db @ [\<lparr>actor = a, action = b, details = c\<rparr>]\<rparr>"
  by (simp add: InsertAudit_def exec_no_faults)


text \<open>What the network's answer means: the response and what stays of the key.\<close>

definition answer :: "SubmitResult res \<Rightarrow> SubmitResponse res" where
  "answer r = (case r of Inl e \<Rightarrow> Inl (Wrap ''tx.submit_failed'' e)
     | Inr result \<Rightarrow> Inr \<lparr>resp_Hash = sub_Hash result, resp_Successful = sub_Successful result,
         resp_ResultCode = sub_ResultCode result, resp_Replayed = False\<rparr>)"

definition history_state :: "SubmitResult res \<Rightarrow> string" where
  "history_state r = (if verdict r then submissionState (projr r) else ''failed'')"

definition history_code :: "SubmitResult res \<Rightarrow> string" where
  "history_code r = (case r of Inl e \<Rightarrow> err_text e | Inr result \<Rightarrow> sub_ResultCode result)"

lemma submitRecord_no_faults:
  assumes "faults db = []"
  shows "\<exists>d. submitRecord req r db = (answer r, d) \<and> faults d = [] \<and>
    idempotency_keys d =
      (if verdict r
       then map (\<lambda>k. if ik_key k = req_IdempotencyKey req
          then k\<lparr>ik_status := ''done'', ik_response_json := Some (projr (answer r))\<rparr> else k) (idempotency_keys db)
       else filter (\<lambda>k. \<not> (ik_key k = req_IdempotencyKey req \<and> ik_status k = ''pending'')) (idempotency_keys db)) \<and>
    (\<exists>f. submissions d = map (\<lambda>k. if sb_idempotency_key k = req_IdempotencyKey req then f k else k) (submissions db) \<and>
       (\<forall>k. sb_idempotency_key (f k) = sb_idempotency_key k \<and> sb_state (f k) = history_state r \<and>
          sb_result_code (f k) = Some (history_code r) \<and>
          sb_tx_hash (f k) = (if verdict r then Some (sub_Hash (projr r)) else sb_tx_hash k))) \<and>
    cheques d = cheques db \<and> reservations d = reservations db \<and> cheque_transitions d = cheque_transitions db \<and>
    pool_deposits d = pool_deposits db \<and> (\<exists>a. audit_log d = audit_log db @ [a])"
proof (cases r)
  case (Inl e)
  let ?f = "\<lambda>k. k\<lparr>sb_state := ''failed'', sb_result_code := Some (err_text e), sb_updated_at := db_clock db\<rparr>"
  show ?thesis
    using assms
    by (simp add: Inl Let_def submitRecord_def answer_def verdict_def ReleaseSubmission_def exec_no_faults update_submission_def
        delete_pending_def InsertAudit_no_faults history_state_def history_code_def exI [of _ ?f])
next
  case (Inr result)
  show ?thesis
  proof (cases "\<not> sub_Successful result \<and> sub_ResultCode result = resultCodeBadSeq")
    case True
    let ?f = "\<lambda>k. k\<lparr>sb_state := ''failed'', sb_result_code := Some (sub_ResultCode result), sb_updated_at := db_clock db\<rparr>"
    from True show ?thesis
      using assms
      by (simp add: Inr Let_def submitRecord_def answer_def verdict_def ReleaseSubmission_def exec_no_faults update_submission_def
          delete_pending_def InsertAudit_no_faults history_state_def history_code_def exI [of _ ?f])
  next
    case False
    let ?f = "\<lambda>k. k\<lparr>sb_tx_hash := Some (sub_Hash result), sb_state := submissionState result,
       sb_result_code := Some (sub_ResultCode result), sb_updated_at := db_clock db\<rparr>"
    have v: "verdict (Inr result)" using False by (auto simp: verdict_def)
    have eq: "(\<not> sub_Successful result \<and> sub_ResultCode result = resultCodeBadSeq) = False" using False by blast
    have "submitRecord req r db = (answer r, snd (submitRecord req r db))" "faults (snd (submitRecord req r db)) = []"
       "idempotency_keys (snd (submitRecord req r db)) = map (\<lambda>k. if ik_key k = req_IdempotencyKey req
          then k\<lparr>ik_status := ''done'', ik_response_json := Some (projr (answer r))\<rparr> else k) (idempotency_keys db)"
       "submissions (snd (submitRecord req r db)) =
          map (\<lambda>k. if sb_idempotency_key k = req_IdempotencyKey req then ?f k else k) (submissions db)"
       "cheques (snd (submitRecord req r db)) = cheques db" "reservations (snd (submitRecord req r db)) = reservations db"
       "cheque_transitions (snd (submitRecord req r db)) = cheque_transitions db"
       "pool_deposits (snd (submitRecord req r db)) = pool_deposits db"
       "\<exists>a. audit_log (snd (submitRecord req r db)) = audit_log db @ [a]"
      using assms
      by (simp_all only: Inr submitRecord_def Let_def sum.case eq if_False)
        (simp_all add: answer_def Let_def CompleteSubmission_def exec_no_faults update_submission_def
          finish_key_def InsertAudit_no_faults)
    then show ?thesis
      using v by (intro exI [of _ "snd (submitRecord req r db)"] conjI)
        (auto simp: Inr history_state_def history_code_def intro!: exI [of _ ?f])
  qed
qed

lemma submitCheck_no_faults:
  assumes "faults db = []"
  shows "submitCheck req db = (case find (\<lambda>r. ik_key r = req_IdempotencyKey req) (idempotency_keys db) of
      None \<Rightarrow> (Claiming req, db)
    | Some row \<Rightarrow>
        if ik_status row = ''done''
        then (Finished (case ik_response_json row of
                None \<Rightarrow> Inl (Wrap ''tx: decode cached response'' (Opaque ''unexpected end of JSON input''))
              | Some resp \<Rightarrow> Inr (resp\<lparr>resp_Replayed := True\<rparr>)), db)
        else (Claiming req, db))"
  using assms by (auto simp: submitCheck_def GetIdempotentResponse_def exec_no_faults split: option.splits)

lemma find_key_claimed: "find (\<lambda>r. ik_key r = k) (idempotency_keys db) = None \<longleftrightarrow> k \<notin> claimed_keys db"
  by (auto simp: find_None_iff claimed_keys_def)

lemma find_update_key:
  "find (\<lambda>r. key r = k) xs \<noteq> None \<Longrightarrow> (\<And>r. key (f r) = key r) \<Longrightarrow>
   find (\<lambda>r. key r = k) (map (\<lambda>r. if key r = k then f r else r) xs) = map_option f (find (\<lambda>r. key r = k) xs)"
  by (induction xs) auto

lemma Submit_fresh:
  assumes "tx_ready s" and "faults db = []" and "length (req_StellarAddress req) \<le> 56"
    and None: "find (\<lambda>r. ik_key r = req_IdempotencyKey req) (idempotency_keys db) = None"
  shows "(let r = submitSend (tx_chain s) req; db' = snd (Submit s req db) in
        fst (Submit s req db) = answer r \<and> faults db' = [] \<and>
        idempotency_keys db' = idempotency_keys db @ (if verdict r
          then [\<lparr>ik_key = req_IdempotencyKey req, ik_stellar_address = req_StellarAddress req,
                 ik_request_hash = req_Purpose req, ik_response_json = Some (projr (answer r)),
                 ik_status = ''done'', ik_expires_at = db_clock db + keyTTL\<rparr>] else []) \<and>
        cheques db' = cheques db \<and> reservations db' = reservations db \<and>
        cheque_transitions db' = cheque_transitions db \<and> pool_deposits db' = pool_deposits db \<and>
        (\<exists>a. audit_log db' = audit_log db @ [a])) \<and>
    (\<exists>row. find (\<lambda>k. sb_idempotency_key k = req_IdempotencyKey req) (submissions (snd (Submit s req db))) = Some row \<and>
       sb_state row = history_state (submitSend (tx_chain s) req) \<and>
       sb_result_code row = Some (history_code (submitSend (tx_chain s) req)) \<and>
       (verdict (submitSend (tx_chain s) req) \<longrightarrow> sb_tx_hash row = Some (sub_Hash (projr (submitSend (tx_chain s) req)))))"
proof -
  note fresh = None [unfolded find_key_claimed]
  let ?k = "req_IdempotencyKey req"
  let ?row = "\<lparr>ik_key = ?k, ik_stellar_address = req_StellarAddress req,
     ik_request_hash = req_Purpose req, ik_response_json = None,
     ik_status = ''pending'', ik_expires_at = db_clock db + keyTTL\<rparr>"
  obtain d where d: "submitClaim req db = (Sending req, d)" "faults d = []"
      "idempotency_keys d = idempotency_keys db @ [?row]" "\<exists>r\<in>set (submissions d). sb_idempotency_key r = ?k"
      "cheques d = cheques db" "reservations d = reservations db" "cheque_transitions d = cheque_transitions db"
      "pool_deposits d = pool_deposits db" "audit_log d = audit_log db"
    using submitClaim_no_faults [OF assms(2,3)] fresh by auto
  let ?r = "submitSend (tx_chain s) req"
  have sub: "Submit s req db = submitRecord req ?r d"
    using assms by (simp add: Submit_cases submitCheck_no_faults d(1))
  have old: "ik_key k \<noteq> ?k" if "k \<in> set (idempotency_keys db)" for k
    using fresh imageI [OF that, of ik_key] unfolding claimed_keys_def by metis
  have keep: "map (\<lambda>k. if ik_key k = ?k then f k else k) (idempotency_keys db) = idempotency_keys db" for f
    using old by (simp add: map_idI)
  have drop: "filter (\<lambda>k. ik_key k = ?k \<longrightarrow> ik_status k \<noteq> ''pending'') (idempotency_keys db) = idempotency_keys db"
    using old by (simp add: filter_id_conv)
  obtain row where row: "find (\<lambda>r. sb_idempotency_key r = ?k) (submissions d) = Some row"
    using d(4) by (fastforce simp: find_None_iff)
  obtain d' f where d': "submitRecord req ?r d = (answer ?r, d')" "faults d' = []"
      "idempotency_keys d' = (if verdict ?r
       then map (\<lambda>k. if ik_key k = ?k then k\<lparr>ik_status := ''done'', ik_response_json := Some (projr (answer ?r))\<rparr> else k) (idempotency_keys d)
       else filter (\<lambda>k. \<not> (ik_key k = ?k \<and> ik_status k = ''pending'')) (idempotency_keys d))"
      "submissions d' = map (\<lambda>k. if sb_idempotency_key k = ?k then f k else k) (submissions d)"
      "\<forall>k. sb_idempotency_key (f k) = sb_idempotency_key k \<and> sb_state (f k) = history_state ?r \<and>
          sb_result_code (f k) = Some (history_code ?r) \<and>
          sb_tx_hash (f k) = (if verdict ?r then Some (sub_Hash (projr ?r)) else sb_tx_hash k)"
      "cheques d' = cheques d" "reservations d' = reservations d" "cheque_transitions d' = cheque_transitions d"
      "pool_deposits d' = pool_deposits d" "\<exists>a. audit_log d' = audit_log d @ [a]"
    using submitRecord_no_faults [OF d(2), of req ?r] by blast
  have "find (\<lambda>k. sb_idempotency_key k = ?k) (submissions d') = Some (f row)"
    using find_update_key [of sb_idempotency_key ?k "submissions d" f] row d'(4,5) by simp
  then show ?thesis
    using d' d(3,5-) by (simp add: Let_def sub keep drop)
qed

lemma Submit_known:
  assumes "tx_ready s" and "faults db = []" and "length (req_StellarAddress req) \<le> 56"
    and Some: "find (\<lambda>r. ik_key r = req_IdempotencyKey req) (idempotency_keys db) = Some row"
  shows "Submit s req db =
        (if ik_status row \<noteq> ''done'' then Inl errKeyInFlight
         else (case ik_response_json row of
                 None \<Rightarrow> Inl (Wrap ''tx: decode cached response'' (Opaque ''unexpected end of JSON input''))
               | Some resp \<Rightarrow> Inr (resp\<lparr>resp_Replayed := True\<rparr>)), db)"
proof -
  from Some have "req_IdempotencyKey req \<in> claimed_keys db" using find_key_claimed [of "req_IdempotencyKey req" db] by simp
  then show ?thesis
    using assms submitClaim_no_faults [OF assms(2,3)]
    by (simp add: Submit_cases submitCheck_no_faults split: if_splits)
qed

section \<open>Concrete submissions\<close>

definition ex_tx :: "SubmitResult res \<Rightarrow> TxSvc" where
  "ex_tx r = \<lparr>tx_ready = True, tx_pool_ready = True,
     tx_chain = \<lparr>GetAccount = \<lambda>_. Inl (Opaque []), GetTrustline = \<lambda>_ _ _. Inl (Opaque []), GetLedger = Inl (Opaque []),
       SimulateTransaction = \<lambda>_. Inl (Opaque []), SubmitClassic = \<lambda>_. r, SubmitSoroban = \<lambda>_. r, Fund = \<lambda>_. Inl (Opaque [])\<rparr>\<rparr>"

definition ex_req :: SubmitRequest where
  "ex_req = \<lparr>req_IdempotencyKey = ''k1'', req_StellarAddress = ''GA'', req_Purpose = ''cheque.lock'',
     req_Kind = KindSoroban, req_SignedXDR = ''AAAA''\<rparr>"

definition ex_result :: SubmitResult where
  "ex_result = \<lparr>sub_Hash = ''h1'', sub_Successful = True, sub_ResultCode = ''SUCCESS'', sub_LedgerSeq = 5\<rparr>"

definition ex_resp :: SubmitResponse where
  "ex_resp = \<lparr>resp_Hash = ''h1'', resp_Successful = True, resp_ResultCode = ''SUCCESS'', resp_Replayed = False\<rparr>"

definition ex_tx_db1 :: pay_db where
  "ex_tx_db1 = snd (Submit (ex_tx (Inr ex_result)) ex_req ex_db0)"

lemma ex_Submit:
  "Submit (ex_tx (Inr ex_result)) ex_req ex_db0 = (Inr ex_resp, ex_tx_db1)"
  "Submit (ex_tx (Inl (Opaque ''down''))) ex_req ex_db0 =
     (Inl (Wrap ''tx.submit_failed'' (Opaque ''down'')), snd (Submit (ex_tx (Inl (Opaque ''down''))) ex_req ex_db0))"
  "faults ex_db0 = []" "faults ex_tx_db1 = []" "length (req_StellarAddress ex_req) \<le> 56" "tx_ready (ex_tx r)"
  "find (\<lambda>r. ik_key r = req_IdempotencyKey ex_req) (idempotency_keys ex_db0) = None"
  by (simp add: ex_tx_db1_def prod_eq_iff, code_simp) (code_simp | simp add: prod_eq_iff ex_tx_def, code_simp?)+

section \<open>Properties\<close>

text \<open>
  C14. Single flight of \<open>tx.Submit\<close>: take any number of concurrent submissions, stopped and resumed
  between their database and network calls in any order, with any answers of the network and any
  connection failures. Between two runs of the reaper, no idempotency key ever receives two
  verdicts from the network (an answer other than an unreachable network or \<open>tx_bad_seq\<close>), and no
  two submissions are between the claim and the record of the same key.
\<close>

theorem single_flight:
  assumes "reach tx_start (tx_step claimed_keys submitCheck submitClaim submitRecord) w"
  shows "verdicts k (sent w) \<le> 1 \<and> (holds k (stages w t) \<and> holds k (stages w u) \<longrightarrow> t = u)"
  using repo_gate.flight.inv_reach [OF assms] unfolding flight_inv_def by blast

theorem single_flight_witness:
  "\<exists>w. reach tx_start (tx_step claimed_keys submitCheck submitClaim submitRecord) w \<and> verdicts ''k1'' (sent w) = 1 \<and>
     holds ''k1'' (stages w 0) \<and> verdicts ''k1'' (sent w) \<le> 1 \<and> \<not> holds ''k1'' (stages w 1)"
proof -
  let ?step = "tx_step claimed_keys submitCheck submitClaim submitRecord"
  define w0 :: "pay_db tx_world" where "w0 = \<lparr>wdb = ex_db0, stages = \<lambda>_. None, sent = []\<rparr>"
  obtain d where d: "submitClaim ex_req ex_db0 = (Sending ex_req, d)"
    using submitClaim_no_faults [OF ex_Submit(3,5)] ex_Submit(7) [unfolded find_key_claimed] by auto
  have check: "submitCheck ex_req ex_db0 = (Claiming ex_req, ex_db0)"
    by (simp only: submitCheck_no_faults [OF ex_Submit(3)] ex_Submit(7) option.case)
  define w1 where "w1 = w0\<lparr>stages := (stages w0)(0 \<mapsto> Checking ex_req)\<rparr>"
  define w2 where "w2 = w1\<lparr>wdb := ex_db0, stages := (stages w1)(0 \<mapsto> Claiming ex_req)\<rparr>"
  define w3 where "w3 = w2\<lparr>wdb := d, stages := (stages w2)(0 \<mapsto> Sending ex_req)\<rparr>"
  define w4 where "w4 = w3\<lparr>stages := (stages w3)(0 \<mapsto> Recording ex_req (Inr ex_result)),
     sent := sent w3 @ [(req_IdempotencyKey ex_req, Inr ex_result)]\<rparr>"
  note defs = w0_def w1_def w2_def w3_def w4_def
  have "reach tx_start ?step w0" by (rule reach_init) (simp add: tx_start_def w0_def)
  moreover have "?step w0 w1" unfolding w1_def by (rule step_start) (simp add: w0_def)
  moreover have "?step w1 w2" unfolding w2_def
    by (rule step_check) (simp_all add: defs, rule check)
  moreover have "?step w2 w3" unfolding w3_def by (rule step_claim) (simp_all add: defs, rule d)
  moreover have "?step w3 w4" unfolding w4_def by (rule step_send) (simp add: defs)
  ultimately have r: "reach tx_start ?step w4" by (blast intro: reach_step)
  have "holds ''k1'' (stages w4 0)" "verdicts ''k1'' (sent w4) = 1"
    by (simp_all add: defs ex_req_def verdicts_def verdict_def ex_result_def)
  with r single_flight [OF r, of "''k1''" 0 1] show ?thesis by (intro exI [of _ w4]) auto
qed

text \<open>
  C16. \<open>tx.Submit\<close> on a healthy database, all branches: a done key replays the stored response and a
  pending key is refused, both without touching the database; a fresh key goes to the network, an
  unreachable network or \<open>tx_bad_seq\<close> leaves the key table as it was, and every other answer is
  stored as the key's response. The cheque tables stay as they are and one audit row is written.
\<close>

theorem Submit_exact:
  assumes "tx_ready s" and "faults db = []" and "length (req_StellarAddress req) \<le> 56"
  shows "case find (\<lambda>r. ik_key r = req_IdempotencyKey req) (idempotency_keys db) of
      Some row \<Rightarrow> Submit s req db =
        (if ik_status row \<noteq> ''done'' then Inl errKeyInFlight
         else (case ik_response_json row of
                 None \<Rightarrow> Inl (Wrap ''tx: decode cached response'' (Opaque ''unexpected end of JSON input''))
               | Some resp \<Rightarrow> Inr (resp\<lparr>resp_Replayed := True\<rparr>)), db)
    | None \<Rightarrow> (let r = submitSend (tx_chain s) req; db' = snd (Submit s req db) in
        fst (Submit s req db) = answer r \<and> faults db' = [] \<and>
        idempotency_keys db' = idempotency_keys db @ (if verdict r
          then [\<lparr>ik_key = req_IdempotencyKey req, ik_stellar_address = req_StellarAddress req,
                 ik_request_hash = req_Purpose req, ik_response_json = Some (projr (answer r)),
                 ik_status = ''done'', ik_expires_at = db_clock db + keyTTL\<rparr>] else []) \<and>
        cheques db' = cheques db \<and> reservations db' = reservations db \<and>
        cheque_transitions db' = cheque_transitions db \<and> pool_deposits db' = pool_deposits db \<and>
        (\<exists>a. audit_log db' = audit_log db @ [a]))"
  using Submit_fresh [OF assms] Submit_known [OF assms] by (simp split: option.split) (simp add: Let_def)

theorem Submit_exact_witness:
  "fst (Submit (ex_tx (Inr ex_result)) ex_req ex_db0) = Inr ex_resp \<and>
   length (idempotency_keys (snd (Submit (ex_tx (Inr ex_result)) ex_req ex_db0))) = 1 \<and>
   idempotency_keys (snd (Submit (ex_tx (Inl (Opaque ''down''))) ex_req ex_db0)) = []"
proof -
  have "idempotency_keys ex_db0 = []" by (simp add: ex_db0_def)
  then show ?thesis
    using Submit_exact [OF ex_Submit(6,3,5), of "Inr ex_result"] Submit_exact [OF ex_Submit(6,3,5), of "Inl (Opaque ''down'')"]
      ex_Submit(7)
    by (simp add: Let_def answer_def verdict_def ex_tx_def submitSend_def ex_req_def ex_result_def ex_resp_def)
qed

text \<open>
  C17. Replay: once \<open>tx.Submit\<close> has returned a response that is a verdict, every later submission
  under the same key returns that response, marked as replayed, whatever its sender, purpose,
  envelope and network, and changes nothing; as long as the key's row is still there.
\<close>

theorem Submit_replays:
  assumes "tx_ready s" and "faults db = []" and "length (req_StellarAddress req) \<le> 56"
    and ok: "Submit s req db = (Inr resp, db1)"
    and final: "resp_Successful resp \<or> resp_ResultCode resp \<noteq> resultCodeBadSeq"
    and later: "find (\<lambda>r. ik_key r = req_IdempotencyKey req) (idempotency_keys db2) =
      find (\<lambda>r. ik_key r = req_IdempotencyKey req) (idempotency_keys db1)"
    and "faults db2 = []" and "tx_ready s'" and "req_IdempotencyKey req' = req_IdempotencyKey req"
  shows "Submit s' req' db2 = (Inr (resp\<lparr>resp_Replayed := True\<rparr>), db2)"
proof -
  have "\<exists>row. find (\<lambda>r. ik_key r = req_IdempotencyKey req) (idempotency_keys db1) = Some row \<and> ik_status row = ''done'' \<and>
      (\<exists>resp'. ik_response_json row = Some resp' \<and> resp'\<lparr>resp_Replayed := True\<rparr> = resp\<lparr>resp_Replayed := True\<rparr>)"
  proof (cases "find (\<lambda>r. ik_key r = req_IdempotencyKey req) (idempotency_keys db)")
    case None
    let ?r = "submitSend (tx_chain s) req"
    have a: "answer ?r = Inr resp"
      using Submit_fresh [OF assms(1-3) None] ok by (simp add: Let_def)
    then have v: "verdict ?r" using final by (auto simp: answer_def verdict_def split: sum.splits)
    show ?thesis
      using Submit_fresh [OF assms(1-3) None] ok a v None by (auto simp: Let_def find_append)
  next
    case (Some row)
    then show ?thesis using Submit_known [OF assms(1-3) Some] ok by (auto split: if_splits option.splits)
  qed
  then show ?thesis
    using assms by (auto simp: Submit_cases submitCheck_no_faults)
qed

theorem Submit_replays_witness:
  "Submit (ex_tx (Inl (Opaque ''down''))) (ex_req\<lparr>req_StellarAddress := ''GB'', req_SignedXDR := ''BBBB''\<rparr>) ex_tx_db1 =
     (Inr (ex_resp\<lparr>resp_Replayed := True\<rparr>), ex_tx_db1)"
  by (rule Submit_replays [OF ex_Submit(6,3,5,1) _ refl ex_Submit(4,6)]) (simp_all add: ex_resp_def)

text \<open>
  The submission history: after \<open>tx.Submit\<close> under a fresh key on a healthy database,
  \<open>tx.GetSubmission\<close> finds the key and reports the network's answer: \<open>success\<close>, \<open>submitted\<close> for a
  pending one, \<open>failed\<close> otherwise, with its result code and the hash when there was a verdict.
\<close>

theorem GetSubmission_after_Submit:
  assumes "tx_ready s" and "faults db = []" and "length (req_StellarAddress req) \<le> 56"
    and "find (\<lambda>r. ik_key r = req_IdempotencyKey req) (idempotency_keys db) = None"
    and "submitSend (tx_chain s) req = r" and "Submit s req db = (x, db')"
  shows "\<exists>sub. GetSubmission s (req_IdempotencyKey req) db' = (Inr sub, db') \<and>
    IdempotencyKey sub = req_IdempotencyKey req \<and>
    SubState sub = (case r of Inl _ \<Rightarrow> ''failed'' | Inr result \<Rightarrow> if sub_Successful result then ''success''
      else if sub_ResultCode result = ''PENDING'' then ''submitted'' else ''failed'') \<and>
    SubResultCode sub = (case r of Inl e \<Rightarrow> err_text e | Inr result \<Rightarrow> sub_ResultCode result) \<and>
    (case r of Inr result \<Rightarrow> sub_Successful result \<or> sub_ResultCode result \<noteq> resultCodeBadSeq \<longrightarrow>
       SubTxHash sub = sub_Hash result | Inl _ \<Rightarrow> True)"
proof -
  have db': "db' = snd (Submit s req db)" using assms(6) by simp
  note fresh = Submit_fresh [OF assms(1-4), unfolded assms(5)]
  obtain row where row: "find (\<lambda>k. sb_idempotency_key k = req_IdempotencyKey req) (submissions db') = Some row"
      "sb_state row = history_state r" "sb_result_code row = Some (history_code r)"
      "verdict r \<longrightarrow> sb_tx_hash row = Some (sub_Hash (projr r))" and "faults db' = []"
    using fresh unfolding db' by (auto simp: Let_def)
  moreover have "sb_idempotency_key row = req_IdempotencyKey req" using row(1) by (auto simp: find_Some_iff)
  ultimately show ?thesis
    using assms(1)
    by (auto simp: GetSubmission_def GetSubmissionRepo_def exec_no_faults coalesce_empty_def history_state_def
        history_code_def submissionState_def verdict_def resultCodeBadSeq_def split: sum.splits if_splits)
qed

theorem GetSubmission_after_Submit_witness:
  "\<exists>sub. GetSubmission (ex_tx (Inr ex_result)) ''k1'' ex_tx_db1 = (Inr sub, ex_tx_db1) \<and> SubState sub = ''success'' \<and>
     SubTxHash sub = ''h1''"
proof -
  have "submitSend (tx_chain (ex_tx (Inr ex_result))) ex_req = Inr ex_result"
    by (simp add: ex_tx_def submitSend_def ex_req_def)
  from GetSubmission_after_Submit [OF ex_Submit(6,3,5,7) this ex_Submit(1)]
  show ?thesis by (auto simp: ex_result_def ex_req_def)
qed

text \<open>
  The reaper, under every connection failure: it only ever removes rows, and only rows that are
  pending and past their expiry, so that no stored response is lost; when it reports a number, it
  has removed exactly those rows, and no other table changes.
\<close>

theorem reaper_keeps_responses:
  assumes "ReapExpiredKeys s now db = (r, db')"
  shows "\<exists>dead. (\<forall>row. dead row \<longrightarrow> ik_status row = ''pending'' \<and> ik_expires_at row < pg_timestamp now) \<and>
      idempotency_keys db' = filter (\<lambda>row. \<not> dead row) (idempotency_keys db) \<and>
      (\<forall>n. r = Inr n \<longrightarrow> n = length (filter dead (idempotency_keys db)) \<and>
         dead = (\<lambda>row. ik_status row = ''pending'' \<and> ik_expires_at row < pg_timestamp now)) \<and>
      cheques db' = cheques db \<and> submissions db' = submissions db \<and> reservations db' = reservations db"
proof (cases "tx_ready s")
  case False
  then show ?thesis using assms by (auto simp: ReapExpiredKeys_def intro!: exI [of _ "\<lambda>_. False"])
next
  case True
  let ?dead = "\<lambda>row. ik_status row = ''pending'' \<and> ik_expires_at row < pg_timestamp now"
  let ?del = "\<lambda>db. Inr (length (filter ?dead (idempotency_keys db)),
      db\<lparr>idempotency_keys := filter (\<lambda>r. \<not> ?dead r) (idempotency_keys db)\<rparr>)"
  obtain q d where e: "exec ?del db = (q, d)" by fastforce
  have pure: "pure_stmt ?del" by (simp add: pure_stmt_def)
  have r: "db' = d" "r = Inr n \<Longrightarrow> q = Inr n" for n
    using assms True e unfolding ReapExpiredKeys_def ReapExpiredPendingKeys_def Let_def
    by (auto simp only: if_False simp_thms prod.case prod.inject sum.simps split: sum.splits prod.splits)
  from exec_pure_cases [OF pure e] show ?thesis
  proof
    assume "same_tables db d \<and> (\<exists>e. q = Inl e)"
    then show ?thesis using r by (auto dest!: same_tables_proj intro!: exI [of _ "\<lambda>_. False"])
  next
    assume "\<exists>x d'. ?del db = Inr (x, d') \<and> same_tables d' d \<and> (q = Inr x \<or> q = Inl PgConn)"
    then show ?thesis using r by (auto dest!: same_tables_proj intro!: exI [of _ ?dead])
  qed
qed


theorem reaper_keeps_responses_witness:
  "fst (ReapExpiredKeys (ex_tx (Inr ex_result)) (48 * 3600 * 1000000000) ex_tx_db1) = Inr 0 \<and>
   length (idempotency_keys (snd (ReapExpiredKeys (ex_tx (Inr ex_result)) (48 * 3600 * 1000000000) ex_tx_db1))) = 1"
proof -
  have one: "map ik_status (idempotency_keys ex_tx_db1) = [''done'']" by code_simp
  have "length (idempotency_keys ex_tx_db1) = 1" using arg_cong [OF one, of length] by simp
  then obtain row where row: "idempotency_keys ex_tx_db1 = [row]" "ik_status row = ''done''"
    using one by (cases "idempotency_keys ex_tx_db1") auto
  obtain r d where r: "ReapExpiredKeys (ex_tx (Inr ex_result)) (48 * 3600 * 1000000000) ex_tx_db1 = (r, d)" by fastforce
  have "\<exists>n. r = Inr n"
    using r ex_Submit(4,6) by (auto simp: ReapExpiredKeys_def ReapExpiredPendingKeys_def exec_no_faults Let_def)
  then obtain n where n: "r = Inr n" by blast
  obtain dead where D: "(\<forall>row. dead row \<longrightarrow> ik_status row = ''pending'' \<and>
        ik_expires_at row < pg_timestamp (48 * 3600 * 1000000000)) \<and>
      idempotency_keys d = filter (\<lambda>row. \<not> dead row) (idempotency_keys ex_tx_db1) \<and>
      (\<forall>n. r = Inr n \<longrightarrow> n = length (filter dead (idempotency_keys ex_tx_db1)) \<and>
         dead = (\<lambda>row. ik_status row = ''pending'' \<and> ik_expires_at row < pg_timestamp (48 * 3600 * 1000000000))) \<and>
      cheques d = cheques ex_tx_db1 \<and> submissions d = submissions ex_tx_db1 \<and> reservations d = reservations ex_tx_db1"
    using reaper_keeps_responses [OF r] by (rule exE)
  note dead = conjunct1 [OF D] conjunct1 [OF conjunct2 [OF D]]
    conjunct1 [OF spec [OF conjunct1 [OF conjunct2 [OF conjunct2 [OF D]]], of n, rule_format, OF n]]
  have "\<not> dead row" using spec [OF dead(1), of row] row(2) by auto
  then show ?thesis using r n dead(2,3) row(1) by simp
qed

end
