(* ===== verification/Boot.thy ===== *)
theory Boot
  imports Http Ports
begin

text \<open>
  How a process starts and stops: the environment readers of \<open>backend/pkg/envx\<close>, the background
  connect loop of \<open>backend/pkg/dbx\<close>, the end of \<open>httpx.ListenAndServe\<close> and the ticker loop of the
  background jobs. The environment is a function from names to values (empty when unset), and what
  a connection attempt meets is a parameter.
\<close>

section \<open>Environment\<close>

type_synonym environment = "string \<Rightarrow> string"

definition envx_Get :: "environment \<Rightarrow> string \<Rightarrow> string \<Rightarrow> string" where
  "envx_Get env key fallback = (if env key \<noteq> [] then env key else fallback)"

text \<open>\<open>strconv.Atoi\<close>: an optional sign and decimal digits, within 64 bits.\<close>

definition Atoi :: "string \<Rightarrow> int option" where
  "Atoi s = (case bigint_SetString s of
     None \<Rightarrow> None | Some n \<Rightarrow> if - (2 ^ 63) \<le> n \<and> n < 2 ^ 63 then Some n else None)"

definition envx_GetInt :: "environment \<Rightarrow> string \<Rightarrow> int \<Rightarrow> int" where
  "envx_GetInt env key fallback =
     (let v = env key in
      if v = [] then fallback else (case Atoi v of None \<Rightarrow> fallback | Some n \<Rightarrow> n))"

text \<open>\<open>None\<close>: the process panics at boot.\<close>

definition MustGet :: "environment \<Rightarrow> string \<Rightarrow> string option" where
  "MustGet env key = (if env key = [] then None else Some (env key))"

section \<open>Connecting\<close>

record 'p dbx_Pool =
  dbx_pool :: "'p option"
  dbx_ready :: bool

text \<open>One turn of the loop: the context is cancelled, \<open>pgxpool.New\<close> or the ping fails, or the pool is up.\<close>

datatype 'p attempt = Cancelled | NewFails | PingFails | Connects 'p

text \<open>The goroutine of \<open>ConnectAsync\<close>, with fuel; also the time it slept. It ends when it returns.\<close>

fun ConnectAsync :: "nat \<Rightarrow> (nat \<Rightarrow> 'p attempt) \<Rightarrow> nat \<Rightarrow> 'p dbx_Pool \<Rightarrow> ('p dbx_Pool \<times> time) option" where
  "ConnectAsync 0 att i p = None"
| "ConnectAsync (Suc fuel) att i p =
     (case att i of
        Cancelled \<Rightarrow> Some (p, 0)
      | Connects q \<Rightarrow> Some (p\<lparr>dbx_pool := Some q, dbx_ready := True\<rparr>, 0)
      | _ \<Rightarrow> map_option (\<lambda>(p', slept). (p', slept + 2000000000)) (ConnectAsync fuel att (Suc i) p))"

definition new_Pool :: "'p dbx_Pool" where
  "new_Pool = \<lparr>dbx_pool = None, dbx_ready = False\<rparr>"

definition dbx_Ready :: "'p dbx_Pool \<Rightarrow> bool" where
  "dbx_Ready p = dbx_ready p"

definition dbx_Get :: "'p dbx_Pool \<Rightarrow> 'p option" where
  "dbx_Get p = dbx_pool p"

text \<open>
  The two stores at the end of the loop, as a reader in another goroutine can see them: the pool is
  published before the flag.
\<close>

inductive connect_step :: "'p dbx_Pool \<Rightarrow> 'p dbx_Pool \<Rightarrow> bool" where
  store_pool: "connect_step p (p\<lparr>dbx_pool := Some q\<rparr>)"
| store_ready: "dbx_pool p = Some q \<Longrightarrow> connect_step p (p\<lparr>dbx_ready := True\<rparr>)"

section \<open>Serving and background jobs\<close>

text \<open>How \<open>ListenAndServe\<close>'s \<open>select\<close> ends: the server stopped, or a signal and the outcome of \<open>Shutdown\<close>.\<close>

datatype serve_end = Served go_error | Signalled "go_error option"

definition ErrServerClosed :: go_error where
  "ErrServerClosed = Sentinel ''http: Server closed''"

definition ListenAndServe :: "serve_end \<Rightarrow> go_error option" where
  "ListenAndServe ev = (case ev of
     Served e \<Rightarrow> if errors_Is e ErrServerClosed then None else Some e
   | Signalled outcome \<Rightarrow> outcome)"

text \<open>
  The ticker loop of a background job; a tick carries what the job meets at that time.
  \<open>time.NewTicker\<close> panics on an interval that is not positive: \<open>None\<close>.
\<close>

datatype 'e tick = Tick 'e | Done

fun run_ticks :: "'e tick list \<Rightarrow> ('e \<Rightarrow> 's \<Rightarrow> 's) \<Rightarrow> 's \<Rightarrow> 's" where
  "run_ticks [] f s = s"
| "run_ticks (Done # es) f s = s"
| "run_ticks (Tick e # es) f s = run_ticks es f (f e s)"

definition runLoop :: "time \<Rightarrow> 'e tick list \<Rightarrow> ('e \<Rightarrow> 's \<Rightarrow> 's) \<Rightarrow> 's \<Rightarrow> 's option" where
  "runLoop interval es f s = (if interval \<le> 0 then None else Some (run_ticks es f s))"

text \<open>\<open>time.Duration(n) * time.Second\<close> wraps at 64 bits.\<close>

definition seconds :: "int \<Rightarrow> time" where
  "seconds n = sint (word_of_int (n * 1000000000) :: i64)"

section \<open>Lemmas\<close>

lemma ConnectAsync_shift:
  assumes "\<And>j. j < k \<Longrightarrow> att (i + j) \<in> {NewFails, PingFails}" and "att (i + k) = Connects q" and "k < fuel"
  shows "ConnectAsync fuel att i p = Some (p\<lparr>dbx_pool := Some q, dbx_ready := True\<rparr>, 2000000000 * int k)"
  using assms
proof (induction k arbitrary: i fuel)
  case 0
  then show ?case by (cases fuel) simp_all
next
  case (Suc k)
  obtain fuel' where f: "fuel = Suc fuel'" "k < fuel'" using Suc.prems(3) by (cases fuel) auto
  have "att (Suc i + j) \<in> {NewFails, PingFails}" if "j < k" for j using Suc.prems(1) [of "Suc j"] that by simp
  moreover have "att (Suc i + k) = Connects q" using Suc.prems(2) by simp
  ultimately have "ConnectAsync fuel' att (Suc i) p = Some (p\<lparr>dbx_pool := Some q, dbx_ready := True\<rparr>, 2000000000 * int k)"
    using Suc.IH f(2) by blast
  then show ?case using Suc.prems(1) [of 0] f(1) by auto
qed

lemma ConnectAsync_ends: "ConnectAsync fuel att i p = Some (p', t) \<Longrightarrow>
    p' = p \<or> (\<exists>q. p' = p\<lparr>dbx_pool := Some q, dbx_ready := True\<rparr>)"
  by (induction fuel att i p arbitrary: p' t rule: ConnectAsync.induct) (auto split: attempt.splits)

lemma connect_reader: "connect_step\<^sup>*\<^sup>* new_Pool p \<Longrightarrow> dbx_Ready p \<Longrightarrow> dbx_Get p \<noteq> None"
  by (induction rule: rtranclp_induct) (auto simp: new_Pool_def dbx_Ready_def dbx_Get_def elim!: connect_step.cases)

lemma GetInt_written: "- (2 ^ 63) \<le> n \<Longrightarrow> n < 2 ^ 63 \<Longrightarrow> envx_GetInt (env(key := bigint_String n)) key fallback = n"
  by (simp add: envx_GetInt_def Atoi_def Let_def bigint_String_def [of n] string_of_nat_nonempty
      SetString_String [of n, unfolded bigint_String_def])

lemma run_ticks_map: "run_ticks (map Tick xs @ es) f s = run_ticks es f (fold f xs s)"
  by (induction xs arbitrary: s) simp_all

lemma seconds_exact: "\<bar>n\<bar> \<le> 9223372036 \<Longrightarrow> seconds n = n * 1000000000"
  unfolding seconds_def sint_word_of_int_64 by simp

section \<open>Properties\<close>

text \<open>
  The database comes up: when the first \<open>k\<close> attempts to connect fail and the next succeeds, the
  connect loop of \<open>dbx\<close> ends with the pool published and ready, after \<open>2k\<close> seconds of waiting; however
  it ends, and at every moment another goroutine looks, a pool that is reported ready is there, so a
  request behind \<open>RequireReady\<close> never meets a missing pool.
\<close>

theorem ConnectAsync_ready:
  fixes q :: 'p
  assumes "\<And>j. j < k \<Longrightarrow> att j \<in> {NewFails, PingFails}" and "att k = Connects q" and "k < fuel"
  shows "ConnectAsync fuel att 0 new_Pool = Some (\<lparr>dbx_pool = Some q, dbx_ready = True\<rparr>, 2000000000 * int k) \<and>
    (\<forall>fuel att p t. ConnectAsync fuel att 0 (new_Pool :: 'p dbx_Pool) = Some (p, t) \<longrightarrow> (dbx_Ready p \<longleftrightarrow> dbx_Get p \<noteq> None)) \<and>
    (\<forall>p. connect_step\<^sup>*\<^sup>* (new_Pool :: 'p dbx_Pool) p \<longrightarrow> dbx_Ready p \<longrightarrow> dbx_Get p \<noteq> None)"
proof -
  have "ConnectAsync fuel att 0 new_Pool = Some (\<lparr>dbx_pool = Some q, dbx_ready = True\<rparr>, 2000000000 * int k)"
    using ConnectAsync_shift [of k att 0 q fuel new_Pool] assms by (simp add: new_Pool_def)
  moreover have "dbx_Ready p \<longleftrightarrow> dbx_Get p \<noteq> None" if "ConnectAsync fuel att 0 new_Pool = Some (p, t)" for fuel att and p :: "'p dbx_Pool" and t
    using ConnectAsync_ends [OF that] by (auto simp: new_Pool_def dbx_Ready_def dbx_Get_def)
  ultimately show ?thesis using connect_reader by blast
qed

theorem ConnectAsync_ready_witness:
  "ConnectAsync 9 (\<lambda>i. if i = 0 then NewFails else if i = 1 then PingFails else Connects ''pool'') 0 new_Pool =
     Some (\<lparr>dbx_pool = Some ''pool'', dbx_ready = True\<rparr>, 4000000000)"
proof -
  let ?att = "\<lambda>i :: nat. if i = 0 then NewFails else if i = 1 then PingFails else Connects ''pool''"
  have "?att j \<in> {NewFails, PingFails}" if "j < 2" for j using that by (cases j) auto
  from ConnectAsync_ready [of 2 ?att "''pool''" 9, OF this] show ?thesis by simp
qed

text \<open>
  Numbers from the environment: \<open>envx.GetInt\<close> returns exactly the number that was written, for every
  64-bit integer, and falls back on an unset variable and on every text that is not such a number.
\<close>

theorem GetInt_reads:
  "(\<forall>n. - (2 ^ 63) \<le> n \<and> n < 2 ^ 63 \<longrightarrow> envx_GetInt (env(key := bigint_String n)) key fallback = n) \<and>
   (\<forall>v. Atoi v = None \<longrightarrow> envx_GetInt (env(key := v)) key fallback = fallback) \<and>
   (- (2 ^ 63) \<le> fallback \<and> fallback < 2 ^ 63 \<longrightarrow>
      - (2 ^ 63) \<le> envx_GetInt env key fallback \<and> envx_GetInt env key fallback < 2 ^ 63)"
proof (intro conjI allI impI)
  show "envx_GetInt (env(key := bigint_String n)) key fallback = n" if "- (2 ^ 63) \<le> n \<and> n < 2 ^ 63" for n
    using that by (simp add: GetInt_written)
  show "envx_GetInt (env(key := v)) key fallback = fallback" if "Atoi v = None" for v
    using that by (simp add: envx_GetInt_def Let_def)
qed (auto simp: envx_GetInt_def Atoi_def Let_def split: option.splits if_splits)

theorem GetInt_reads_witness:
  "envx_GetInt (\<lambda>k. if k = ''D'' then ''7'' else []) ''D'' 3 = 7 \<and> envx_GetInt ((\<lambda>_. [])(''D'' := ''7x'')) ''D'' 3 = 3"
proof -
  have s: "bigint_String 7 = ''7''" by code_simp
  have e: "(\<lambda>k. if k = ''D'' then ''7'' else []) = (\<lambda>_. [])(''D'' := ''7'')" by auto
  have "Atoi ''7x'' = None" by code_simp
  then have "envx_GetInt ((\<lambda>_. [])(''D'' := ''7x'')) ''D'' 3 = 3" using GetInt_reads [of "\<lambda>_. []" "''D''" 3] by blast
  moreover have "- (2 ^ 63) \<le> (7 :: int) \<and> (7 :: int) < 2 ^ 63" by simp
  then have "envx_GetInt ((\<lambda>_. [])(''D'' := bigint_String 7)) ''D'' 3 = 7" using GetInt_reads [of "\<lambda>_. []" "''D''" 3] by blast
  ultimately show ?thesis unfolding e s by blast
qed

end
