(* ===== verification/Reaper.thy ===== *)
theory Reaper
  imports TxFlight Boot
begin

text \<open>
  The reaper loop of \<open>backend/cmd/txsvc\<close>: on every tick it deletes the pending idempotency keys past
  their expiry. A tick carries the time of the process and the readiness of the pool.
\<close>

definition reapInterval :: "environment \<Rightarrow> time" where
  "reapInterval env = seconds (envx_GetInt env ''REAP_INTERVAL_SECONDS'' 300)"

definition reap_tick :: "ChainGateway \<Rightarrow> bool \<times> time \<Rightarrow> pay_db \<Rightarrow> pay_db" where
  "reap_tick g = (\<lambda>(ready, now) db. snd (ReapExpiredKeys \<lparr>tx_ready = ready, tx_pool_ready = ready, tx_chain = g\<rparr> now db))"

definition reap_loop :: "ChainGateway \<Rightarrow> time \<Rightarrow> (bool \<times> time) tick list \<Rightarrow> pay_db \<Rightarrow> pay_db option" where
  "reap_loop g interval es db = runLoop interval es (reap_tick g) db"

section \<open>Lemmas\<close>

definition dead_key :: "time \<Rightarrow> idempotency_row \<Rightarrow> bool" where
  "dead_key now r \<longleftrightarrow> ik_status r = ''pending'' \<and> ik_expires_at r < pg_timestamp now"

lemma reap_tick_healthy:
  "faults db = [] \<Longrightarrow> reap_tick g (ready, now) db =
     (if ready then db\<lparr>idempotency_keys := filter (\<lambda>r. \<not> dead_key now r) (idempotency_keys db)\<rparr> else db)"
  by (simp add: reap_tick_def ReapExpiredKeys_def ReapExpiredPendingKeys_def exec_no_faults dead_key_def Let_def)

lemma reap_ticks_healthy:
  "faults db = [] \<Longrightarrow> fold (reap_tick g) ts db =
     db\<lparr>idempotency_keys := filter (\<lambda>r. \<forall>t\<in>set ts. fst t \<longrightarrow> \<not> dead_key (snd t) r) (idempotency_keys db)\<rparr>"
proof (induction ts arbitrary: db)
  case (Cons t ts)
  have tick: "reap_tick g t db = db\<lparr>idempotency_keys := filter (\<lambda>r. fst t \<longrightarrow> \<not> dead_key (snd t) r) (idempotency_keys db)\<rparr>"
    using reap_tick_healthy [OF Cons.prems, of g "fst t" "snd t"] by simp
  show ?case using Cons.prems by (simp add: tick Cons.IH conj_commute)
qed simp

section \<open>Properties\<close>

text \<open>
  C18. A stuck submission recovers: while the key of a submission that never finished is pending, every
  retry under it is refused without effect. Once the loop of the process has ticked with the pool up and
  the key past its expiry, however often it ticked before and after, a retry reaches the network and
  gets its answer; keys with a stored response are all still there.
\<close>

theorem reaper_unblocks:
  assumes "faults db = []" and "tx_ready s" and "length (req_StellarAddress req) \<le> 56" and "0 < interval"
    and "row \<in> set (idempotency_keys db)" and "distinct (map ik_key (idempotency_keys db))"
    and "ik_key row = req_IdempotencyKey req" and "ik_status row = ''pending''"
    and "(True, now) \<in> set ticks" and "ik_expires_at row < pg_timestamp now"
  shows "Submit s req db = (Inl errKeyInFlight, db) \<and>
    (\<exists>db'. reap_loop (tx_chain s) interval (map Tick ticks) db = Some db' \<and>
       fst (Submit s req db') = answer (submitSend (tx_chain s) req) \<and>
       (\<forall>r\<in>set (idempotency_keys db). ik_status r = ''done'' \<longrightarrow> r \<in> set (idempotency_keys db')))"
proof -
  let ?k = "req_IdempotencyKey req"
  have only: "r = row" if "r \<in> set (idempotency_keys db)" "ik_key r = ?k" for r
    by (rule inj_onD [of ik_key "set (idempotency_keys db)"]) (use that assms(5-7) in \<open>simp_all add: distinct_map\<close>)
  have "find (\<lambda>r. ik_key r = ?k) (idempotency_keys db) = Some row"
  proof (cases "find (\<lambda>r. ik_key r = ?k) (idempotency_keys db)")
    case (Some r)
    then have "r \<in> set (idempotency_keys db)" "ik_key r = ?k" by (auto simp: find_Some_iff)
    then show ?thesis using only Some by blast
  qed (use assms(5,7) in \<open>auto simp: find_None_iff\<close>)
  from Submit_known [OF assms(2,1,3) this] have refused: "Submit s req db = (Inl errKeyInFlight, db)"
    using assms(8) by simp
  let ?P = "\<lambda>r. \<forall>t\<in>set ticks. fst t \<longrightarrow> \<not> dead_key (snd t) r"
  let ?db' = "db\<lparr>idempotency_keys := filter ?P (idempotency_keys db)\<rparr>"
  note P = reap_ticks_healthy [OF assms(1), of "tx_chain s" ticks]
  have "\<not> ?P row" using assms(8,10) by (auto simp: dead_key_def intro!: bexI [OF _ assms(9)])
  then have "find (\<lambda>r. ik_key r = ?k) (idempotency_keys ?db') = None"
    using only by (auto simp: find_None_iff)
  from Submit_fresh [OF assms(2) _ assms(3) this] have "fst (Submit s req ?db') = answer (submitSend (tx_chain s) req)"
    using assms(1) by (simp add: Let_def)
  moreover have "reap_loop (tx_chain s) interval (map Tick ticks) db = Some ?db'"
    using assms(4) run_ticks_map [of ticks "[]" "reap_tick (tx_chain s)" db] by (simp add: reap_loop_def runLoop_def P)
  moreover have "\<forall>r\<in>set (idempotency_keys db). ik_status r = ''done'' \<longrightarrow> r \<in> set (idempotency_keys ?db')"
    by (auto simp: dead_key_def)
  ultimately show ?thesis using refused by blast
qed

definition ex_stuck_row :: idempotency_row where
  "ex_stuck_row = \<lparr>ik_key = ''k1'', ik_stellar_address = ''GA'', ik_request_hash = ''cheque.lock'', ik_response_json = None,
     ik_status = ''pending'', ik_expires_at = 5\<rparr>"

theorem reaper_unblocks_witness:
  "\<exists>db'. reap_loop (tx_chain (ex_tx (Inr ex_result))) (reapInterval (\<lambda>_. [])) [Tick (False, 9000), Tick (True, 9000)]
       (ex_db0\<lparr>idempotency_keys := [ex_stuck_row]\<rparr>) = Some db' \<and>
     fst (Submit (ex_tx (Inr ex_result)) ex_req db') = Inr ex_resp"
proof -
  let ?db = "ex_db0\<lparr>idempotency_keys := [ex_stuck_row]\<rparr>" and ?s = "ex_tx (Inr ex_result)"
  have a: "answer (submitSend (tx_chain ?s) ex_req) = Inr ex_resp" by code_simp
  have i: "0 < reapInterval (\<lambda>_. [])" by (simp add: reapInterval_def envx_GetInt_def seconds_exact)
  have e: "ik_expires_at ex_stuck_row < pg_timestamp 9000" by code_simp
  have row: "faults ?db = []" "tx_ready ?s" "length (req_StellarAddress ex_req) \<le> 56" "ex_stuck_row \<in> set (idempotency_keys ?db)"
    "distinct (map ik_key (idempotency_keys ?db))" "ik_key ex_stuck_row = req_IdempotencyKey ex_req" "ik_status ex_stuck_row = ''pending''"
    by (simp_all add: ex_stuck_row_def ex_req_def ex_db0_def ex_tx_def)
  have t: "(True, 9000) \<in> set [(False, 9000), (True, 9000 :: time)]" by simp
  from reaper_unblocks [OF row(1-3) i row(4-7) t e]
  obtain db' where "reap_loop (tx_chain ?s) (reapInterval (\<lambda>_. [])) (map Tick [(False, 9000), (True, 9000)]) ?db = Some db'"
      "fst (Submit ?s ex_req db') = Inr ex_resp" unfolding a by blast
  then show ?thesis by auto
qed

end
