(* ===== verification/AuthService.thy ===== *)
theory AuthService
  imports Http ChequeLedger
begin

text \<open>
  \<open>backend/services/auth\<close>: SEP-10 login, token minting, refresh and the friendbot fund
  (service.go, repository.go, handler.go, endpoint.go, the router of \<open>cmd/authsvc\<close>). The SEP-10
  functions of the Stellar SDK and the JWT library are parameters; what the round trip of tokens
  needs of the JWT library is stated as the predicate \<open>jwt_library\<close>.
\<close>

section \<open>Configuration\<close>

record 'tx sep10 =
  BuildChallengeTx :: "string \<Rightarrow> string \<Rightarrow> string \<Rightarrow> string \<Rightarrow> string \<Rightarrow> time \<Rightarrow> 'tx res"
  ReadChallengeTx :: "string \<Rightarrow> string \<Rightarrow> string \<Rightarrow> string \<Rightarrow> string list \<Rightarrow> string res"
  VerifyChallengeTxSigners :: "string \<Rightarrow> string \<Rightarrow> string \<Rightarrow> string \<Rightarrow> string list \<Rightarrow> string list \<Rightarrow> string list res"

record ('priv, 'pub) auth_Config =
  ServerSigningSeed :: string
  HomeDomain :: string
  WebAuthDomain :: string
  auth_NetworkPassphrase :: string
  JWTPrivateKey :: 'priv
  JWTPublicKey :: 'pub
  FundNewAccounts :: bool

record ('tx, 'priv, 'pub) auth_Service =
  auth_cfg :: "('priv, 'pub) auth_Config"
  auth_ready :: bool \<comment> \<open>\<open>pool.Get()\<close> has a pool\<close>
  auth_pool_ready :: bool \<comment> \<open>\<open>pool.Ready()\<close>\<close>
  auth_chain :: "ChainGateway option"
  auth_sdk :: "'tx sdk"
  auth_sep10 :: "'tx sep10"
  jwt_sign :: "'priv \<Rightarrow> Claims \<Rightarrow> string res" \<comment> \<open>\<open>NewWithClaims(RS256, c).SignedString(key)\<close>\<close>
  jwt_parse :: "time \<Rightarrow> 'pub jwt_parser" \<comment> \<open>\<open>ParseWithClaims\<close> at a time\<close>

record User =
  user_ID :: int
  user_StellarAddress :: string
  user_DisplayName :: string
  user_CreatedAt :: time

record TokenPair =
  AccessToken :: string
  RefreshToken :: string
  ExpiresIn :: int

definition AuthErrDBNotReady :: go_error where "AuthErrDBNotReady = Sentinel ''auth.db_not_ready''"
definition errInvalidChallenge :: go_error where "errInvalidChallenge = Sentinel ''auth.invalid_challenge''"
definition errInvalidSignature :: go_error where "errInvalidSignature = Sentinel ''auth.invalid_signature''"
definition errInvalidToken :: go_error where "errInvalidToken = Sentinel ''auth.invalid_token''"

definition challengeTimebound :: time where "challengeTimebound = 5 * 60 * 1000000000"
definition accessTokenTTL :: time where "accessTokenTTL = 15 * 60 * 1000000000"
definition refreshTokenTTL :: time where "refreshTokenTTL = 30 * 24 * 3600 * 1000000000"

section \<open>Repository\<close>

definition scan_user :: "user_row \<Rightarrow> User" where
  "scan_user r = \<lparr>user_ID = us_id r, user_StellarAddress = us_stellar_address r,
     user_DisplayName = coalesce_empty (us_display_name r), user_CreatedAt = us_created_at r\<rparr>"

text \<open>\<open>nextval\<close> is the value the id sequence of the table yields.\<close>

definition upsert_user :: "string \<Rightarrow> int \<Rightarrow> user_row stmt" where
  "upsert_user address nextval db =
     (if length address > 56 then Inl (PgError ''22001'' [])
      else (case find (\<lambda>r. us_stellar_address r = address) (users db) of
              Some r \<Rightarrow> Inr (r, db)
            | None \<Rightarrow>
                (let row = \<lparr>us_id = nextval, us_stellar_address = address, us_display_name = None,
                            us_created_at = db_clock db\<rparr>
                 in Inr (row, db\<lparr>users := users db @ [row]\<rparr>))))"

definition UpsertUser :: "string \<Rightarrow> int \<Rightarrow> pay_db \<Rightarrow> User res \<times> pay_db" where
  "UpsertUser address nextval db =
     (case exec (upsert_user address nextval) db of
        (Inl e, db1) \<Rightarrow> (Inl (pgErr e), db1)
      | (Inr r, db1) \<Rightarrow> (Inr (scan_user r), db1))"

definition GetUserByAddress :: "string \<Rightarrow> pay_db \<Rightarrow> User res \<times> pay_db" where
  "GetUserByAddress address db =
     (case exec (\<lambda>db. Inr (find (\<lambda>r. us_stellar_address r = address) (users db), db)) db of
        (Inl e, db1) \<Rightarrow> (Inl (pgErr e), db1)
      | (Inr None, db1) \<Rightarrow> (Inl (Opaque ''no rows in result set''), db1)
      | (Inr (Some r), db1) \<Rightarrow> (Inr (scan_user r), db1))"

section \<open>Service\<close>

definition Challenge :: "('tx, 'priv, 'pub) auth_Service \<Rightarrow> string \<Rightarrow> string res" where
  "Challenge s acct =
     (case BuildChallengeTx (auth_sep10 s) (ServerSigningSeed (auth_cfg s)) acct (WebAuthDomain (auth_cfg s))
             (HomeDomain (auth_cfg s)) (auth_NetworkPassphrase (auth_cfg s)) challengeTimebound of
        Inl e \<Rightarrow> Inl (Wrap ''auth: build challenge'' e)
      | Inr tx \<Rightarrow> tx_Base64 (auth_sdk s) tx)"

text \<open>The claims of a token minted at a time; \<open>NewNumericDate\<close> keeps whole seconds.\<close>

definition token_claims :: "('tx, 'priv, 'pub) auth_Service \<Rightarrow> string \<Rightarrow> time \<Rightarrow> string \<Rightarrow> time \<Rightarrow> Claims" where
  "token_claims s subject ttl acct now =
     \<lparr>claims_Subject = subject, claims_StellarAccount = acct, claims_Issuer = ''pay-auth-service'',
      claims_Audience = [WebAuthDomain (auth_cfg s)], claims_ExpiresAt = Some (time_Unix (now + ttl)),
      claims_IssuedAt = Some (time_Unix now)\<rparr>"

definition mintPair :: "('tx, 'priv, 'pub) auth_Service \<Rightarrow> time \<Rightarrow> string \<Rightarrow> TokenPair res" where
  "mintPair s now stellarAccount =
     (let access = token_claims s ''access'' accessTokenTTL stellarAccount now;
          refresh = token_claims s ''refresh'' refreshTokenTTL stellarAccount now in
      case jwt_sign s (JWTPrivateKey (auth_cfg s)) access of
        Inl e \<Rightarrow> Inl (Wrap ''auth: sign access token'' e)
      | Inr accessTok \<Rightarrow>
     (case jwt_sign s (JWTPrivateKey (auth_cfg s)) refresh of
        Inl e \<Rightarrow> Inl (Wrap ''auth: sign refresh token'' e)
      | Inr refreshTok \<Rightarrow>
          Inr \<lparr>AccessToken = accessTok, RefreshToken = refreshTok, ExpiresIn = accessTokenTTL div 1000000000\<rparr>))"

definition fundIfNeeded :: "('tx, 'priv, 'pub) auth_Service \<Rightarrow> string \<Rightarrow> pay_db \<Rightarrow> pay_db" where
  "fundIfNeeded s address db =
     (case auth_chain s of
        None \<Rightarrow> db
      | Some g \<Rightarrow>
          if \<not> FundNewAccounts (auth_cfg s) then db
          else (case GetAccount g address of
                  Inl _ \<Rightarrow> db
                | Inr info \<Rightarrow>
                    if acc_Exists info then db
                    else (case Fund g address of
                            Inl _ \<Rightarrow> db
                          | Inr _ \<Rightarrow> snd (InsertAudit address ''auth.account_funded'' [] db))))"

definition VerifyAndMint ::
  "('tx, 'priv, 'pub) auth_Service \<Rightarrow> time \<Rightarrow> int \<Rightarrow> string \<Rightarrow> pay_db \<Rightarrow> (TokenPair \<times> User) res \<times> pay_db" where
  "VerifyAndMint s now nextval signedChallengeXDR db =
     (let c = auth_cfg s in
      case keypair_ParseFull (auth_sdk s) (ServerSigningSeed c) of
        Inl e \<Rightarrow> (Inl (Wrap ''auth: server keypair'' e), db)
      | Inr serverKP \<Rightarrow>
     (case ReadChallengeTx (auth_sep10 s) signedChallengeXDR (kp_address serverKP) (auth_NetworkPassphrase c)
             (WebAuthDomain c) [HomeDomain c] of
        Inl e \<Rightarrow> (Inl (Annot errInvalidChallenge (err_text e)), db)
      | Inr clientAccountID \<Rightarrow>
     (case VerifyChallengeTxSigners (auth_sep10 s) signedChallengeXDR (kp_address serverKP) (auth_NetworkPassphrase c)
             (WebAuthDomain c) [HomeDomain c] [clientAccountID] of
        Inl e \<Rightarrow> (Inl (Annot errInvalidSignature (err_text e)), db)
      | Inr _ \<Rightarrow>
          if \<not> auth_ready s then (Inl AuthErrDBNotReady, db)
          else (case UpsertUser clientAccountID nextval db of
                  (Inl e, db1) \<Rightarrow> (Inl (Wrap ''auth: upsert user'' e), db1)
                | (Inr user, db1) \<Rightarrow>
                    (let db2 = fundIfNeeded s clientAccountID db1 in
                     case mintPair s now clientAccountID of
                       Inl e \<Rightarrow> (Inl e, db2)
                     | Inr pair \<Rightarrow>
                         (Inr (pair, user), snd (InsertAudit clientAccountID ''auth.login_succeeded'' [] db2)))))))"

definition FundOwnAccount :: "('tx, 'priv, 'pub) auth_Service \<Rightarrow> string \<Rightarrow> bool" where
  "FundOwnAccount s address =
     (case auth_chain s of
        None \<Rightarrow> False
      | Some g \<Rightarrow>
          if \<not> FundNewAccounts (auth_cfg s) then False
          else (case Fund g address of Inl _ \<Rightarrow> False | Inr _ \<Rightarrow> True))"

text \<open>The token is verified at one time, the new pair minted at a later one.\<close>

definition Refresh :: "('tx, 'priv, 'pub) auth_Service \<Rightarrow> time \<Rightarrow> time \<Rightarrow> string \<Rightarrow> TokenPair res" where
  "Refresh s verified minted refreshToken =
     (case VerifyJWT (jwt_parse s verified) refreshToken (JWTPublicKey (auth_cfg s)) [] of
        Inl _ \<Rightarrow> Inl errInvalidToken
      | Inr claims \<Rightarrow>
          if claims_Subject claims \<noteq> ''refresh'' then Inl errInvalidToken
          else mintPair s minted (claims_StellarAccount claims))"

definition GetProfile :: "('tx, 'priv, 'pub) auth_Service \<Rightarrow> string \<Rightarrow> pay_db \<Rightarrow> User res \<times> pay_db" where
  "GetProfile s address db = (if \<not> auth_ready s then (Inl AuthErrDBNotReady, db) else GetUserByAddress address db)"

section \<open>Handlers and routes\<close>

datatype auth_payload =
    AChallenge string string
  | AToken TokenPair
  | AUser User
  | AFlag string bool
  | AHealth bool

definition tokenField :: "string \<Rightarrow> string fields" where
  "tokenField name = [(name, put_string (\<lambda>x _. x))]"

definition h_Challenge :: "('tx, 'priv, 'pub) auth_Service \<Rightarrow> (pay_db, auth_payload) handler" where
  "h_Challenge s r db =
     (let acct = req_Query r ''account'' in
      if \<not> IsValidAccountAddress (auth_sdk s) acct
      then (WriteError 400 ''auth.bad_request'' ''account query param must be a valid G... address'', db)
      else (case Challenge s acct of
              Inl e \<Rightarrow> (WriteError 500 ''auth.bad_request'' (err_text e), db)
            | Inr xdrStr \<Rightarrow> (WriteData 200 (AChallenge xdrStr (auth_NetworkPassphrase (auth_cfg s))), db)))"

definition h_Token :: "('tx, 'priv, 'pub) auth_Service \<Rightarrow> time \<Rightarrow> int \<Rightarrow> (pay_db, auth_payload) handler" where
  "h_Token s now nextval r db =
     (case Decode (tokenField ''transaction'') (req_Body r) [] of
        (Some _, _) \<Rightarrow> (WriteError 400 ''auth.bad_request'' ''transaction (signed challenge XDR) is required'', db)
      | (None, transaction) \<Rightarrow>
          if transaction = []
          then (WriteError 400 ''auth.bad_request'' ''transaction (signed challenge XDR) is required'', db)
          else (case VerifyAndMint s now nextval transaction db of
                  (Inl e, db1) \<Rightarrow>
                    if errors_Is e errInvalidChallenge \<or> errors_Is e errInvalidSignature
                    then (WriteError 401 ''auth.invalid_signature'' ''challenge verification failed'', db1)
                    else (WriteError 500 ''auth.internal_error'' ''authentication service unavailable'', db1)
                | (Inr (pair, _), db1) \<Rightarrow> (WriteData 200 (AToken pair), db1)))"

definition h_Refresh :: "('tx, 'priv, 'pub) auth_Service \<Rightarrow> time \<Rightarrow> time \<Rightarrow> (pay_db, auth_payload) handler" where
  "h_Refresh s verified minted r db =
     (case Decode (tokenField ''refreshToken'') (req_Body r) [] of
        (Some _, _) \<Rightarrow> (WriteError 400 ''auth.bad_request'' ''refreshToken is required'', db)
      | (None, refreshToken) \<Rightarrow>
          if refreshToken = [] then (WriteError 400 ''auth.bad_request'' ''refreshToken is required'', db)
          else (case Refresh s verified minted refreshToken of
                  Inl _ \<Rightarrow> (WriteError 401 ''auth.invalid_token'' ''refresh token invalid or expired'', db)
                | Inr pair \<Rightarrow> (WriteData 200 (AToken pair), db)))"

definition h_Me :: "('tx, 'priv, 'pub) auth_Service \<Rightarrow> (pay_db, auth_payload) handler" where
  "h_Me s r db =
     (case ClaimsFromContext r of
        None \<Rightarrow> (WriteError 401 ''auth.invalid_token'' ''missing bearer claims'', db)
      | Some claims \<Rightarrow>
          (case GetProfile s (claims_StellarAccount claims) db of
             (Inl _, db1) \<Rightarrow> (WriteError 404 ''auth.user_not_found'' ''no profile for this account yet'', db1)
           | (Inr user, db1) \<Rightarrow> (WriteData 200 (AUser user), db1)))"

definition h_Fund :: "('tx, 'priv, 'pub) auth_Service \<Rightarrow> (pay_db, auth_payload) handler" where
  "h_Fund s r db =
     (case ClaimsFromContext r of
        None \<Rightarrow> (WriteError 401 ''auth.invalid_token'' ''missing bearer claims'', db)
      | Some claims \<Rightarrow> (WriteData 200 (AFlag ''funded'' (FundOwnAccount s (claims_StellarAccount claims))), db))"

record auth_moment =
  am_verified :: time
  am_minted :: time
  am_nextval :: int

definition auth_RegisterRoutes ::
  "('tx, 'priv, 'pub) auth_Service \<Rightarrow> auth_moment \<Rightarrow> (string \<times> segment list \<times> (pay_db, auth_payload) handler) list" where
  "auth_RegisterRoutes s am =
    [(''GET'', [Lit ''auth'', Lit ''challenge''], h_Challenge s),
     (''POST'', [Lit ''auth'', Lit ''token''], h_Token s (am_minted am) (am_nextval am)),
     (''POST'', [Lit ''auth'', Lit ''refresh''], h_Refresh s (am_verified am) (am_minted am))]"

definition RegisterProtectedRoutes ::
  "('tx, 'priv, 'pub) auth_Service \<Rightarrow> (string \<times> segment list \<times> (pay_db, auth_payload) handler) list" where
  "RegisterProtectedRoutes s =
    [(''GET'', [Lit ''auth'', Lit ''me''], h_Me s), (''POST'', [Lit ''auth'', Lit ''fund''], h_Fund s)]"

definition ProtectedPaths :: "string list list" where
  "ProtectedPaths = [[''auth'', ''me''], [''auth'', ''fund'']]"

text \<open>
  The router of the process: the subtree \<open>/auth/\<close> behind the readiness check, the protected paths
  (for every method) behind the bearer check, the public routes besides.
\<close>

definition authsvc :: "('tx, 'priv, 'pub) auth_Service \<Rightarrow> auth_moment \<Rightarrow> (pay_db, auth_payload) handler" where
  "authsvc s am r db =
     (if req_Path r = [''health''] \<and> method_matches ''GET'' (req_Method r)
      then HealthHandler AHealth (auth_pool_ready s) r db
      else if req_Path r = [''auth''] then (Response 307 NoBody, db)
      else if take 1 (req_Path r) \<noteq> [''auth'']
      then (Response (if req_Path r = [''health''] then 405 else 404) NoBody, db)
      else RequireReady (auth_pool_ready s) ''auth.db_not_ready''
        (\<lambda>r. if req_Path r \<in> set ProtectedPaths
             then RequireBearer (jwt_parse s (am_verified am)) (JWTPublicKey (auth_cfg s)) (WebAuthDomain (auth_cfg s))
                    (WriteError 401 ''auth.invalid_token'' ''missing or invalid bearer token'')
                    (ServeMux (RegisterProtectedRoutes s) False) r
             else ServeMux (auth_RegisterRoutes s am) False r) r db)"

definition TestNetworkPassphrase :: string where
  "TestNetworkPassphrase = ''Test SDF Network ; September 2015''"

text \<open>\<open>strconv.ParseBool\<close>.\<close>

definition ParseBool :: "string \<Rightarrow> bool option" where
  "ParseBool s =
     (if s \<in> set [''1'', ''t'', ''T'', ''TRUE'', ''true'', ''True''] then Some True
      else if s \<in> set [''0'', ''f'', ''F'', ''FALSE'', ''false'', ''False''] then Some False else None)"

definition shouldFundNewAccounts :: "string \<Rightarrow> string \<Rightarrow> bool" where
  "shouldFundNewAccounts env networkPassphrase =
     (case (if env = [] then None else ParseBool env) of
        Some b \<Rightarrow> b | None \<Rightarrow> networkPassphrase = TestNetworkPassphrase)"

end
