(* ===== verification/AuthProps.thy ===== *)
theory AuthProps
  imports AuthService
begin

text \<open>
  What authentication guarantees: tokens are only minted for the account that signed the
  challenge, access and refresh tokens are never interchangeable, the friendbot fund never
  touches the outcome of a login, and a profile is only shown to its owner.
\<close>

section \<open>The JWT library\<close>

text \<open>
  Documented behaviour of \<open>golang-jwt\<close> for tokens it signed itself with RS256: parsing with the
  matching public key gives the claims back while the token has not expired and its audience
  contains the required one, and an error otherwise.
\<close>

definition jwt_library :: "(time \<Rightarrow> 'pub jwt_parser) \<Rightarrow> ('priv \<Rightarrow> Claims \<Rightarrow> string res) \<Rightarrow> 'priv \<Rightarrow> 'pub \<Rightarrow> bool" where
  "jwt_library parse sign priv pub \<longleftrightarrow>
     (\<forall>now c tok aud kf. sign priv c = Inr tok \<longrightarrow> kf (SigningMethodRSA ''RS256'') = Inr pub \<longrightarrow>
        (if (case claims_ExpiresAt c of None \<Rightarrow> True | Some e \<Rightarrow> now < e * 1000000000) \<and>
            (case aud of None \<Rightarrow> True | Some a \<Rightarrow> a \<in> set (claims_Audience c))
         then parse now [''RS256''] aud kf tok = Inr (c, True)
         else \<exists>e. parse now [''RS256''] aud kf tok = Inl e))"

definition unexpired :: "Claims \<Rightarrow> time \<Rightarrow> bool" where
  "unexpired c now \<longleftrightarrow> (case claims_ExpiresAt c of None \<Rightarrow> True | Some e \<Rightarrow> now < e * 1000000000)"

lemma VerifyJWT_signed:
  assumes "jwt_library parse sign priv pub" and "sign priv c = Inr tok" and "claims_StellarAccount c \<noteq> []"
  shows "VerifyJWT (parse now) tok pub aud =
    (if unexpired c now \<and> (aud = [] \<or> aud \<in> set (claims_Audience c)) then Inr c else Inl ErrInvalidToken)"
proof -
  let ?kf = "\<lambda>m. case m of SigningMethodRSA _ \<Rightarrow> Inr pub | SigningMethodOther _ \<Rightarrow> Inl ErrInvalidToken"
  let ?a = "if aud \<noteq> [] then Some aud else None"
  have "if unexpired c now \<and> (case ?a of None \<Rightarrow> True | Some a \<Rightarrow> a \<in> set (claims_Audience c))
      then parse now [''RS256''] ?a ?kf tok = Inr (c, True) else \<exists>e. parse now [''RS256''] ?a ?kf tok = Inl e"
    using assms(1,2) unfolding jwt_library_def unexpired_def by simp
  then show ?thesis
    using assms(3) by (cases "aud = []") (auto simp: VerifyJWT_def split: if_splits)
qed

lemma mintPair_Inr:
  assumes "mintPair s now acct = Inr pair"
  shows "jwt_sign s (JWTPrivateKey (auth_cfg s)) (token_claims s ''access'' accessTokenTTL acct now) = Inr (AccessToken pair)"
    and "jwt_sign s (JWTPrivateKey (auth_cfg s)) (token_claims s ''refresh'' refreshTokenTTL acct now) = Inr (RefreshToken pair)"
    and "ExpiresIn pair = 900"
  using assms by (auto simp: mintPair_def Let_def accessTokenTTL_def split: sum.splits)

section \<open>Login\<close>

lemma pure_upsert_user [pure_intros]: "pure_stmt (upsert_user a n)"
  by (auto simp: pure_stmt_def upsert_user_def Let_def split: option.splits)

lemma audit_users [simp]:
  "users (snd (InsertAudit a b c db)) = users db" "cheques (snd (InsertAudit a b c db)) = cheques db"
  "pool_deposits (snd (InsertAudit a b c db)) = pool_deposits db"
  "idempotency_keys (snd (InsertAudit a b c db)) = idempotency_keys db"
proof -
  let ?a = "\<lparr>actor = a, action = b, details = c\<rparr>"
  obtain u d where e: "exec (\<lambda>db. Inr ((), db\<lparr>audit_log := audit_log db @ [?a]\<rparr>)) db = (u, d)" by fastforce
  have "snd (InsertAudit a b c db) = d" by (cases u) (simp_all add: InsertAudit_def e)
  then show "users (snd (InsertAudit a b c db)) = users db" "cheques (snd (InsertAudit a b c db)) = cheques db"
    "pool_deposits (snd (InsertAudit a b c db)) = pool_deposits db"
    "idempotency_keys (snd (InsertAudit a b c db)) = idempotency_keys db"
    using exec_pure_cases [OF pure_audit e] by (auto dest: same_tables_proj)
qed

lemma fund_users [simp]:
  "users (fundIfNeeded s a db) = users db" "cheques (fundIfNeeded s a db) = cheques db"
  "pool_deposits (fundIfNeeded s a db) = pool_deposits db" "idempotency_keys (fundIfNeeded s a db) = idempotency_keys db"
  by (simp_all add: fundIfNeeded_def split: option.split sum.split)

definition same_but_users :: "pay_db \<Rightarrow> pay_db \<Rightarrow> bool" where
  "same_but_users db db' \<longleftrightarrow> cheques db' = cheques db \<and> pool_deposits db' = pool_deposits db \<and>
     idempotency_keys db' = idempotency_keys db \<and>
     (\<forall>a u. find (\<lambda>r. us_stellar_address r = a) (users db) = Some u \<longrightarrow>
        find (\<lambda>r. us_stellar_address r = a) (users db') = Some u)"

lemma UpsertUser_cases:
  assumes "UpsertUser acct n db = (r, db')"
  shows "same_but_users db db'"
    and "r = Inr user \<Longrightarrow> user_StellarAddress user = acct \<and>
      (\<exists>u. find (\<lambda>r. us_stellar_address r = acct) (users db') = Some u \<and> user = scan_user u)"
proof -
  obtain q d where e: "exec (upsert_user acct n) db = (q, d)" by fastforce
  have d: "db' = d" "r = Inr user \<Longrightarrow> \<exists>u. q = Inr u \<and> user = scan_user u"
    using assms by (auto simp: UpsertUser_def e split: sum.splits)
  have step: "same_but_users db d' \<and> find (\<lambda>r. us_stellar_address r = acct) (users d') = Some u \<and> us_stellar_address u = acct"
    if "upsert_user acct n db = Inr (u, d')" for u d'
    using that by (auto simp: upsert_user_def same_but_users_def Let_def find_append split: if_splits option.splits dest: find_SomeD)
  have "same_tables db d \<and> (\<exists>e. q = Inl e) \<or>
      (\<exists>u d'. upsert_user acct n db = Inr (u, d') \<and> same_tables d' d \<and> (q = Inr u \<or> q = Inl PgConn))"
    by (rule exec_pure_cases [OF pure_upsert_user e])
  then have "same_but_users db d \<and> (\<forall>u. q = Inr u \<longrightarrow>
      find (\<lambda>r. us_stellar_address r = acct) (users d) = Some u \<and> us_stellar_address u = acct)"
  proof
    assume "same_tables db d \<and> (\<exists>e. q = Inl e)"
    then show ?thesis by (auto simp: same_but_users_def dest: same_tables_proj)
  next
    assume "\<exists>u d'. upsert_user acct n db = Inr (u, d') \<and> same_tables d' d \<and> (q = Inr u \<or> q = Inl PgConn)"
    then obtain u d' where u: "upsert_user acct n db = Inr (u, d')" "same_tables d' d" "q = Inr u \<or> q = Inl PgConn" by blast
    from step [OF u(1)] same_tables_proj [OF u(2)] u(3) show ?thesis by (auto simp: same_but_users_def)
  qed
  then show "same_but_users db db'" "r = Inr user \<Longrightarrow> user_StellarAddress user = acct \<and>
      (\<exists>u. find (\<lambda>r. us_stellar_address r = acct) (users db') = Some u \<and> user = scan_user u)"
    using d by (auto simp: scan_user_def)
qed

text \<open>The challenge was signed by the account's own key, in the eyes of the SDK.\<close>

definition challenge_accepted :: "('tx, 'priv, 'pub) auth_Service \<Rightarrow> string \<Rightarrow> string \<Rightarrow> bool" where
  "challenge_accepted s xdr acct \<longleftrightarrow>
     (\<exists>kp signers. keypair_ParseFull (auth_sdk s) (ServerSigningSeed (auth_cfg s)) = Inr kp \<and>
        ReadChallengeTx (auth_sep10 s) xdr (kp_address kp) (auth_NetworkPassphrase (auth_cfg s))
          (WebAuthDomain (auth_cfg s)) [HomeDomain (auth_cfg s)] = Inr acct \<and>
        VerifyChallengeTxSigners (auth_sep10 s) xdr (kp_address kp) (auth_NetworkPassphrase (auth_cfg s))
          (WebAuthDomain (auth_cfg s)) [HomeDomain (auth_cfg s)] [acct] = Inr signers)"

lemma VerifyAndMint_accepted:
  assumes "challenge_accepted s xdr acct"
  shows "VerifyAndMint s now n xdr db =
    (if \<not> auth_ready s then (Inl AuthErrDBNotReady, db)
     else (case UpsertUser acct n db of
        (Inl e, db1) \<Rightarrow> (Inl (Wrap ''auth: upsert user'' e), db1)
      | (Inr user, db1) \<Rightarrow>
          (case mintPair s now acct of
             Inl e \<Rightarrow> (Inl e, fundIfNeeded s acct db1)
           | Inr pair \<Rightarrow> (Inr (pair, user), snd (InsertAudit acct ''auth.login_succeeded'' [] (fundIfNeeded s acct db1))))))"
  using assms by (auto simp: challenge_accepted_def VerifyAndMint_def Let_def split: prod.splits sum.splits)

lemma VerifyAndMint_refused:
  assumes "\<And>acct. \<not> challenge_accepted s xdr acct"
  shows "\<exists>e. VerifyAndMint s now n xdr db = (Inl e, db)"
  using assms by (auto simp: challenge_accepted_def VerifyAndMint_def Let_def split: sum.splits)

lemma mintPair_chain [simp]: "mintPair (s\<lparr>auth_chain := g\<rparr>) now acct = mintPair s now acct"
  by (simp add: mintPair_def token_claims_def split: sum.split)

lemma challenge_accepted_chain [simp]: "challenge_accepted (s\<lparr>auth_chain := g\<rparr>) xdr acct = challenge_accepted s xdr acct"
  by (simp add: challenge_accepted_def)

section \<open>Profiles\<close>

lemma GetUserByAddress_owner:
  assumes "GetUserByAddress acct db = (Inr user, db')"
  shows "user_StellarAddress user = acct"
proof -
  obtain q d where e: "exec (\<lambda>db. Inr (find (\<lambda>r. us_stellar_address r = acct) (users db), db)) db = (q, d)" by fastforce
  obtain row where "q = Inr (Some row)" "user = scan_user row"
    using assms by (auto simp: GetUserByAddress_def e split: sum.splits option.splits)
  moreover from exec_read_same(2) [OF e \<open>q = Inr (Some row)\<close>] obtain db1 :: pay_db
    where "Some row = find (\<lambda>r. us_stellar_address r = acct) (users db1)" by blast
  then have "us_stellar_address row = acct" using find_SomeD [OF sym] by fast
  ultimately show ?thesis by (simp add: scan_user_def)
qed

lemma h_Me_owner:
  assumes "h_Me s r db = (Response status (DataBody payload), db')" and "req_Claims r = Some claims"
  shows "\<exists>user. payload = AUser user \<and> user_StellarAddress user = claims_StellarAccount claims"
  using assms by (auto simp: h_Me_def ClaimsFromContext_def GetProfile_def WriteData_def WriteError_def
      split: sum.splits prod.splits if_splits dest: GetUserByAddress_owner)

lemma protected_routes_payload:
  assumes "ServeMux (RegisterProtectedRoutes s) b (r\<lparr>req_Claims := Some claims\<rparr>) db = (Response status (DataBody payload), db')"
  shows "(\<exists>user. payload = AUser user \<and> user_StellarAddress user = claims_StellarAccount claims) \<or>
    payload = AFlag ''funded'' (FundOwnAccount s (claims_StellarAccount claims))"
  using ServeMux_cases [OF assms]
  by (auto simp: RegisterProtectedRoutes_def ClaimsFromContext_def h_Fund_def WriteData_def dest: h_Me_owner)

lemma public_routes_payload:
  "h_Challenge s r db = (Response status (DataBody payload), db') \<Longrightarrow> \<exists>x p. payload = AChallenge x p"
  "h_Token s now n r db = (Response status (DataBody payload), db') \<Longrightarrow> \<exists>t. payload = AToken t"
  "h_Refresh s now m r db = (Response status (DataBody payload), db') \<Longrightarrow> \<exists>t. payload = AToken t"
  by (auto simp: h_Challenge_def h_Token_def h_Refresh_def WriteData_def WriteError_def Let_def
      split: sum.splits prod.splits if_splits option.splits)

section \<open>A concrete service\<close>

definition ex_sep10 :: "string sep10" where
  "ex_sep10 = \<lparr>BuildChallengeTx = (\<lambda>_ a _ _ _ _. Inr a), ReadChallengeTx = (\<lambda>x _ _ _ _. if x = ''bad'' then Inl (Opaque ''bad'') else Inr x),
     VerifyChallengeTxSigners = (\<lambda>x _ _ _ _ s. Inr s)\<rparr>"

text \<open>Tokens of the example library: the subject's first letter in front of the account.\<close>

definition ex_sign :: "string \<Rightarrow> Claims \<Rightarrow> string res" where
  "ex_sign priv c = (if claims_Subject c = ''access'' \<and> c = ex_claims ''access'' (claims_StellarAccount c)
     then Inr (CHR ''a'' # claims_StellarAccount c)
     else if claims_Subject c = ''refresh'' \<and> c = (ex_claims ''refresh'' (claims_StellarAccount c))\<lparr>claims_ExpiresAt := Some 2592000\<rparr>
     then Inr (CHR ''r'' # claims_StellarAccount c)
     else Inl (Opaque ''unsupported''))"

definition ex_parse :: "time \<Rightarrow> string jwt_parser" where
  "ex_parse now algs aud kf token =
     (case token of
        [] \<Rightarrow> Inl (Opaque ''malformed'')
      | ch # acct \<Rightarrow>
          (let c = (if ch = CHR ''a'' then ex_claims ''access'' acct
                    else (ex_claims ''refresh'' acct)\<lparr>claims_ExpiresAt := Some 2592000\<rparr>) in
           if now < (if ch = CHR ''a'' then 900 else 2592000) * 1000000000 \<and>
              (case aud of None \<Rightarrow> True | Some a \<Rightarrow> a \<in> set (claims_Audience c))
           then Inr (c, True) else Inl (Opaque ''expired'')))"

definition ex_auth :: "(string, string, string) auth_Service" where
  "ex_auth = \<lparr>auth_cfg = \<lparr>ServerSigningSeed = ''S'', HomeDomain = ''home'', WebAuthDomain = ''pay'',
       auth_NetworkPassphrase = ''testnet'', JWTPrivateKey = ''priv'', JWTPublicKey = ''key'', FundNewAccounts = True\<rparr>,
     auth_ready = True, auth_pool_ready = True, auth_chain = None, auth_sdk = ex_sdk ex_entry ScvVoid, auth_sep10 = ex_sep10,
     jwt_sign = ex_sign, jwt_parse = ex_parse\<rparr>"

lemma ex_jwt_library: "jwt_library (jwt_parse ex_auth) (jwt_sign ex_auth) (JWTPrivateKey (auth_cfg ex_auth)) (JWTPublicKey (auth_cfg ex_auth))"
proof -
  have "ex_parse now [''RS256''] aud kf tok = (if (case claims_ExpiresAt c of None \<Rightarrow> True | Some e \<Rightarrow> now < e * 1000000000) \<and>
        (case aud of None \<Rightarrow> True | Some a \<Rightarrow> a \<in> set (claims_Audience c)) then Inr (c, True) else Inl (Opaque ''expired''))"
    if "ex_sign ''priv'' c = Inr tok" for now aud kf c tok
  proof -
    let ?A = "claims_Subject c = ''access'' \<and> c = ex_claims ''access'' (claims_StellarAccount c)"
    let ?R = "claims_Subject c = ''refresh'' \<and> c = (ex_claims ''refresh'' (claims_StellarAccount c))\<lparr>claims_ExpiresAt := Some 2592000\<rparr>"
    consider (a) ?A | (r) "\<not> ?A" ?R | (n) "\<not> ?A" "\<not> ?R" by argo
    then consider "c = ex_claims ''access'' (claims_StellarAccount c)" "tok = CHR ''a'' # claims_StellarAccount c"
      | "c = (ex_claims ''refresh'' (claims_StellarAccount c))\<lparr>claims_ExpiresAt := Some 2592000\<rparr>" "tok = CHR ''r'' # claims_StellarAccount c"
    proof cases
      case a
      show thesis by (rule that(1)) (use a \<open>ex_sign ''priv'' c = Inr tok\<close> [unfolded ex_sign_def if_P [OF a]] in \<open>simp_all only: sum.inject\<close>)
    next
      case r
      show thesis by (rule that(2))
        (use r \<open>ex_sign ''priv'' c = Inr tok\<close> [unfolded ex_sign_def if_not_P [OF r(1)] if_P [OF r(2)]] in \<open>simp_all only: sum.inject\<close>)
    next
      case n
      then show thesis using \<open>ex_sign ''priv'' c = Inr tok\<close> [unfolded ex_sign_def if_not_P [OF n(1)] if_not_P [OF n(2)]] by simp
    qed
    then show ?thesis
    proof cases
      case 1
      then have e: "claims_ExpiresAt c = Some 900" "claims_Audience c = [''pay'']"
        by (metis Claims.select_convs(5) ex_claims_def, metis Claims.select_convs(4) ex_claims_def)
      show ?thesis unfolding ex_parse_def 1(2) list.case Let_def if_P [OF refl] 1(1) [symmetric] e by simp
    next
      case 2
      then have e: "claims_ExpiresAt c = Some 2592000" "claims_Audience c = [''pay'']"
        by (metis Claims.select_convs(5) Claims.update_convs(5) ex_claims_def,
            metis Claims.select_convs(4) Claims.update_convs(5) ex_claims_def)
      have "(CHR ''r'' = CHR ''a'') = False" by simp
      then show ?thesis unfolding ex_parse_def 2(2) list.case Let_def
        by (simp only: if_False 2(1) [symmetric] e option.case)
    qed
  qed
  then show ?thesis by (simp add: jwt_library_def ex_auth_def)
qed

lemma ex_mint: "mintPair ex_auth 0 ''GA'' = Inr \<lparr>AccessToken = ''aGA'', RefreshToken = ''rGA'', ExpiresIn = 900\<rparr>"
  by (simp add: mintPair_def token_claims_def ex_auth_def ex_sign_def ex_claims_def accessTokenTTL_def refreshTokenTTL_def
      time_Unix_def)

lemma ex_accepted: "challenge_accepted ex_auth ''GA'' ''GA''"
  by (simp add: challenge_accepted_def ex_auth_def ex_sep10_def ex_sdk_def)

section \<open>Properties\<close>

text \<open>
  C26. A login proves ownership: \<open>VerifyAndMint\<close> returns tokens only when the SDK accepted the challenge
  for an account and found that account's own signature on it; the tokens are minted for that
  account and the returned user is its stored row. When no account's challenge is accepted, there
  is an error and the database is as it was. In every case, under any connection failures, the
  cheques, the pools, the idempotency keys and all existing user rows stay as they are.
\<close>

theorem login_proves_ownership:
  assumes "VerifyAndMint s now n xdr db = (r, db')"
  shows "same_but_users db db' \<and>
    (\<forall>pair user. r = Inr (pair, user) \<longrightarrow> (\<exists>acct. challenge_accepted s xdr acct \<and> mintPair s now acct = Inr pair \<and>
       user_StellarAddress user = acct \<and>
       (\<exists>u. find (\<lambda>r. us_stellar_address r = acct) (users db') = Some u \<and> user = scan_user u))) \<and>
    ((\<forall>acct. \<not> challenge_accepted s xdr acct) \<longrightarrow> (\<exists>e. r = Inl e) \<and> db' = db)"
proof (cases "\<exists>acct. challenge_accepted s xdr acct")
  case False
  then obtain e where "VerifyAndMint s now n xdr db = (Inl e, db)" using VerifyAndMint_refused by metis
  then show ?thesis using assms by (auto simp: same_but_users_def)
next
  case True
  then obtain acct where acct: "challenge_accepted s xdr acct" ..
  obtain q d where u: "UpsertUser acct n db = (q, d)" by fastforce
  note up = UpsertUser_cases [OF u]
  have "db' = db \<or> (users db' = users d \<and> cheques db' = cheques d \<and> pool_deposits db' = pool_deposits d \<and>
      idempotency_keys db' = idempotency_keys d)"
    and ok: "r = Inr (pair, user) \<Longrightarrow> q = Inr user \<and> mintPair s now acct = Inr pair \<and> users db' = users d" for pair user
    using assms by (auto simp: VerifyAndMint_accepted [OF acct] u split: if_splits sum.splits)
  then have "same_but_users db db'" using up(1) by (auto simp: same_but_users_def)
  moreover have "\<exists>a. challenge_accepted s xdr a \<and> mintPair s now a = Inr pair \<and> user_StellarAddress user = a \<and>
       (\<exists>u. find (\<lambda>r. us_stellar_address r = a) (users db') = Some u \<and> user = scan_user u)" if r: "r = Inr (pair, user)" for pair user
    using acct ok [OF r] up(2) [of user] by auto
  ultimately show ?thesis using acct by blast
qed

theorem login_proves_ownership_witness:
  "\<exists>pair user db'. VerifyAndMint ex_auth 0 7 ''GA'' ex_db0 = (Inr (pair, user), db') \<and> user_StellarAddress user = ''GA'' \<and>
     AccessToken pair = ''aGA''"
proof -
  obtain r db' where v: "VerifyAndMint ex_auth 0 7 ''GA'' ex_db0 = (r, db')" by fastforce
  have "auth_ready ex_auth" "faults ex_db0 = []" "users ex_db0 = []" by (simp_all add: ex_auth_def ex_db0_def)
  then obtain user where r: "r = Inr (\<lparr>AccessToken = ''aGA'', RefreshToken = ''rGA'', ExpiresIn = 900\<rparr>, user)"
    using v by (auto simp: VerifyAndMint_accepted [OF ex_accepted] ex_mint UpsertUser_def exec_no_faults upsert_user_def Let_def)
  have "challenge_accepted ex_auth ''GA'' a \<Longrightarrow> a = ''GA''" for a
    by (auto simp: challenge_accepted_def ex_auth_def ex_sep10_def)
  with login_proves_ownership [OF v] r v show ?thesis by fastforce
qed

text \<open>
  C27. The life of a token pair minted for an account: the access token passes \<open>VerifyAccessToken\<close>
  exactly until fifteen minutes after it was minted, for the audience it was minted for (or where
  none is required), and carries that account; the refresh token never passes as an access token,
  at any time and for any audience; \<open>Refresh\<close> accepts the refresh token for exactly thirty days and
  then mints for the same account, and never accepts an access token.
\<close>

theorem token_lifecycle:
  assumes "jwt_library (jwt_parse s) (jwt_sign s) (JWTPrivateKey (auth_cfg s)) (JWTPublicKey (auth_cfg s))"
    and "mintPair s t acct = Inr pair" and "acct \<noteq> []"
  shows "VerifyAccessToken (jwt_parse s now) (AccessToken pair) (JWTPublicKey (auth_cfg s)) aud =
      (if now < time_Unix (t + accessTokenTTL) * 1000000000 \<and> (aud = [] \<or> aud = WebAuthDomain (auth_cfg s))
       then Inr (token_claims s ''access'' accessTokenTTL acct t) else Inl ErrInvalidToken) \<and>
    VerifyAccessToken (jwt_parse s now) (RefreshToken pair) (JWTPublicKey (auth_cfg s)) aud = Inl ErrInvalidToken \<and>
    Refresh s now m (RefreshToken pair) =
      (if now < time_Unix (t + refreshTokenTTL) * 1000000000 then mintPair s m acct else Inl errInvalidToken) \<and>
    Refresh s now m (AccessToken pair) = Inl errInvalidToken"
proof -
  note signed = mintPair_Inr(1,2) [OF assms(2)]
  have nonempty: "claims_StellarAccount (token_claims s sub ttl acct t) \<noteq> []" for sub ttl
    using assms(3) by (simp add: token_claims_def)
  have a: "VerifyJWT (jwt_parse s now) (AccessToken pair) (JWTPublicKey (auth_cfg s)) aud =
      (if unexpired (token_claims s ''access'' accessTokenTTL acct t) now \<and>
          (aud = [] \<or> aud \<in> set (claims_Audience (token_claims s ''access'' accessTokenTTL acct t)))
       then Inr (token_claims s ''access'' accessTokenTTL acct t) else Inl ErrInvalidToken)" for aud
    by (rule VerifyJWT_signed [where sign = "jwt_sign s" and priv = "JWTPrivateKey (auth_cfg s)", OF assms(1) signed(1) nonempty])
  have b: "VerifyJWT (jwt_parse s now) (RefreshToken pair) (JWTPublicKey (auth_cfg s)) aud =
      (if unexpired (token_claims s ''refresh'' refreshTokenTTL acct t) now \<and>
          (aud = [] \<or> aud \<in> set (claims_Audience (token_claims s ''refresh'' refreshTokenTTL acct t)))
       then Inr (token_claims s ''refresh'' refreshTokenTTL acct t) else Inl ErrInvalidToken)" for aud
    by (rule VerifyJWT_signed [where sign = "jwt_sign s" and priv = "JWTPrivateKey (auth_cfg s)", OF assms(1) signed(2) nonempty])
  have c: "claims_Subject (token_claims s sub ttl acct t) = sub" "claims_StellarAccount (token_claims s sub ttl acct t) = acct"
      "claims_Audience (token_claims s sub ttl acct t) = [WebAuthDomain (auth_cfg s)]"
      "unexpired (token_claims s sub ttl acct t) now \<longleftrightarrow> now < time_Unix (t + ttl) * 1000000000" for sub ttl
    by (simp_all add: token_claims_def unexpired_def)
  show ?thesis
    by (simp add: VerifyAccessToken_def Refresh_def a b c accessTokenSubject_def)
qed

theorem token_lifecycle_witness:
  "VerifyAccessToken (jwt_parse ex_auth 899000000000) ''aGA'' ''key'' ''pay'' = Inr (token_claims ex_auth ''access'' accessTokenTTL ''GA'' 0) \<and>
   VerifyAccessToken (jwt_parse ex_auth 901000000000) ''aGA'' ''key'' ''pay'' = Inl ErrInvalidToken \<and>
   VerifyAccessToken (jwt_parse ex_auth 0) ''rGA'' ''key'' ''pay'' = Inl ErrInvalidToken \<and>
   Refresh ex_auth 901000000000 0 ''rGA'' = mintPair ex_auth 0 ''GA''"
proof -
  have k: "JWTPublicKey (auth_cfg ex_auth) = ''key''" "WebAuthDomain (auth_cfg ex_auth) = ''pay''" by (simp_all add: ex_auth_def)
  have t: "time_Unix (0 + accessTokenTTL) = 900" "time_Unix (0 + refreshTokenTTL) = 2592000"
    by (simp_all add: time_Unix_def accessTokenTTL_def refreshTokenTTL_def)
  have n: "''GA'' \<noteq> []" by simp
  show ?thesis
    using token_lifecycle [OF ex_jwt_library ex_mint n, of 899000000000 "''pay''" 0]
      token_lifecycle [OF ex_jwt_library ex_mint n, of 901000000000 "''pay''" 0]
      token_lifecycle [OF ex_jwt_library ex_mint n, of 0 "''pay''" 0]
    by (simp add: k t t [simplified])
qed

text \<open>
  Funding is best effort: whether a login succeeds, the tokens and the user it returns and the
  stored users are the same whatever the chain gateway does, answers or fails to answer, and whether
  there is one at all.
\<close>

theorem login_ignores_funding:
  "fst (VerifyAndMint (s\<lparr>auth_chain := g\<rparr>) now n xdr db) = fst (VerifyAndMint s now n xdr db) \<and>
   users (snd (VerifyAndMint (s\<lparr>auth_chain := g\<rparr>) now n xdr db)) = users (snd (VerifyAndMint s now n xdr db))"
proof (cases "\<exists>acct. challenge_accepted s xdr acct")
  case True
  then obtain acct where a: "challenge_accepted s xdr acct" ..
  then have b: "challenge_accepted (s\<lparr>auth_chain := g\<rparr>) xdr acct" by simp
  show ?thesis
    by (auto simp: VerifyAndMint_accepted [OF a] VerifyAndMint_accepted [OF b] split: prod.splits sum.splits)
next
  case False
  have "VerifyAndMint (s\<lparr>auth_chain := g\<rparr>) now n xdr db = VerifyAndMint s now n xdr db"
    using False by (auto simp: challenge_accepted_def VerifyAndMint_def Let_def split: sum.splits)
  then show ?thesis by simp
qed

text \<open>
  C28. A profile is shown only to its owner: whenever the auth process answers a request with a user
  profile, the request carried a valid access token of that very account; whenever it reports a
  funding result or a profile at all, the request carried a valid access token.
\<close>

theorem profile_only_to_owner:
  assumes "authsvc s am r db = (Response status (DataBody payload), db')"
  shows "(\<forall>u. payload = AUser u \<longrightarrow>
      bearer_account (jwt_parse s (am_verified am)) (JWTPublicKey (auth_cfg s)) (WebAuthDomain (auth_cfg s)) r = Some (user_StellarAddress u)) \<and>
    (\<forall>f b. payload = AFlag f b \<longrightarrow>
      bearer_account (jwt_parse s (am_verified am)) (JWTPublicKey (auth_cfg s)) (WebAuthDomain (auth_cfg s)) r \<noteq> None)"
proof (cases "take 1 (req_Path r) = [''auth''] \<and> auth_pool_ready s \<and> req_Path r \<noteq> [''auth'']")
  case False
  then show ?thesis using assms by (auto simp: authsvc_def RequireReady_def WriteError_def WriteData_def split: if_splits)
next
  case True
  then have health: "req_Path r \<noteq> [''health'']" by auto
  show ?thesis
  proof (cases "req_Path r \<in> set ProtectedPaths")
    case False
    then have "ServeMux (auth_RegisterRoutes s am) False r db = (Response status (DataBody payload), db')"
      using assms True health by (simp add: authsvc_def RequireReady_def)
    from ServeMux_cases [OF this] show ?thesis
      by (auto simp: auth_RegisterRoutes_def dest: public_routes_payload)
  next
    case prot: True
    let ?mux = "ServeMux (RegisterProtectedRoutes s) False"
    have m: "RequireBearer (jwt_parse s (am_verified am)) (JWTPublicKey (auth_cfg s)) (WebAuthDomain (auth_cfg s))
        (WriteError 401 ''auth.invalid_token'' ''missing or invalid bearer token'') ?mux r db = (Response status (DataBody payload), db')"
      using assms True health prot by (simp add: authsvc_def RequireReady_def)
    from RequireBearer_split [OF m] show ?thesis
      by (auto simp: WriteError_def dest: protected_routes_payload)
  qed
qed

theorem profile_only_to_owner_witness:
  "authsvc ex_auth \<lparr>am_verified = 0, am_minted = 0, am_nextval = 1\<rparr> (ex_request ''aGA'' ''POST'' [''auth'', ''fund''] JNull) ex_db0 =
     (Response 200 (DataBody (AFlag ''funded'' False)), ex_db0) \<and>
   bearer_account (ex_parse 0) ''key'' ''pay'' (ex_request ''aGA'' ''POST'' [''auth'', ''fund''] JNull) \<noteq> None"
proof -
  have h: "req_Header (ex_request ''aGA'' ''POST'' [''auth'', ''fund''] JNull) ''Authorization'' = ''Bearer aGA''" by (simp add: ex_request_def)
  have v: "VerifyAccessToken (ex_parse 0) ''aGA'' ''key'' ''pay'' = Inr (ex_claims ''access'' ''GA'')"
    by (simp add: VerifyAccessToken_def VerifyJWT_def ex_parse_def ex_claims_def accessTokenSubject_def)
  have a: "authsvc ex_auth \<lparr>am_verified = 0, am_minted = 0, am_nextval = 1\<rparr> (ex_request ''aGA'' ''POST'' [''auth'', ''fund''] JNull) ex_db0 =
     (Response 200 (DataBody (AFlag ''funded'' False)), ex_db0)"
    by (simp add: authsvc_def RequireReady_def RequireBearer_def h CutPrefix_def ex_auth_def v ProtectedPaths_def RegisterProtectedRoutes_def
        method_matches_def h_Fund_def ClaimsFromContext_def FundOwnAccount_def WriteData_def) (simp add: ex_request_def)
  have "\<exists>f b. AFlag ''funded'' False = AFlag f b" by blast
  with profile_only_to_owner [OF a] have "bearer_account (jwt_parse ex_auth 0) (JWTPublicKey (auth_cfg ex_auth))
      (WebAuthDomain (auth_cfg ex_auth)) (ex_request ''aGA'' ''POST'' [''auth'', ''fund''] JNull) \<noteq> None" by simp
  then have "bearer_account (ex_parse 0) ''key'' ''pay'' (ex_request ''aGA'' ''POST'' [''auth'', ''fund''] JNull) \<noteq> None"
    unfolding ex_auth_def auth_Service.select_convs auth_Config.select_convs .
  with a show ?thesis ..
qed

end
