(* ===== verification/Nethost.thy ===== *)
theory Nethost
  imports Http
begin

text \<open>
  \<open>backend/pkg/nethost\<close>: the allow-list guard in front of every outbound call, with what
  \<open>http.Client\<close> does around it (redirects). The network's answers are a function of the requests
  sent so far and the one being sent, so that a client's run leaves the list of requests that
  really went out.
\<close>

section \<open>Outbound requests\<close>

text \<open>A parsed URL: scheme, whether it has user information, \<open>Host\<close> (with the port, if any), path, query.\<close>

record url =
  url_Scheme :: string
  url_User :: bool
  url_Host :: string
  url_Path :: string
  url_RawQuery :: string

record out_request =
  or_Method :: string
  or_URL :: url
  or_Header :: "(string \<times> string) list"
  or_Body :: string

record out_response =
  os_StatusCode :: nat
  os_Location :: string \<comment> \<open>\<open>Header.Get("Location")\<close>\<close>
  os_Body :: string

type_synonym network = "out_request list \<Rightarrow> out_request \<Rightarrow> out_response res"

text \<open>\<open>url.URL.Hostname\<close>: the host without a port made of digits, and without the brackets of an IPv6 address.\<close>

definition validOptionalPort :: "string \<Rightarrow> bool" where
  "validOptionalPort port \<longleftrightarrow> port = [] \<or> (hd port = CHR '':'' \<and> list_all is_digit (tl port))"

definition Hostname :: "url \<Rightarrow> string" where
  "Hostname u =
     (let hp = url_Host u;
          port = (if CHR '':'' \<in> set hp then CHR '':'' # rev (takeWhile (\<lambda>c. c \<noteq> CHR '':'') (rev hp)) else []);
          host = (if validOptionalPort port then take (length hp - length port) hp else hp) in
      if host \<noteq> [] \<and> hd host = CHR ''['' \<and> last host = CHR '']'' then tl (butlast host) else host)"

section \<open>The guard\<close>

text \<open>\<open>AllowList\<close> is a map from host names to whether they are allowed; the transport keeps a list.\<close>

type_synonym AllowList = "(string \<times> bool) list"

record guardedTransport =
  gt_allow :: "string list"

definition Guard :: "AllowList \<Rightarrow> guardedTransport" where
  "Guard allow = \<lparr>gt_allow = map fst (filter snd allow)\<rparr>"

definition RoundTrip ::
  "guardedTransport \<Rightarrow> network \<Rightarrow> out_request \<Rightarrow> out_request list \<Rightarrow> out_response res \<times> out_request list" where
  "RoundTrip g net req sent =
     (let host = Hostname (or_URL req) in
      if host \<notin> set (gt_allow g) then (Inl (Opaque (''nethost: host not allow-listed: '' @ host)), sent)
      else (net sent req, sent @ [req]))"

definition addHost :: "string \<Rightarrow> guardedTransport \<Rightarrow> guardedTransport" where
  "addHost host g =
     (if host = [] then g
      else if host \<notin> set (gt_allow g) then g\<lparr>gt_allow := gt_allow g @ [host]\<rparr> else g)"

text \<open>An \<open>http.Client\<close> has a guarded transport or some other one, which the guard leaves alone.\<close>

type_synonym http_client = "guardedTransport option"

definition Client :: "AllowList \<Rightarrow> http_client" where
  "Client allow = Some (Guard allow)"

definition AddAllowedHost :: "http_client \<Rightarrow> string \<Rightarrow> http_client" where
  "AddAllowedHost hc host = (case hc of Some g \<Rightarrow> Some (addHost host g) | None \<Rightarrow> None)"

section \<open>The client\<close>

text \<open>
  \<open>http.Client.Do\<close>: a 301, 302 or 303 with a location is followed by a \<open>GET\<close> (\<open>HEAD\<close> stays) without
  body, a 307 or 308 by the same request; every hop goes through the transport, and at most ten
  requests are sent. \<open>resolve\<close> is \<open>URL.Parse\<close> of a reference. What the client does to the headers of
  a redirected request (it adds \<open>Referer\<close>, drops the credentials on the way to another domain and the
  body's headers with the body) is left out.
\<close>

definition redirect_request :: "out_request \<Rightarrow> nat \<Rightarrow> url \<Rightarrow> out_request" where
  "redirect_request req status u =
     (if status \<in> {307, 308} then req\<lparr>or_URL := u\<rparr>
      else req\<lparr>or_Method := (if or_Method req = ''HEAD'' then ''HEAD'' else ''GET''), or_URL := u, or_Body := []\<rparr>)"

definition transport_send ::
  "http_client \<Rightarrow> network \<Rightarrow> out_request \<Rightarrow> out_request list \<Rightarrow> out_response res \<times> out_request list" where
  "transport_send hc net req sent =
     (case hc of Some g \<Rightarrow> RoundTrip g net req sent | None \<Rightarrow> (net sent req, sent @ [req]))"

fun client_loop ::
  "nat \<Rightarrow> (url \<Rightarrow> string \<Rightarrow> url res) \<Rightarrow> http_client \<Rightarrow> network \<Rightarrow> out_request \<Rightarrow> out_request list \<Rightarrow>
     out_response res \<times> out_request list" where
  "client_loop 0 resolve hc net req sent = (Inl (Opaque ''stopped after 10 redirects''), sent)"
| "client_loop (Suc n) resolve hc net req sent =
     (case transport_send hc net req sent of
        (Inl e, sent1) \<Rightarrow> (Inl e, sent1)
      | (Inr resp, sent1) \<Rightarrow>
          if os_StatusCode resp \<notin> {301, 302, 303, 307, 308} \<or> os_Location resp = [] then (Inr resp, sent1)
          else (case resolve (or_URL req) (os_Location resp) of
                  Inl e \<Rightarrow> (Inl (Wrap ''failed to parse Location header'' e), sent1)
                | Inr u \<Rightarrow> client_loop n resolve hc net (redirect_request req (os_StatusCode resp) u) sent1))"

definition Client_Do ::
  "(url \<Rightarrow> string \<Rightarrow> url res) \<Rightarrow> http_client \<Rightarrow> network \<Rightarrow> out_request \<Rightarrow> out_request list \<Rightarrow>
     out_response res \<times> out_request list" where
  "Client_Do = client_loop 10"

section \<open>Lemmas\<close>

lemma addHost_allow: "set (gt_allow (addHost host g)) = set (gt_allow g) \<union> ({host} - {[]})"
  by (auto simp: addHost_def)

lemma Guard_allow: "set (gt_allow (Guard allow)) = {h. (h, True) \<in> set allow}"
  by (force simp: Guard_def)

lemma added_hosts:
  "\<exists>g'. fold (\<lambda>h hc. AddAllowedHost hc h) hosts (Some g) = Some g' \<and> set (gt_allow g') = set (gt_allow g) \<union> (set hosts - {[]})"
proof (induction hosts arbitrary: g)
  case Nil
  then show ?case by simp
next
  case (Cons h hosts)
  from Cons.IH [of "addHost h g"] show ?case by (auto simp: AddAllowedHost_def addHost_allow)
qed

lemma client_loop_sent:
  assumes "client_loop n resolve (Some g) net req sent = (r, sent')"
  shows "\<exists>new. sent' = sent @ new \<and> length new \<le> n \<and> (\<forall>q\<in>set new. Hostname (or_URL q) \<in> set (gt_allow g)) \<and>
    (\<forall>q\<in>set (take 1 new). q = req) \<and> (\<forall>resp. r = Inr resp \<longrightarrow> new \<noteq> [])"
  using assms
proof (induction n arbitrary: req sent)
  case 0
  then show ?case by auto
next
  case (Suc n)
  obtain t sent1 where t: "RoundTrip g net req sent = (t, sent1)" by fastforce
  show ?case
  proof (cases "Hostname (or_URL req) \<in> set (gt_allow g)")
    case False
    then have "t = Inl (Opaque (''nethost: host not allow-listed: '' @ Hostname (or_URL req)))" "sent1 = sent"
      using t by (simp_all add: RoundTrip_def)
    with Suc.prems t show ?thesis by (auto simp: transport_send_def)
  next
    case True
    then have s: "sent1 = sent @ [req]" using t by (simp add: RoundTrip_def)
    from Suc.prems consider "sent' = sent1"
      | req' where "client_loop n resolve (Some g) net req' sent1 = (r, sent')"
      by (auto simp: transport_send_def t split: sum.splits if_splits)
    then show ?thesis
    proof cases
      case 1
      then show ?thesis using s True by (intro exI [of _ "[req]"]) simp
    next
      case 2
      from Suc.IH [OF this] obtain new where "sent' = sent1 @ new" "length new \<le> n"
        "\<forall>q\<in>set new. Hostname (or_URL q) \<in> set (gt_allow g)" by blast
      then show ?thesis using s True by (intro exI [of _ "req # new"]) simp
    qed
  qed
qed

lemma client_loop_refused:
  assumes "Hostname (or_URL req) \<notin> set (gt_allow g)"
  shows "client_loop (Suc n) resolve (Some g) net req sent =
    (Inl (Opaque (''nethost: host not allow-listed: '' @ Hostname (or_URL req))), sent)"
  using assms by (simp add: transport_send_def RoundTrip_def)

section \<open>Properties\<close>

text \<open>
  C35. No request escapes the allow-list: whatever the network answers, and through every chain of
  redirects, a guarded client sends at most ten requests, the first of them the one it was given,
  and each to a host that was put on the allow-list, at construction or by \<open>AddAllowedHost\<close>; a
  request to any other host is refused without anything being sent.
\<close>

theorem guarded_client_stays_inside:
  assumes "Client_Do resolve (fold (\<lambda>h hc. AddAllowedHost hc h) added (Client allow)) net req sent = (r, sent')"
  shows "\<exists>new. sent' = sent @ new \<and> length new \<le> 10 \<and> (\<forall>q\<in>set (take 1 new). q = req) \<and>
    (\<forall>q\<in>set new. (Hostname (or_URL q), True) \<in> set allow \<or> (Hostname (or_URL q) \<in> set added \<and> Hostname (or_URL q) \<noteq> [])) \<and>
    ((Hostname (or_URL req), True) \<notin> set allow \<and> Hostname (or_URL req) \<notin> set added \<longrightarrow>
      new = [] \<and> r = Inl (Opaque (''nethost: host not allow-listed: '' @ Hostname (or_URL req))))"
proof -
  obtain g where g: "fold (\<lambda>h hc. AddAllowedHost hc h) added (Client allow) = Some g"
      "set (gt_allow g) = {h. (h, True) \<in> set allow} \<union> (set added - {[]})"
    using added_hosts [of added "Guard allow"] unfolding Client_def Guard_allow by blast
  have loop: "client_loop 10 resolve (Some g) net req sent = (r, sent')"
    using assms unfolding g(1) Client_Do_def .
  have refused: "Hostname (or_URL req) \<notin> set (gt_allow g) \<Longrightarrow>
      sent' = sent \<and> r = Inl (Opaque (''nethost: host not allow-listed: '' @ Hostname (or_URL req)))"
    using client_loop_refused [of req g 9 resolve net sent] loop by (simp del: client_loop.simps)
  from client_loop_sent [OF loop] obtain new where new: "sent' = sent @ new" "length new \<le> 10"
    "\<forall>q\<in>set new. Hostname (or_URL q) \<in> set (gt_allow g)" "\<forall>q\<in>set (take 1 new). q = req" by blast
  have "\<forall>q\<in>set new. (Hostname (or_URL q), True) \<in> set allow \<or> (Hostname (or_URL q) \<in> set added \<and> Hostname (or_URL q) \<noteq> [])"
    using new(3) unfolding g(2) by blast
  moreover have "Hostname (or_URL req) \<notin> set (gt_allow g) \<Longrightarrow> new = []" using refused new(1) by simp
  ultimately show ?thesis using new(1,2,4) refused unfolding g(2) by blast
qed

text \<open>A server that redirects to another host.\<close>

definition ex_url :: "string \<Rightarrow> url" where
  "ex_url host = \<lparr>url_Scheme = ''https'', url_User = False, url_Host = host, url_Path = ''/'', url_RawQuery = []\<rparr>"

definition ex_out :: "string \<Rightarrow> out_request" where
  "ex_out host = \<lparr>or_Method = ''GET'', or_URL = ex_url host, or_Header = [], or_Body = []\<rparr>"

definition ex_net :: network where
  "ex_net sent req = Inr \<lparr>os_StatusCode = 307, os_Location = ''inside'', os_Body = []\<rparr>"

theorem guarded_client_stays_inside_witness:
  "Client_Do (\<lambda>_ l. Inr (ex_url l)) (AddAllowedHost (Client [(''a'', True)]) ''b'') ex_net (ex_out ''a:80'') [] =
     (Inl (Opaque ''nethost: host not allow-listed: inside''), [ex_out ''a:80'']) \<and>
   (\<exists>new. [ex_out ''a:80''] = [] @ new \<and> length new \<le> 10 \<and> (\<forall>q\<in>set new. Hostname (or_URL q) \<in> {''a'', ''b''}))"
proof -
  have h: "Hostname (or_URL (ex_out ''a:80'')) = ''a''" "Hostname (ex_url ''inside'') = ''inside''"
    by (simp_all add: ex_out_def ex_url_def Hostname_def validOptionalPort_def is_digit_def)
  have d: "Client_Do (\<lambda>_ l. Inr (ex_url l)) (fold (\<lambda>h hc. AddAllowedHost hc h) [''b''] (Client [(''a'', True)]))
      ex_net (ex_out ''a:80'') [] = (Inl (Opaque ''nethost: host not allow-listed: inside''), [ex_out ''a:80''])"
    by (simp add: Client_Do_def numeral_eq_Suc transport_send_def RoundTrip_def AddAllowedHost_def Client_def Guard_def addHost_def h
        ex_net_def redirect_request_def)
  from guarded_client_stays_inside [OF d] d show ?thesis by fastforce
qed

end
