(* ===== verification/Wire.thy ===== *)
theory Wire
  imports Http Ports
begin

text \<open>
  How the services talk to each other: the parts of \<open>encoding/json\<close> and \<open>net/url\<close> the clients use,
  the JSON form of the structs of \<open>backend/ports/ports.go\<close> (their field tags), and the HTTP client
  side of \<open>backend/ports/httpadapter\<close>.
\<close>

section \<open>Strings in JSON\<close>

text \<open>
  Marshalling replaces every byte that is not part of a valid UTF-8 encoding by U+FFFD. The length
  of the encoding a byte string starts with (0: none).
\<close>

definition utf8_len :: "nat list \<Rightarrow> nat" where
  "utf8_len bs =
     (let c = (\<lambda>i lo hi. i < length bs \<and> lo \<le> bs ! i \<and> bs ! i \<le> hi); b = hd bs in
      if b < 128 then 1
      else if 194 \<le> b \<and> b \<le> 223 \<and> c 1 128 191 then 2
      else if ((b = 224 \<and> c 1 160 191) \<or> (b = 237 \<and> c 1 128 159) \<or>
               (225 \<le> b \<and> b \<le> 239 \<and> b \<noteq> 237 \<and> c 1 128 191)) \<and> c 2 128 191 then 3
      else if ((b = 240 \<and> c 1 144 191) \<or> (b = 244 \<and> c 1 128 143) \<or> (241 \<le> b \<and> b \<le> 243 \<and> c 1 128 191)) \<and>
              c 2 128 191 \<and> c 3 128 191 then 4
      else 0)"

function utf8_coerce :: "string \<Rightarrow> string" where
  "utf8_coerce [] = []"
| "utf8_coerce (c # cs) =
     (let n = utf8_len (map of_char (c # cs)) in
      if n = 0 then [CHR 0xEF, CHR 0xBF, CHR 0xBD] @ utf8_coerce cs
      else take n (c # cs) @ utf8_coerce (drop n (c # cs)))"
  by pat_completeness auto
termination by (relation "measure length") auto

abbreviation valid_utf8 :: "string \<Rightarrow> bool" where
  "valid_utf8 s \<equiv> utf8_coerce s = s"

lemma ascii_valid_utf8: "list_all (\<lambda>c. of_char c < (128 :: nat)) s \<Longrightarrow> valid_utf8 s"
  by (induction s) (auto simp: utf8_coerce.simps utf8_len_def Let_def)

declare utf8_coerce.simps [simp del]

lemma utf8_Nil [simp]: "utf8_coerce [] = []"
  by (simp add: utf8_coerce.simps)

definition jstr :: "string \<Rightarrow> json" where
  "jstr s = JStr (utf8_coerce s)"

text \<open>A member with \<open>omitempty\<close>.\<close>

definition omit_string :: "string \<Rightarrow> string \<Rightarrow> (string \<times> json) list" where
  "omit_string name s = (if s = [] then [] else [(name, jstr s)])"

definition omit_int64 :: "string \<Rightarrow> i64 \<Rightarrow> (string \<times> json) list" where
  "omit_int64 name n = (if n = 0 then [] else [(name, JInt (sint n))])"

section \<open>More decoders\<close>

definition put_bool :: "(bool \<Rightarrow> 's \<Rightarrow> 's) \<Rightarrow> json \<Rightarrow> 's \<Rightarrow> 's option" where
  "put_bool f v s = (case v of JBool b \<Rightarrow> Some (f b s) | JNull \<Rightarrow> Some s | _ \<Rightarrow> None)"

definition put_uint8 :: "(u8 \<Rightarrow> 's \<Rightarrow> 's) \<Rightarrow> json \<Rightarrow> 's \<Rightarrow> 's option" where
  "put_uint8 f v s =
     (case v of JInt n \<Rightarrow> if 0 \<le> n \<and> n < 2 ^ 8 then Some (f (word_of_int n) s) else None | JNull \<Rightarrow> Some s | _ \<Rightarrow> None)"

definition unmarshal_struct :: "'s fields \<Rightarrow> 's \<Rightarrow> json \<Rightarrow> 's option" where
  "unmarshal_struct fs zero v =
     (case Decode fs (BodyDoc v) zero of (None, s) \<Rightarrow> Some s | (Some _, _) \<Rightarrow> None)"

definition unmarshal_string :: "json \<Rightarrow> string option" where
  "unmarshal_string v = put_string (\<lambda>x _. x) v []"

definition unmarshal_list :: "(json \<Rightarrow> 'a option) \<Rightarrow> json \<Rightarrow> 'a list option" where
  "unmarshal_list el v = (case v of JArr xs \<Rightarrow> those (map el xs) | JNull \<Rightarrow> Some [] | _ \<Rightarrow> None)"

definition put_list :: "(json \<Rightarrow> 'a option) \<Rightarrow> ('a list \<Rightarrow> 's \<Rightarrow> 's) \<Rightarrow> json \<Rightarrow> 's \<Rightarrow> 's option" where
  "put_list el f v s = (case unmarshal_list el v of Some xs \<Rightarrow> Some (f xs s) | None \<Rightarrow> None)"

lemma those_map: "(\<And>x. x \<in> set xs \<Longrightarrow> f (g x) = Some x) \<Longrightarrow> those (map (f \<circ> g) xs) = Some xs"
  by (induction xs) auto

lemma put_string_JStr [simp]: "put_string f (JStr x) s = Some (f x s)" by (simp add: put_string_def)
lemma put_bool_JBool [simp]: "put_bool f (JBool x) s = Some (f x s)" by (simp add: put_bool_def)
lemma put_int64_JInt [simp]: "put_int64 f (JInt (sint (n :: i64))) s = Some (f n s)"
  using sint_range_size [of n] by (simp add: put_int64_def word_size)

lemma put_uint8_JInt [simp]: "put_uint8 f (JInt (uint (n :: u8))) s = Some (f n s)"
  using uint_bounded [of n] by (simp add: put_uint8_def)

section \<open>The structs of the ports\<close>

text \<open>A slice that is nil is written \<open>null\<close>, an empty one \<open>[]\<close>; both are the empty list here and decode to it.\<close>

definition json_slice :: "('a \<Rightarrow> json) \<Rightarrow> 'a list \<Rightarrow> json" where
  "json_slice el xs = (if xs = [] then JNull else JArr (map el xs))"

definition json_Balance :: "Balance \<Rightarrow> json" where
  "json_Balance b = JObj ([(''assetCode'', jstr (AssetCode b))] @ omit_string ''assetIssuer'' (AssetIssuer b) @
     [(''balance'', jstr (bal_Balance b))] @ omit_string ''limit'' (bal_Limit b))"

definition Balance_fields :: "Balance fields" where
  "Balance_fields =
    [(''assetCode'', put_string (\<lambda>x b. b\<lparr>AssetCode := x\<rparr>)), (''assetIssuer'', put_string (\<lambda>x b. b\<lparr>AssetIssuer := x\<rparr>)),
     (''balance'', put_string (\<lambda>x b. b\<lparr>bal_Balance := x\<rparr>)), (''limit'', put_string (\<lambda>x b. b\<lparr>bal_Limit := x\<rparr>))]"

definition zero_Balance :: Balance where
  "zero_Balance = \<lparr>AssetCode = [], AssetIssuer = [], bal_Balance = [], bal_Limit = []\<rparr>"

definition json_AccountInfo :: "AccountInfo \<Rightarrow> json" where
  "json_AccountInfo i = JObj [(''address'', jstr (acc_Address i)), (''sequence'', JInt (sint (acc_Sequence i))),
     (''balances'', json_slice json_Balance (acc_Balances i)),
     (''exists'', JBool (acc_Exists i))]"

definition AccountInfo_fields :: "AccountInfo fields" where
  "AccountInfo_fields =
    [(''address'', put_string (\<lambda>x i. i\<lparr>acc_Address := x\<rparr>)), (''sequence'', put_int64 (\<lambda>x i. i\<lparr>acc_Sequence := x\<rparr>)),
     (''balances'', put_list (unmarshal_struct Balance_fields zero_Balance) (\<lambda>x i. i\<lparr>acc_Balances := x\<rparr>)),
     (''exists'', put_bool (\<lambda>x i. i\<lparr>acc_Exists := x\<rparr>))]"

definition zero_AccountInfo :: AccountInfo where
  "zero_AccountInfo = \<lparr>acc_Address = [], acc_Sequence = 0, acc_Balances = [], acc_Exists = False\<rparr>"

definition json_TrustlineInfo :: "TrustlineInfo \<Rightarrow> json" where
  "json_TrustlineInfo t = JObj ([(''exists'', JBool (tl_Exists t))] @ omit_string ''balance'' (tl_Balance t) @
     omit_string ''limit'' (tl_Limit t))"

definition TrustlineInfo_fields :: "TrustlineInfo fields" where
  "TrustlineInfo_fields =
    [(''exists'', put_bool (\<lambda>x t. t\<lparr>tl_Exists := x\<rparr>)), (''balance'', put_string (\<lambda>x t. t\<lparr>tl_Balance := x\<rparr>)),
     (''limit'', put_string (\<lambda>x t. t\<lparr>tl_Limit := x\<rparr>))]"

definition zero_TrustlineInfo :: TrustlineInfo where
  "zero_TrustlineInfo = \<lparr>tl_Exists = False, tl_Balance = [], tl_Limit = []\<rparr>"

definition json_LedgerInfo :: "LedgerInfo \<Rightarrow> json" where
  "json_LedgerInfo l = JObj [(''sequence'', JInt (sint (ldg_Sequence l))), (''closeTime'', JInt (sint (ldg_CloseTime l)))]"

definition LedgerInfo_fields :: "LedgerInfo fields" where
  "LedgerInfo_fields =
    [(''sequence'', put_int64 (\<lambda>x l. l\<lparr>ldg_Sequence := x\<rparr>)), (''closeTime'', put_int64 (\<lambda>x l. l\<lparr>ldg_CloseTime := x\<rparr>))]"

definition zero_LedgerInfo :: LedgerInfo where
  "zero_LedgerInfo = \<lparr>ldg_Sequence = 0, ldg_CloseTime = 0\<rparr>"

definition json_SimulateResult :: "SimulateResult \<Rightarrow> json" where
  "json_SimulateResult r = JObj ([(''success'', JBool (sr_Success r))] @ omit_string ''error'' (sr_Error r) @
     omit_string ''transactionDataXdr'' (sr_TransactionDataXDR r) @ omit_int64 ''minResourceFee'' (sr_MinResourceFee r) @
     omit_string ''resultXdr'' (sr_ResultXDR r) @
     (if sr_AuthXDR r = [] then [] else [(''authXdr'', JArr (map jstr (sr_AuthXDR r)))]))"

definition SimulateResult_fields :: "SimulateResult fields" where
  "SimulateResult_fields =
    [(''success'', put_bool (\<lambda>x r. r\<lparr>sr_Success := x\<rparr>)), (''error'', put_string (\<lambda>x r. r\<lparr>sr_Error := x\<rparr>)),
     (''transactionDataXdr'', put_string (\<lambda>x r. r\<lparr>sr_TransactionDataXDR := x\<rparr>)),
     (''minResourceFee'', put_int64 (\<lambda>x r. r\<lparr>sr_MinResourceFee := x\<rparr>)),
     (''resultXdr'', put_string (\<lambda>x r. r\<lparr>sr_ResultXDR := x\<rparr>)),
     (''authXdr'', put_list unmarshal_string (\<lambda>x r. r\<lparr>sr_AuthXDR := x\<rparr>))]"

definition zero_SimulateResult :: SimulateResult where
  "zero_SimulateResult = \<lparr>sr_Success = False, sr_Error = [], sr_TransactionDataXDR = [], sr_MinResourceFee = 0,
     sr_ResultXDR = [], sr_AuthXDR = []\<rparr>"

definition json_SubmitResult :: "SubmitResult \<Rightarrow> json" where
  "json_SubmitResult r = JObj ([(''hash'', jstr (sub_Hash r)), (''successful'', JBool (sub_Successful r))] @
     omit_string ''resultCode'' (sub_ResultCode r) @ omit_int64 ''ledgerSeq'' (sub_LedgerSeq r))"

definition SubmitResult_fields :: "SubmitResult fields" where
  "SubmitResult_fields =
    [(''hash'', put_string (\<lambda>x r. r\<lparr>sub_Hash := x\<rparr>)), (''successful'', put_bool (\<lambda>x r. r\<lparr>sub_Successful := x\<rparr>)),
     (''resultCode'', put_string (\<lambda>x r. r\<lparr>sub_ResultCode := x\<rparr>)),
     (''ledgerSeq'', put_int64 (\<lambda>x r. r\<lparr>sub_LedgerSeq := x\<rparr>))]"

definition zero_SubmitResult :: SubmitResult where
  "zero_SubmitResult = \<lparr>sub_Hash = [], sub_Successful = False, sub_ResultCode = [], sub_LedgerSeq = 0\<rparr>"

subsection \<open>What is written is read back\<close>

lemmas decode_simps = unmarshal_struct_def Decode_def same_name_def jstr_def omit_string_def omit_int64_def

lemma LedgerInfo_roundtrip: "unmarshal_struct LedgerInfo_fields zero_LedgerInfo (json_LedgerInfo l) = Some l"
  by (simp add: decode_simps json_LedgerInfo_def LedgerInfo_fields_def zero_LedgerInfo_def)

lemma Balance_roundtrip:
  assumes "valid_utf8 (AssetCode b)" "valid_utf8 (AssetIssuer b)" "valid_utf8 (bal_Balance b)" "valid_utf8 (bal_Limit b)"
  shows "unmarshal_struct Balance_fields zero_Balance (json_Balance b) = Some b"
  using assms by (simp add: decode_simps json_Balance_def Balance_fields_def zero_Balance_def)

lemma TrustlineInfo_roundtrip:
  assumes "valid_utf8 (tl_Balance t)" "valid_utf8 (tl_Limit t)"
  shows "unmarshal_struct TrustlineInfo_fields zero_TrustlineInfo (json_TrustlineInfo t) = Some t"
  using assms by (simp add: decode_simps json_TrustlineInfo_def TrustlineInfo_fields_def zero_TrustlineInfo_def)

lemma SubmitResult_roundtrip:
  assumes "valid_utf8 (sub_Hash r)" "valid_utf8 (sub_ResultCode r)"
  shows "unmarshal_struct SubmitResult_fields zero_SubmitResult (json_SubmitResult r) = Some r"
  using assms by (simp add: decode_simps json_SubmitResult_def SubmitResult_fields_def zero_SubmitResult_def)

definition utf8_Balance :: "Balance \<Rightarrow> bool" where
  "utf8_Balance b \<longleftrightarrow> valid_utf8 (AssetCode b) \<and> valid_utf8 (AssetIssuer b) \<and> valid_utf8 (bal_Balance b) \<and> valid_utf8 (bal_Limit b)"

lemma AccountInfo_roundtrip:
  assumes "valid_utf8 (acc_Address i)" and "list_all utf8_Balance (acc_Balances i)"
  shows "unmarshal_struct AccountInfo_fields zero_AccountInfo (json_AccountInfo i) = Some i"
proof -
  define el where "el = unmarshal_struct Balance_fields zero_Balance"
  have "unmarshal_list el (json_slice json_Balance (acc_Balances i)) = Some (acc_Balances i)"
    using those_map [of "acc_Balances i" el json_Balance] assms(2)
    by (simp add: unmarshal_list_def json_slice_def utf8_Balance_def list_all_iff Balance_roundtrip el_def)
  then show ?thesis using assms(1)
    by (simp add: decode_simps put_list_def json_AccountInfo_def AccountInfo_fields_def zero_AccountInfo_def flip: el_def)
qed

lemma SimulateResult_roundtrip:
  assumes "valid_utf8 (sr_Error r)" "valid_utf8 (sr_TransactionDataXDR r)" "valid_utf8 (sr_ResultXDR r)"
    and "list_all valid_utf8 (sr_AuthXDR r)"
  shows "unmarshal_struct SimulateResult_fields zero_SimulateResult (json_SimulateResult r) = Some r"
proof -
  have "unmarshal_list unmarshal_string (JArr (map jstr (sr_AuthXDR r))) = Some (sr_AuthXDR r)"
    using those_map [of "sr_AuthXDR r" unmarshal_string jstr] assms(4)
    by (simp add: unmarshal_list_def unmarshal_string_def list_all_iff jstr_def)
  then show ?thesis using assms(1-3)
    by (simp add: decode_simps put_list_def json_SimulateResult_def SimulateResult_fields_def zero_SimulateResult_def)
qed

section \<open>Paths\<close>

text \<open>\<open>url.PathEscape\<close> and the reading of an escaped path as its decoded segments.\<close>

definition hex_digit :: "nat \<Rightarrow> char" where
  "hex_digit n = (if n < 10 then char_of (48 + n) else char_of (55 + n))"

definition hex_val :: "char \<Rightarrow> nat option" where
  "hex_val c = (let n = of_char c in
     if 48 \<le> n \<and> n \<le> 57 then Some (n - 48) else if 65 \<le> n \<and> n \<le> 70 then Some (n - 55)
     else if 97 \<le> n \<and> n \<le> 102 then Some (n - 87) else None)"

definition unreserved :: "char \<Rightarrow> bool" where
  "unreserved c \<longleftrightarrow> (let n = of_char c :: nat in (48 \<le> n \<and> n \<le> 57) \<or> (65 \<le> n \<and> n \<le> 90) \<or> (97 \<le> n \<and> n \<le> 122)) \<or>
     c \<in> set ''-_.~''"

definition PathEscape :: "string \<Rightarrow> string" where
  "PathEscape s = concat (map (\<lambda>c. if unreserved c \<or> c \<in> set ''$&+:=@'' then [c]
     else [CHR ''%'', hex_digit (of_char c div 16), hex_digit (of_char c mod 16)]) s)"

fun PathUnescape :: "string \<Rightarrow> string option" where
  "PathUnescape [] = Some []"
| "PathUnescape (c # cs) =
     (if c = CHR ''%'' then
        (case cs of
           a # b # r \<Rightarrow>
             (case (hex_val a, hex_val b) of
                (Some x, Some y) \<Rightarrow> map_option ((#) (char_of (16 * x + y))) (PathUnescape r)
              | _ \<Rightarrow> None)
         | _ \<Rightarrow> None)
      else map_option ((#) c) (PathUnescape cs))"

fun split_slash :: "string \<Rightarrow> string list" where
  "split_slash [] = [[]]"
| "split_slash (c # cs) =
     (if c = CHR ''/'' then [] # split_slash cs
      else (case split_slash cs of [] \<Rightarrow> [[c]] | x # xs \<Rightarrow> (c # x) # xs))"

lemma split_slash_not_Nil [simp]: "split_slash s \<noteq> []"
  by (cases s) (auto split: list.splits)

lemma split_slash_plain [simp]: "CHR ''/'' \<notin> set s \<Longrightarrow> split_slash s = [s]"
  by (induction s) auto

lemma split_slash_append [simp]: "CHR ''/'' \<notin> set s \<Longrightarrow> split_slash (s @ CHR ''/'' # t) = s # split_slash t"
  by (induction s) auto

definition path_segments :: "string \<Rightarrow> string list option" where
  "path_segments p = (case p of [] \<Rightarrow> None | c # cs \<Rightarrow> if c = CHR ''/'' then those (map PathUnescape (split_slash cs)) else None)"

text \<open>A path the router takes as it is: no empty, \<open>.\<close> or \<open>..\<close> segment, no query or fragment in it.\<close>

definition clean_path :: "string \<Rightarrow> bool" where
  "clean_path p \<longleftrightarrow> p \<noteq> [] \<and> list_all (\<lambda>s. s \<notin> {[], ''.'', ''..''}) (split_slash (tl p)) \<and> set p \<inter> set ''?#'' = {}"

lemma hex_val_digit: "n < 16 \<Longrightarrow> hex_val (hex_digit n) = Some n"
  by (auto simp: hex_val_def hex_digit_def Let_def)

lemma unreserved_plain: "unreserved c \<Longrightarrow> c \<notin> set ''%/?#''"
  by (auto simp: unreserved_def)

lemma hex_digit_plain: "n < 16 \<Longrightarrow> hex_digit n \<notin> set ''%/?#.''"
  using hex_val_digit [of n] by (auto simp: hex_val_def)

lemma PathEscape_Cons: "PathEscape (c # s) = (if unreserved c \<or> c \<in> set ''$&+:=@'' then [c]
     else [CHR ''%'', hex_digit (of_char c div 16), hex_digit (of_char c mod 16)]) @ PathEscape s"
  by (simp add: PathEscape_def)

lemma PathEscape_Nil [simp]: "PathEscape [] = []"
  by (simp add: PathEscape_def)

lemma of_char_nibbles: "of_char c div 16 < (16 :: nat)" "of_char c mod 16 < (16 :: nat)"
proof -
  have "of_char c < (256 :: nat)" by simp
  then show "of_char c div 16 < (16 :: nat)" by linarith
qed simp

lemma PathUnescape_PathEscape: "PathUnescape (PathEscape s) = Some s"
proof (induction s)
  case (Cons c s)
  have "hex_val (hex_digit (of_char c div 16)) = Some (of_char c div 16)"
    "hex_val (hex_digit (of_char c mod 16)) = Some (of_char c mod 16)"
    by (rule hex_val_digit, rule of_char_nibbles)+
  then show ?case using Cons unreserved_plain [of c] by (auto simp: PathEscape_Cons)
qed simp

lemma PathEscape_plain: "set (PathEscape s) \<inter> set ''/?#'' = {}"
proof (induction s)
  case (Cons c s)
  have "hex_digit (of_char c div 16) \<notin> set ''%/?#.''" "hex_digit (of_char c mod 16) \<notin> set ''%/?#.''"
    by (rule hex_digit_plain, rule of_char_nibbles)+
  then show ?case using Cons unreserved_plain [of c] by (auto simp: PathEscape_Cons)
qed simp

lemma PathEscape_dots: "PathEscape s \<in> {[], ''.'', ''..''} \<longleftrightarrow> s \<in> {[], ''.'', ''..''}"
proof
  assume "PathEscape s \<in> {[], ''.'', ''..''}"
  moreover have "PathUnescape [] = Some []" "PathUnescape ''.'' = Some ''.''" "PathUnescape ''..'' = Some ''..''" by simp_all
  ultimately show "s \<in> {[], ''.'', ''..''}" using PathUnescape_PathEscape [of s] by auto
next
  assume "s \<in> {[], ''.'', ''..''}"
  then show "PathEscape s \<in> {[], ''.'', ''..''}" by (auto simp: PathEscape_def unreserved_def)
qed

section \<open>Clients of the internal API\<close>

text \<open>
  A request as a client builds it: method, escaped path below the base URL, query values, headers,
  body. A transport sends it and returns the status and the body as the JSON decoder sees it, or an
  error; it may change the state of the process that answers.
\<close>

record client_request =
  cr_Method :: string
  cr_Path :: string
  cr_Query :: "(string \<times> string) list"
  cr_Header :: "(string \<times> string) list"
  cr_Body :: http_body

type_synonym 'd transport = "client_request \<Rightarrow> 'd \<Rightarrow> (nat \<times> http_body) res \<times> 'd"

definition lookup :: "(string \<times> string) list \<Rightarrow> string \<Rightarrow> string" where
  "lookup kvs k = (case map_of kvs k of None \<Rightarrow> [] | Some v \<Rightarrow> v)"

definition server_request :: "client_request \<Rightarrow> string list \<Rightarrow> http_request" where
  "server_request req segs = \<lparr>req_Method = cr_Method req, req_Path = segs, req_Query = lookup (cr_Query req),
     req_Header = lookup (cr_Header req), req_Body = cr_Body req, req_PathValues = [], req_Claims = None\<rparr>"

text \<open>The envelopes on the wire; the bodies of bare status responses are no JSON objects.\<close>

fun wire_body :: "('p \<Rightarrow> json) \<Rightarrow> 'p response_body \<Rightarrow> http_body" where
  "wire_body enc (DataBody p) = BodyDoc (JObj [(''data'', enc p)])"
| "wire_body enc (ErrorBody code msg) = BodyDoc (JObj [(''error'', JObj [(''code'', jstr code), (''message'', jstr msg)])])"
| "wire_body enc NoBody = BodyBad"

text \<open>
  What is relied on of the network between two processes: a request for a clean path reaches the
  handler with its decoded segments, and the answer (when it is no redirect) comes back.
\<close>

definition delivered :: "'d transport \<Rightarrow> ('d, 'p) handler \<Rightarrow> ('p \<Rightarrow> json) \<Rightarrow> bool" where
  "delivered send h enc \<longleftrightarrow> (\<forall>req d segs resp d'. clean_path (cr_Path req) \<longrightarrow> path_segments (cr_Path req) = Some segs \<longrightarrow>
     h (server_request req segs) d = (resp, d') \<longrightarrow> resp_Status resp \<notin> {300..<400} \<longrightarrow>
     send req d = (Inr (resp_Status resp, wire_body enc (resp_Body resp)), d'))"

lemma deliveredD:
  assumes "delivered send h enc" and "clean_path (cr_Path req)" and "path_segments (cr_Path req) = Some segs"
    and "h (server_request req segs) d = (resp, d')" and "resp_Status resp \<notin> {300..<400}"
  shows "send req d = (Inr (resp_Status resp, wire_body enc (resp_Body resp)), d')"
  using assms unfolding delivered_def by blast

definition loopback :: "('d, 'p) handler \<Rightarrow> ('p \<Rightarrow> json) \<Rightarrow> 'd transport" where
  "loopback h enc req d =
     (case path_segments (cr_Path req) of
        None \<Rightarrow> (Inl (Opaque ''invalid URL escape''), d)
      | Some segs \<Rightarrow> (case h (server_request req segs) d of
                      (resp, d') \<Rightarrow> (Inr (resp_Status resp, wire_body enc (resp_Body resp)), d')))"

lemma delivered_loopback: "delivered (loopback h enc) h enc"
  by (simp add: delivered_def loopback_def)

subsection \<open>\<open>httpadapter.ChainGateway.do\<close>\<close>

text \<open>The error body is decoded as far as it can be; errors of the decoding are ignored.\<close>

definition errorBody_fields :: "(string \<times> string) fields" where
  "errorBody_fields = [(''code'', put_string (\<lambda>x (_, m). (x, m))), (''message'', put_string (\<lambda>x (c, _). (c, x)))]"

definition decodeErrorBody :: "http_body \<Rightarrow> string \<times> string" where
  "decodeErrorBody b =
     snd (Decode [(''error'', \<lambda>v s. case v of JObj ms \<Rightarrow> Some (snd (decode_members errorBody_fields ms s)) | _ \<Rightarrow> Some s)] b ([], []))"

text \<open>\<open>Data\<close> is kept as the raw value, \<open>None\<close> when the envelope has no such member.\<close>

definition envelope_fields :: "json option fields" where
  "envelope_fields = [(''data'', \<lambda>v _. Some (Some v))]"

definition doRequest ::
  "'d transport \<Rightarrow> string \<Rightarrow> string \<Rightarrow> string \<Rightarrow> (string \<times> string) list \<Rightarrow> http_body \<Rightarrow> (json \<Rightarrow> 'a option) option \<Rightarrow> 'a \<Rightarrow> 'd \<Rightarrow>
     'a res \<times> 'd" where
  "doRequest send internalKey meth path query body out zero d =
     (case send \<lparr>cr_Method = meth, cr_Path = path, cr_Query = query,
                 cr_Header = [(''Content-Type'', ''application/json''), (''X-Internal-Api-Key'', internalKey)],
                 cr_Body = body\<rparr> d of
        (Inl e, d1) \<Rightarrow> (Inl (Wrap (''httpadapter: '' @ meth @ '' '' @ path) e), d1)
      | (Inr (status, rbody), d1) \<Rightarrow>
          (if 400 \<le> status then
             (case decodeErrorBody rbody of
                (code, message) \<Rightarrow>
                  if code \<noteq> [] then (Inl (Opaque (code @ '': '' @ message)), d1)
                  else (Inl (Opaque (''httpadapter: '' @ meth @ '' '' @ path @ '': status '' @ string_of_nat status)), d1))
           else (case out of
                   None \<Rightarrow> (Inr zero, d1)
                 | Some unmarshal \<Rightarrow>
                     (case Decode envelope_fields rbody None of
                        (Some _, _) \<Rightarrow> (Inl (Wrap ''httpadapter: decode envelope'' (Opaque ''json'')), d1)
                      | (None, None) \<Rightarrow> (Inl (Opaque ''unexpected end of JSON input''), d1)
                      | (None, Some data) \<Rightarrow>
                          (case unmarshal data of None \<Rightarrow> (Inl (Opaque ''json''), d1) | Some v \<Rightarrow> (Inr v, d1))))))"

text \<open>A request that reaches its handler.\<close>

lemma doRequest_delivered:
  assumes "delivered send h enc" and "clean_path path" and "path_segments path = Some segs"
    and "h (server_request \<lparr>cr_Method = meth, cr_Path = path, cr_Query = query,
       cr_Header = [(''Content-Type'', ''application/json''), (''X-Internal-Api-Key'', key)], cr_Body = body\<rparr> segs) d = (resp, d')"
    and "resp_Status resp \<notin> {300..<400}"
  shows "doRequest send key meth path query body out zero d =
    (if 400 \<le> resp_Status resp then
       (case decodeErrorBody (wire_body enc (resp_Body resp)) of
          (code, message) \<Rightarrow>
            if code \<noteq> [] then (Inl (Opaque (code @ '': '' @ message)), d')
            else (Inl (Opaque (''httpadapter: '' @ meth @ '' '' @ path @ '': status '' @ string_of_nat (resp_Status resp))), d'))
     else (case out of
             None \<Rightarrow> (Inr zero, d')
           | Some unmarshal \<Rightarrow>
               (case Decode envelope_fields (wire_body enc (resp_Body resp)) None of
                  (Some _, _) \<Rightarrow> (Inl (Wrap ''httpadapter: decode envelope'' (Opaque ''json'')), d')
                | (None, None) \<Rightarrow> (Inl (Opaque ''unexpected end of JSON input''), d')
                | (None, Some data) \<Rightarrow>
                    (case unmarshal data of None \<Rightarrow> (Inl (Opaque ''json''), d') | Some v \<Rightarrow> (Inr v, d')))))"
proof -
  let ?req = "\<lparr>cr_Method = meth, cr_Path = path, cr_Query = query,
      cr_Header = [(''Content-Type'', ''application/json''), (''X-Internal-Api-Key'', key)], cr_Body = body\<rparr>"
  have p: "cr_Path ?req = path" by simp
  have "send ?req d = (Inr (resp_Status resp, wire_body enc (resp_Body resp)), d')"
    by (rule deliveredD [OF assms(1), of ?req, unfolded p, OF assms(2-5)])
  then show ?thesis unfolding doRequest_def by (simp only: prod.case sum.case)
qed

lemma decodeErrorBody_error: "decodeErrorBody (wire_body enc (ErrorBody code msg)) = (utf8_coerce code, utf8_coerce msg)"
  by (simp add: decodeErrorBody_def Decode_def same_name_def errorBody_fields_def jstr_def)

lemma decodeErrorBody_none [simp]: "decodeErrorBody BodyBad = ([], [])"
  by (simp add: decodeErrorBody_def Decode_def)

lemma envelope_data: "Decode envelope_fields (wire_body enc (DataBody p)) None = (None, Some (enc p))"
  by (simp add: Decode_def same_name_def envelope_fields_def)

end
