(* ===== verification/ChainService.thy ===== *)
theory ChainService
  imports Nethost Wire
begin

text \<open>
  \<open>backend/services/chain\<close>, \<open>backend/cmd/gatewaysvc\<close> and the two adapters of the chain port: the
  service that turns answers of Horizon, of the Soroban RPC and of friendbot into the values of
  \<open>ports.go\<close>, its internal HTTP API, the client \<open>httpadapter\<close> and the in-process \<open>directadapter\<close>. The
  SDK's Horizon and RPC clients are parameters.
\<close>

section \<open>The SDK's clients\<close>

text \<open>
  An error of the Horizon client is a \<open>horizonclient.Error\<close>, with the status of its problem document,
  its transaction result code (if \<open>ResultCodes\<close> finds one) and its text, or some other error.
\<close>

datatype hz_error = HorizonError nat "string option" string | HorizonOther go_error

primrec hz_go :: "hz_error \<Rightarrow> go_error" where
  "hz_go (HorizonError _ _ t) = Opaque t"
| "hz_go (HorizonOther e) = e"

definition IsNotFoundError :: "hz_error \<Rightarrow> bool" where
  "IsNotFoundError e = (case e of HorizonError status _ _ \<Rightarrow> status = 404 | HorizonOther _ \<Rightarrow> False)"

record HorizonBalance =
  hb_Type :: string
  hb_Code :: string
  hb_Issuer :: string
  hb_Balance :: string
  hb_Limit :: string

record horizon_client =
  AccountDetail :: "string \<Rightarrow> hz_error + i64 \<times> HorizonBalance list"
  Root_HorizonSequence :: "hz_error + 32 word"
  LedgerDetail :: "32 word \<Rightarrow> hz_error + 32 word \<times> time"
  SubmitTransactionXDR :: "string \<Rightarrow> hz_error + string \<times> bool \<times> 32 word" \<comment> \<open>hash, successful, ledger\<close>

record SimulateResponse =
  rs_Error :: string
  rs_MinResourceFee :: i64
  rs_TransactionDataXDR :: string
  rs_Results :: "(string option \<times> string list option) list" \<comment> \<open>\<open>ReturnValueXDR\<close>, \<open>AuthXDR\<close>\<close>

record rpc_client =
  rpc_SimulateTransaction :: "string \<Rightarrow> SimulateResponse res"
  SendTransaction :: "string \<Rightarrow> (string \<times> string \<times> string) res" \<comment> \<open>status, hash, \<open>ErrorResultXDR\<close>\<close>
  PollTransaction :: "string \<Rightarrow> string res" \<comment> \<open>final status\<close>

section \<open>Service\<close>

definition sendTransactionStatusError :: string where "sendTransactionStatusError = ''ERROR''"
definition TransactionStatusSuccess :: string where "TransactionStatusSuccess = ''SUCCESS''"
definition ErrSorobanDisabled :: go_error where "ErrSorobanDisabled = Sentinel ''chain: soroban rpc not configured''"
definition ErrFundingDisabled :: go_error where "ErrFundingDisabled = Sentinel ''chain: friendbot not configured''"

record chain_Config =
  HorizonURL :: string
  SorobanRPCURL :: string
  FriendbotURL :: string

record chain_Service =
  ch_cfg :: chain_Config
  ch_hc :: http_client
  ch_horizon :: horizon_client
  ch_rpc :: "rpc_client option"

definition NewChainService :: "chain_Config \<Rightarrow> http_client \<Rightarrow> (string \<Rightarrow> horizon_client) \<Rightarrow> (string \<Rightarrow> rpc_client) \<Rightarrow> chain_Service" where
  "NewChainService cfg hc mkHorizon mkRPC =
     \<lparr>ch_cfg = cfg, ch_hc = hc, ch_horizon = mkHorizon (HorizonURL cfg),
      ch_rpc = (if SorobanRPCURL cfg \<noteq> [] then Some (mkRPC (SorobanRPCURL cfg)) else None)\<rparr>"

definition toBalances :: "HorizonBalance list \<Rightarrow> Balance list" where
  "toBalances hb = map (\<lambda>b. \<lparr>AssetCode = (if hb_Type b = ''native'' then ''native'' else hb_Code b),
     AssetIssuer = hb_Issuer b, bal_Balance = hb_Balance b, bal_Limit = hb_Limit b\<rparr>) hb"

definition chain_GetAccount :: "chain_Service \<Rightarrow> string \<Rightarrow> AccountInfo res" where
  "chain_GetAccount s address =
     (case AccountDetail (ch_horizon s) address of
        Inl e \<Rightarrow>
          if IsNotFoundError e then Inr \<lparr>acc_Address = address, acc_Sequence = 0, acc_Balances = [], acc_Exists = False\<rparr>
          else Inl (Wrap ''chain: account detail'' (hz_go e))
      | Inr (sq, balances) \<Rightarrow>
          Inr \<lparr>acc_Address = address, acc_Sequence = sq, acc_Balances = toBalances balances, acc_Exists = True\<rparr>)"

fun find_trustline :: "string \<Rightarrow> string \<Rightarrow> HorizonBalance list \<Rightarrow> TrustlineInfo" where
  "find_trustline assetCode assetIssuer [] = \<lparr>tl_Exists = False, tl_Balance = [], tl_Limit = []\<rparr>"
| "find_trustline assetCode assetIssuer (b # bs) =
     (if assetCode = ''native'' \<and> hb_Type b = ''native''
      then \<lparr>tl_Exists = True, tl_Balance = hb_Balance b, tl_Limit = []\<rparr>
      else if hb_Code b = assetCode \<and> hb_Issuer b = assetIssuer
      then \<lparr>tl_Exists = True, tl_Balance = hb_Balance b, tl_Limit = hb_Limit b\<rparr>
      else find_trustline assetCode assetIssuer bs)"

definition chain_GetTrustline :: "chain_Service \<Rightarrow> string \<Rightarrow> string \<Rightarrow> string \<Rightarrow> TrustlineInfo res" where
  "chain_GetTrustline s address assetCode assetIssuer =
     (case AccountDetail (ch_horizon s) address of
        Inl e \<Rightarrow>
          if IsNotFoundError e then Inr \<lparr>tl_Exists = False, tl_Balance = [], tl_Limit = []\<rparr>
          else Inl (Wrap ''chain: account detail'' (hz_go e))
      | Inr (_, balances) \<Rightarrow> Inr (find_trustline assetCode assetIssuer balances))"

definition chain_GetLedger :: "chain_Service \<Rightarrow> LedgerInfo res" where
  "chain_GetLedger s =
     (case Root_HorizonSequence (ch_horizon s) of
        Inl e \<Rightarrow> Inl (Wrap ''chain: root'' (hz_go e))
      | Inr sq \<Rightarrow>
          (case LedgerDetail (ch_horizon s) sq of
             Inl e \<Rightarrow> Inl (Wrap ''chain: ledger detail'' (hz_go e))
           | Inr (lseq, closed) \<Rightarrow> Inr \<lparr>ldg_Sequence = scast lseq, ldg_CloseTime = word_of_int (time_Unix closed)\<rparr>))"

definition chain_SimulateTransaction :: "chain_Service \<Rightarrow> string \<Rightarrow> SimulateResult res" where
  "chain_SimulateTransaction s unsignedXDR =
     (case ch_rpc s of
        None \<Rightarrow> Inl ErrSorobanDisabled
      | Some rpc \<Rightarrow>
          (case rpc_SimulateTransaction rpc unsignedXDR of
             Inl e \<Rightarrow> Inl (Wrap ''chain: simulate'' e)
           | Inr resp \<Rightarrow>
               if rs_Error resp \<noteq> []
               then Inr \<lparr>sr_Success = False, sr_Error = rs_Error resp, sr_TransactionDataXDR = [], sr_MinResourceFee = 0,
                         sr_ResultXDR = [], sr_AuthXDR = []\<rparr>
               else Inr \<lparr>sr_Success = True, sr_Error = [], sr_TransactionDataXDR = rs_TransactionDataXDR resp,
                         sr_MinResourceFee = rs_MinResourceFee resp,
                         sr_ResultXDR = (case rs_Results resp of (Some v, _) # _ \<Rightarrow> v | _ \<Rightarrow> []),
                         sr_AuthXDR = (case rs_Results resp of (_, Some a) # _ \<Rightarrow> a | _ \<Rightarrow> [])\<rparr>))"

definition chain_SubmitClassic :: "chain_Service \<Rightarrow> string \<Rightarrow> SubmitResult res" where
  "chain_SubmitClassic s signedXDR =
     (case SubmitTransactionXDR (ch_horizon s) signedXDR of
        Inl (HorizonError _ codes _) \<Rightarrow>
          Inr \<lparr>sub_Hash = [], sub_Successful = False,
               sub_ResultCode = (case codes of Some c \<Rightarrow> c | None \<Rightarrow> []), sub_LedgerSeq = 0\<rparr>
      | Inl (HorizonOther e) \<Rightarrow> Inl (Wrap ''chain: submit'' e)
      | Inr (hash, successful, ledger) \<Rightarrow>
          Inr \<lparr>sub_Hash = hash, sub_Successful = successful, sub_ResultCode = [], sub_LedgerSeq = scast ledger\<rparr>)"

definition chain_SubmitSoroban :: "chain_Service \<Rightarrow> string \<Rightarrow> SubmitResult res" where
  "chain_SubmitSoroban s signedXDR =
     (case ch_rpc s of
        None \<Rightarrow> Inl ErrSorobanDisabled
      | Some rpc \<Rightarrow>
          (case SendTransaction rpc signedXDR of
             Inl e \<Rightarrow> Inl (Wrap ''chain: send transaction'' e)
           | Inr (status, hash, errorXDR) \<Rightarrow>
               if status = sendTransactionStatusError
               then Inr \<lparr>sub_Hash = hash, sub_Successful = False, sub_ResultCode = errorXDR, sub_LedgerSeq = 0\<rparr>
               else (case PollTransaction rpc hash of
                       Inl _ \<Rightarrow> Inr \<lparr>sub_Hash = hash, sub_Successful = False, sub_ResultCode = ''PENDING'', sub_LedgerSeq = 0\<rparr>
                     | Inr final \<Rightarrow>
                         Inr \<lparr>sub_Hash = hash, sub_Successful = (final = TransactionStatusSuccess), sub_ResultCode = final,
                              sub_LedgerSeq = 0\<rparr>)))"

subsection \<open>Friendbot\<close>

definition TrimRight :: "string \<Rightarrow> string \<Rightarrow> string" where
  "TrimRight s cutset = rev (dropWhile (\<lambda>c. c \<in> set cutset) (rev s))"

definition QueryEscape :: "string \<Rightarrow> string" where
  "QueryEscape s = concat (map (\<lambda>c. if unreserved c then [c] else if c = CHR '' '' then ''+''
     else [CHR ''%'', hex_digit (of_char c div 16), hex_digit (of_char c mod 16)]) s)"

text \<open>\<open>strings.TrimSpace\<close>: the UTF-8 encodings of the Unicode spaces are stripped at both ends.\<close>

definition space_encodings :: "string list" where
  "space_encodings = map (map char_of) ([[9], [10], [11], [12], [13], [32], [194, 133], [194, 160], [225, 154, 128],
     [226, 128, 168], [226, 128, 169], [226, 128, 175], [226, 129, 159], [227, 128, 128]] @ map (\<lambda>n. [226, 128, n]) [128..<139])"

function strip_prefixes :: "string list \<Rightarrow> string \<Rightarrow> string" where
  "strip_prefixes ps s =
     (case find (\<lambda>p. p \<noteq> [] \<and> s \<noteq> [] \<and> take (length p) s = p) ps of
        Some p \<Rightarrow> strip_prefixes ps (drop (length p) s) | None \<Rightarrow> s)"
  by pat_completeness auto
termination by (relation "measure (length \<circ> snd)") (auto simp: find_Some_iff)

declare strip_prefixes.simps [simp del]

definition TrimSpace :: "string \<Rightarrow> string" where
  "TrimSpace s = rev (strip_prefixes (map rev space_encodings) (rev (strip_prefixes space_encodings s)))"

text \<open>\<open>parse\<close> is \<open>url.Parse\<close> as \<open>http.NewRequest\<close> uses it, \<open>resolve\<close> the parsing of a redirect's location.\<close>

record internet =
  net_parse :: "string \<Rightarrow> url res"
  net_resolve :: "url \<Rightarrow> string \<Rightarrow> url res"
  net_send :: network

definition friendbot_url :: "chain_Service \<Rightarrow> string \<Rightarrow> string" where
  "friendbot_url s address = TrimRight (FriendbotURL (ch_cfg s)) ''/?'' @ ''/?addr='' @ QueryEscape address"

definition chain_Fund :: "chain_Service \<Rightarrow> internet \<Rightarrow> string \<Rightarrow> out_request list \<Rightarrow> unit res \<times> out_request list" where
  "chain_Fund s inet address sent =
     (if FriendbotURL (ch_cfg s) = [] then (Inl ErrFundingDisabled, sent)
      else (case net_parse inet (friendbot_url s address) of
              Inl e \<Rightarrow> (Inl (Wrap ''chain: friendbot fund: build request'' e), sent)
            | Inr u \<Rightarrow>
                (case Client_Do (net_resolve inet) (ch_hc s) (net_send inet)
                        \<lparr>or_Method = ''GET'', or_URL = u, or_Header = [], or_Body = []\<rparr> sent of
                   (Inl e, sent1) \<Rightarrow> (Inl (Wrap ''chain: friendbot fund'' e), sent1)
                 | (Inr resp, sent1) \<Rightarrow>
                     if os_StatusCode resp < 200 \<or> os_StatusCode resp > 299
                     then (Inl (Opaque (''chain: friendbot fund: status '' @ string_of_nat (os_StatusCode resp) @ '': '' @
                                 TrimSpace (take 512 (os_Body resp)))), sent1)
                     else (Inr (), sent1))))"

text \<open>The methods of the service, at a point of its run, as a chain gateway; \<open>directadapter\<close> forwards to them.\<close>

definition chain_ops :: "chain_Service \<Rightarrow> internet \<Rightarrow> out_request list \<Rightarrow> ChainGateway" where
  "chain_ops s inet sent =
     \<lparr>GetAccount = chain_GetAccount s, GetTrustline = chain_GetTrustline s, GetLedger = chain_GetLedger s,
      SimulateTransaction = chain_SimulateTransaction s, SubmitClassic = chain_SubmitClassic s,
      SubmitSoroban = chain_SubmitSoroban s, Fund = (\<lambda>a. fst (chain_Fund s inet a sent))\<rparr>"

definition DirectChainGateway :: "ChainGateway \<Rightarrow> ChainGateway" where
  "DirectChainGateway svc =
     \<lparr>GetAccount = (\<lambda>a. GetAccount svc a), GetTrustline = (\<lambda>a c i. GetTrustline svc a c i), GetLedger = GetLedger svc,
      SimulateTransaction = (\<lambda>x. SimulateTransaction svc x), SubmitClassic = (\<lambda>x. SubmitClassic svc x),
      SubmitSoroban = (\<lambda>x. SubmitSoroban svc x), Fund = (\<lambda>a. Fund svc a)\<rparr>"

section \<open>The internal API\<close>

datatype chain_payload =
    CAccount AccountInfo
  | CTrustline TrustlineInfo
  | CLedger LedgerInfo
  | CSimulate SimulateResult
  | CSubmit SubmitResult
  | CFunded bool
  | CHealth bool

definition writeChainError :: "go_error \<Rightarrow> 'p http_response" where
  "writeChainError e =
     (if errors_Is e ErrSorobanDisabled
      then WriteError 503 ''chain.soroban_disabled'' ''Soroban RPC is not configured on this deployment''
      else if errors_Is e ErrFundingDisabled
      then WriteError 503 ''chain.funding_disabled'' ''friendbot is not configured on this deployment''
      else WriteError 502 ''chain.rpc_unavailable'' (err_text e))"

definition ch_GetAccount :: "ChainGateway \<Rightarrow> ('d, chain_payload) handler" where
  "ch_GetAccount svc r d =
     (case GetAccount svc (PathValue r ''address'') of
        Inl e \<Rightarrow> (WriteError 502 ''chain.rpc_unavailable'' (err_text e), d)
      | Inr info \<Rightarrow> (WriteData 200 (CAccount info), d))"

definition ch_GetTrustline :: "ChainGateway \<Rightarrow> ('d, chain_payload) handler" where
  "ch_GetTrustline svc r d =
     (let address = PathValue r ''address''; code = req_Query r ''code''; issuer = req_Query r ''issuer'' in
      if code = [] then (WriteError 400 ''chain.missing_asset_code'' ''code query param required'', d)
      else (case GetTrustline svc address code issuer of
              Inl e \<Rightarrow> (WriteError 502 ''chain.rpc_unavailable'' (err_text e), d)
            | Inr info \<Rightarrow> (WriteData 200 (CTrustline info), d)))"

definition ch_GetLedger :: "ChainGateway \<Rightarrow> ('d, chain_payload) handler" where
  "ch_GetLedger svc r d =
     (case GetLedger svc of
        Inl e \<Rightarrow> (WriteError 502 ''chain.rpc_unavailable'' (err_text e), d)
      | Inr info \<Rightarrow> (WriteData 200 (CLedger info), d))"

definition oneField :: "string \<Rightarrow> string fields" where
  "oneField name = [(name, put_string (\<lambda>x _. x))]"

definition ch_SimulateTransaction :: "ChainGateway \<Rightarrow> ('d, chain_payload) handler" where
  "ch_SimulateTransaction svc r d =
     (case Decode (oneField ''xdr'') (req_Body r) [] of
        (Some _, _) \<Rightarrow> (WriteError 400 ''chain.bad_request'' ''invalid JSON body'', d)
      | (None, xdr) \<Rightarrow>
          (case SimulateTransaction svc xdr of
             Inl e \<Rightarrow> (writeChainError e, d)
           | Inr result \<Rightarrow> (WriteData 200 (CSimulate result), d)))"

definition ch_SubmitClassic :: "ChainGateway \<Rightarrow> ('d, chain_payload) handler" where
  "ch_SubmitClassic svc r d =
     (case Decode (oneField ''xdr'') (req_Body r) [] of
        (Some _, _) \<Rightarrow> (WriteError 400 ''chain.bad_request'' ''invalid JSON body'', d)
      | (None, xdr) \<Rightarrow>
          (case SubmitClassic svc xdr of
             Inl e \<Rightarrow> (writeChainError e, d)
           | Inr result \<Rightarrow> (WriteData 200 (CSubmit result), d)))"

definition ch_SubmitSoroban :: "ChainGateway \<Rightarrow> ('d, chain_payload) handler" where
  "ch_SubmitSoroban svc r d =
     (case Decode (oneField ''xdr'') (req_Body r) [] of
        (Some _, _) \<Rightarrow> (WriteError 400 ''chain.bad_request'' ''invalid JSON body'', d)
      | (None, xdr) \<Rightarrow>
          (case SubmitSoroban svc xdr of
             Inl e \<Rightarrow> (writeChainError e, d)
           | Inr result \<Rightarrow> (WriteData 200 (CSubmit result), d)))"

definition ch_Fund :: "ChainGateway \<Rightarrow> ('d, chain_payload) handler" where
  "ch_Fund svc r d =
     (case Decode (oneField ''address'') (req_Body r) [] of
        (Some _, _) \<Rightarrow> (WriteError 400 ''chain.bad_request'' ''invalid JSON body'', d)
      | (None, address) \<Rightarrow>
          (case Fund svc address of
             Inl e \<Rightarrow> (writeChainError e, d)
           | Inr _ \<Rightarrow> (WriteData 200 (CFunded True), d)))"

definition chain_RegisterRoutes :: "ChainGateway \<Rightarrow> (string \<times> segment list \<times> ('d, chain_payload) handler) list" where
  "chain_RegisterRoutes svc =
    [(''GET'', [Lit ''internal'', Lit ''accounts'', Wild ''address''], ch_GetAccount svc),
     (''GET'', [Lit ''internal'', Lit ''accounts'', Wild ''address'', Lit ''trustline''], ch_GetTrustline svc),
     (''GET'', [Lit ''internal'', Lit ''ledger''], ch_GetLedger svc),
     (''POST'', [Lit ''internal'', Lit ''soroban'', Lit ''simulate''], ch_SimulateTransaction svc),
     (''POST'', [Lit ''internal'', Lit ''submit'', Lit ''classic''], ch_SubmitClassic svc),
     (''POST'', [Lit ''internal'', Lit ''submit'', Lit ''soroban''], ch_SubmitSoroban svc),
     (''POST'', [Lit ''internal'', Lit ''fund''], ch_Fund svc)]"

definition gatewaysvc :: "string \<Rightarrow> ChainGateway \<Rightarrow> ('d, chain_payload) handler" where
  "gatewaysvc internalKey svc r d =
     (if req_Path r = [''health''] \<and> method_matches ''GET'' (req_Method r) then HealthHandler CHealth True r d
      else if req_Path r = [''internal''] then (Response 307 NoBody, d)
      else if take 1 (req_Path r) = [''internal'']
      then RequireInternalKey internalKey (ServeMux (chain_RegisterRoutes svc) False) r d
      else (Response (if req_Path r = [''health''] then 405 else 404) NoBody, d))"

definition hostOf :: "(string \<Rightarrow> url res) \<Rightarrow> string \<Rightarrow> string" where
  "hostOf parse rawURL = (case parse rawURL of Inl _ \<Rightarrow> [] | Inr u \<Rightarrow> Hostname u)"

definition gateway_client :: "(string \<Rightarrow> url res) \<Rightarrow> chain_Config \<Rightarrow> http_client" where
  "gateway_client parse cfg =
     Client (map (\<lambda>h. (h, True)) (filter (\<lambda>h. h \<noteq> [])
       (map (hostOf parse) [HorizonURL cfg, SorobanRPCURL cfg, FriendbotURL cfg])))"

text \<open>The health payload: status and readiness.\<close>

fun json_chain_payload :: "chain_payload \<Rightarrow> json" where
  "json_chain_payload (CAccount i) = json_AccountInfo i"
| "json_chain_payload (CTrustline t) = json_TrustlineInfo t"
| "json_chain_payload (CLedger l) = json_LedgerInfo l"
| "json_chain_payload (CSimulate r) = json_SimulateResult r"
| "json_chain_payload (CSubmit r) = json_SubmitResult r"
| "json_chain_payload (CFunded b) = JObj [(''funded'', JBool b)]"
| "json_chain_payload (CHealth b) = JObj [(''status'', JStr ''ok''), (''db_ready'', JBool b)]"

section \<open>The HTTP adapter\<close>

definition HttpChainGateway :: "unit transport \<Rightarrow> string \<Rightarrow> ChainGateway" where
  "HttpChainGateway send key =
     \<lparr>GetAccount = (\<lambda>address. fst (doRequest send key ''GET'' (''/internal/accounts/'' @ PathEscape address) [] BodyEOF
        (Some (unmarshal_struct AccountInfo_fields zero_AccountInfo)) zero_AccountInfo ())),
      GetTrustline = (\<lambda>address assetCode assetIssuer. fst (doRequest send key ''GET''
        (''/internal/accounts/'' @ PathEscape address @ ''/trustline'') [(''code'', assetCode), (''issuer'', assetIssuer)] BodyEOF
        (Some (unmarshal_struct TrustlineInfo_fields zero_TrustlineInfo)) zero_TrustlineInfo ())),
      GetLedger = fst (doRequest send key ''GET'' ''/internal/ledger'' [] BodyEOF
        (Some (unmarshal_struct LedgerInfo_fields zero_LedgerInfo)) zero_LedgerInfo ()),
      SimulateTransaction = (\<lambda>unsignedXDR. fst (doRequest send key ''POST'' ''/internal/soroban/simulate'' []
        (BodyDoc (JObj [(''xdr'', jstr unsignedXDR)])) (Some (unmarshal_struct SimulateResult_fields zero_SimulateResult))
        zero_SimulateResult ())),
      SubmitClassic = (\<lambda>signedXDR. fst (doRequest send key ''POST'' ''/internal/submit/classic'' []
        (BodyDoc (JObj [(''xdr'', jstr signedXDR)])) (Some (unmarshal_struct SubmitResult_fields zero_SubmitResult))
        zero_SubmitResult ())),
      SubmitSoroban = (\<lambda>signedXDR. fst (doRequest send key ''POST'' ''/internal/submit/soroban'' []
        (BodyDoc (JObj [(''xdr'', jstr signedXDR)])) (Some (unmarshal_struct SubmitResult_fields zero_SubmitResult))
        zero_SubmitResult ())),
      Fund = (\<lambda>address. fst (doRequest send key ''POST'' ''/internal/fund'' []
        (BodyDoc (JObj [(''address'', jstr address)])) None () ()))\<rparr>"

end
