(* ===== verification/ChainProps.thy ===== *)
theory ChainProps
  imports ChainService
begin

text \<open>
  The two adapters of the chain port are interchangeable, the gateway reports success only when the
  network did, and friendbot calls stay on the allow-list.
\<close>

section \<open>Answers over the wire\<close>

text \<open>A struct that is read back as it was written: its encoder, its decoder, and the values it holds for.\<close>

locale wire_struct =
  fixes enc :: "'a \<Rightarrow> json" and fs :: "'a fields" and zero :: 'a and ok :: "'a \<Rightarrow> bool"
  assumes read_back: "ok v \<Longrightarrow> unmarshal_struct fs zero (enc v) = Some v"
begin

lemma do_data:
  assumes "delivered send h encp" and "clean_path path" and "path_segments path = Some segs"
    and "h (server_request \<lparr>cr_Method = meth, cr_Path = path, cr_Query = query,
       cr_Header = [(''Content-Type'', ''application/json''), (''X-Internal-Api-Key'', key)], cr_Body = body\<rparr> segs) d =
       (WriteData 200 p, d')"
    and "encp p = enc v" and "ok v"
  shows "doRequest send key meth path query body (Some (unmarshal_struct fs zero)) zero d = (Inr v, d')"
proof -
  have "resp_Status (WriteData 200 p) \<notin> {300..<400}" by (simp add: WriteData_def)
  then show ?thesis
    by (subst doRequest_delivered [OF assms(1-4)], assumption)
      (simp add: WriteData_def envelope_data assms(5) read_back [OF assms(6)] del: wire_body.simps)
qed

end

definition utf8_AccountInfo :: "AccountInfo \<Rightarrow> bool" where
  "utf8_AccountInfo i \<longleftrightarrow> valid_utf8 (acc_Address i) \<and> list_all utf8_Balance (acc_Balances i)"

definition utf8_TrustlineInfo :: "TrustlineInfo \<Rightarrow> bool" where
  "utf8_TrustlineInfo t \<longleftrightarrow> valid_utf8 (tl_Balance t) \<and> valid_utf8 (tl_Limit t)"

definition utf8_SimulateResult :: "SimulateResult \<Rightarrow> bool" where
  "utf8_SimulateResult r \<longleftrightarrow> valid_utf8 (sr_Error r) \<and> valid_utf8 (sr_TransactionDataXDR r) \<and> valid_utf8 (sr_ResultXDR r) \<and>
     list_all valid_utf8 (sr_AuthXDR r)"

definition utf8_SubmitResult :: "SubmitResult \<Rightarrow> bool" where
  "utf8_SubmitResult r \<longleftrightarrow> valid_utf8 (sub_Hash r) \<and> valid_utf8 (sub_ResultCode r)"

interpretation account: wire_struct json_AccountInfo AccountInfo_fields zero_AccountInfo utf8_AccountInfo
  by unfold_locales (simp add: utf8_AccountInfo_def AccountInfo_roundtrip)

interpretation trustline: wire_struct json_TrustlineInfo TrustlineInfo_fields zero_TrustlineInfo utf8_TrustlineInfo
  by unfold_locales (simp add: utf8_TrustlineInfo_def TrustlineInfo_roundtrip)

interpretation ledger: wire_struct json_LedgerInfo LedgerInfo_fields zero_LedgerInfo "\<lambda>_. True"
  by unfold_locales (rule LedgerInfo_roundtrip)

interpretation simulate: wire_struct json_SimulateResult SimulateResult_fields zero_SimulateResult utf8_SimulateResult
  by unfold_locales (simp add: utf8_SimulateResult_def SimulateResult_roundtrip)

interpretation submit: wire_struct json_SubmitResult SubmitResult_fields zero_SubmitResult utf8_SubmitResult
  by unfold_locales (simp add: utf8_SubmitResult_def SubmitResult_roundtrip)

lemma do_error:
  assumes "delivered send h encp" and "clean_path path" and "path_segments path = Some segs"
    and "h (server_request \<lparr>cr_Method = meth, cr_Path = path, cr_Query = query,
       cr_Header = [(''Content-Type'', ''application/json''), (''X-Internal-Api-Key'', key)], cr_Body = body\<rparr> segs) d =
       (WriteError st code msg, d')"
    and "400 \<le> st" and "valid_utf8 code" and "code \<noteq> []"
  shows "doRequest send key meth path query body out zero d = (Inl (Opaque (code @ '': '' @ utf8_coerce msg)), d')"
proof -
  have "resp_Status (WriteError st code msg) \<notin> {300..<400}" using assms(5) by (simp add: WriteError_def)
  then show ?thesis
    by (subst doRequest_delivered [OF assms(1-4)], assumption)
      (use assms(5-7) in \<open>simp add: WriteError_def decodeErrorBody_error del: wire_body.simps\<close>)
qed

section \<open>Requests of the adapter\<close>

lemma chain_codes [simp]: "valid_utf8 ''chain.rpc_unavailable''" "valid_utf8 ''chain.soroban_disabled''" "valid_utf8 ''chain.funding_disabled''"
  by (rule ascii_valid_utf8, simp)+

text \<open>An error as the client of the adapter sees it.\<close>

definition wire_error :: "go_error \<Rightarrow> go_error" where
  "wire_error e = Opaque (''chain.rpc_unavailable: '' @ utf8_coerce (err_text e))"

definition wire_chain_error :: "go_error \<Rightarrow> go_error" where
  "wire_chain_error e =
     (if errors_Is e ErrSorobanDisabled
      then Opaque (''chain.soroban_disabled: '' @ utf8_coerce ''Soroban RPC is not configured on this deployment'')
      else if errors_Is e ErrFundingDisabled
      then Opaque (''chain.funding_disabled: '' @ utf8_coerce ''friendbot is not configured on this deployment'')
      else wire_error e)"

definition carried :: "(go_error \<Rightarrow> go_error) \<Rightarrow> 'a res \<Rightarrow> 'a res" where
  "carried f r = (case r of Inl e \<Rightarrow> Inl (f e) | Inr v \<Rightarrow> Inr v)"

lemma account_path:
  assumes "address \<notin> {[], ''.'', ''..''}"
  shows "clean_path (''/internal/accounts/'' @ PathEscape address)"
    and "path_segments (''/internal/accounts/'' @ PathEscape address) = Some [''internal'', ''accounts'', address]"
    and "clean_path (''/internal/accounts/'' @ PathEscape address @ ''/trustline'')"
    and "path_segments (''/internal/accounts/'' @ PathEscape address @ ''/trustline'') = Some [''internal'', ''accounts'', address, ''trustline'']"
proof -
  have p: "CHR ''/'' \<notin> set (PathEscape address)" "CHR ''?'' \<notin> set (PathEscape address)" "CHR ''#'' \<notin> set (PathEscape address)"
    using PathEscape_plain [of address] by auto
  have n: "PathEscape address \<notin> {[], ''.'', ''..''}" using assms PathEscape_dots [of address] by blast
  show "clean_path (''/internal/accounts/'' @ PathEscape address)"
    "path_segments (''/internal/accounts/'' @ PathEscape address) = Some [''internal'', ''accounts'', address]"
    "clean_path (''/internal/accounts/'' @ PathEscape address @ ''/trustline'')"
    "path_segments (''/internal/accounts/'' @ PathEscape address @ ''/trustline'') = Some [''internal'', ''accounts'', address, ''trustline'']"
    using p n by (simp_all add: clean_path_def path_segments_def PathUnescape_PathEscape)
qed

lemma fixed_paths:
  "clean_path ''/internal/ledger''" "path_segments ''/internal/ledger'' = Some [''internal'', ''ledger'']"
  "clean_path ''/internal/soroban/simulate''" "path_segments ''/internal/soroban/simulate'' = Some [''internal'', ''soroban'', ''simulate'']"
  "clean_path ''/internal/submit/classic''" "path_segments ''/internal/submit/classic'' = Some [''internal'', ''submit'', ''classic'']"
  "clean_path ''/internal/submit/soroban''" "path_segments ''/internal/submit/soroban'' = Some [''internal'', ''submit'', ''soroban'']"
  "clean_path ''/internal/fund''" "path_segments ''/internal/fund'' = Some [''internal'', ''fund'']"
  by (simp_all add: clean_path_def path_segments_def)

text \<open>A request with the internal key, at its handler.\<close>

definition adapter_request :: "string \<Rightarrow> string \<Rightarrow> string \<Rightarrow> (string \<times> string) list \<Rightarrow> http_body \<Rightarrow> string list \<Rightarrow> http_request" where
  "adapter_request key meth path query body segs = server_request \<lparr>cr_Method = meth, cr_Path = path, cr_Query = query,
     cr_Header = [(''Content-Type'', ''application/json''), (''X-Internal-Api-Key'', key)], cr_Body = body\<rparr> segs"

lemma gateway_at:
  assumes "key \<noteq> []"
  shows "gatewaysvc key svc (adapter_request key meth path query body (''internal'' # x # xs)) d =
    ServeMux (chain_RegisterRoutes svc) False (adapter_request key meth path query body (''internal'' # x # xs)) d"
  using assms by (simp add: gatewaysvc_def adapter_request_def server_request_def RequireInternalKey_def lookup_def)

lemma body_field: "Decode (oneField name) (BodyDoc (JObj [(name, jstr s)])) [] = (None, utf8_coerce s)"
  by (simp add: Decode_def oneField_def same_name_def jstr_def)

lemma gateway_answers:
  assumes "key \<noteq> []"
  shows "a \<noteq> [] \<Longrightarrow> gatewaysvc key svc (adapter_request key ''GET'' p q b [''internal'', ''accounts'', a]) d =
      (case GetAccount svc a of Inl e \<Rightarrow> (WriteError 502 ''chain.rpc_unavailable'' (err_text e), d) | Inr i \<Rightarrow> (WriteData 200 (CAccount i), d))"
    and "a \<noteq> [] \<Longrightarrow> code \<noteq> [] \<Longrightarrow>
      gatewaysvc key svc (adapter_request key ''GET'' p [(''code'', code), (''issuer'', iss)] b [''internal'', ''accounts'', a, ''trustline'']) d =
      (case GetTrustline svc a code iss of Inl e \<Rightarrow> (WriteError 502 ''chain.rpc_unavailable'' (err_text e), d) | Inr i \<Rightarrow> (WriteData 200 (CTrustline i), d))"
    and "gatewaysvc key svc (adapter_request key ''GET'' p q b [''internal'', ''ledger'']) d =
      (case GetLedger svc of Inl e \<Rightarrow> (WriteError 502 ''chain.rpc_unavailable'' (err_text e), d) | Inr i \<Rightarrow> (WriteData 200 (CLedger i), d))"
    and "gatewaysvc key svc (adapter_request key ''POST'' p q (BodyDoc (JObj [(''xdr'', jstr x)])) [''internal'', ''soroban'', ''simulate'']) d =
      (case SimulateTransaction svc (utf8_coerce x) of Inl e \<Rightarrow> (writeChainError e, d) | Inr i \<Rightarrow> (WriteData 200 (CSimulate i), d))"
    and "gatewaysvc key svc (adapter_request key ''POST'' p q (BodyDoc (JObj [(''xdr'', jstr x)])) [''internal'', ''submit'', ''classic'']) d =
      (case SubmitClassic svc (utf8_coerce x) of Inl e \<Rightarrow> (writeChainError e, d) | Inr i \<Rightarrow> (WriteData 200 (CSubmit i), d))"
    and "gatewaysvc key svc (adapter_request key ''POST'' p q (BodyDoc (JObj [(''xdr'', jstr x)])) [''internal'', ''submit'', ''soroban'']) d =
      (case SubmitSoroban svc (utf8_coerce x) of Inl e \<Rightarrow> (writeChainError e, d) | Inr i \<Rightarrow> (WriteData 200 (CSubmit i), d))"
    and "gatewaysvc key svc (adapter_request key ''POST'' p q (BodyDoc (JObj [(''address'', jstr x)])) [''internal'', ''fund'']) d =
      (case Fund svc (utf8_coerce x) of Inl e \<Rightarrow> (writeChainError e, d) | Inr i \<Rightarrow> (WriteData 200 (CFunded True), d))"
  unfolding gateway_at [OF assms]
  by (simp_all add: chain_RegisterRoutes_def adapter_request_def server_request_def method_matches_def PathValue_def lookup_def
      ch_GetAccount_def ch_GetTrustline_def ch_GetLedger_def ch_SimulateTransaction_def ch_SubmitClassic_def ch_SubmitSoroban_def
      ch_Fund_def body_field split: sum.split)

lemma wire_error_response:
  "\<exists>st code msg. WriteError 502 ''chain.rpc_unavailable'' (err_text e) = WriteError st code msg \<and> 400 \<le> st \<and> valid_utf8 code \<and>
    code \<noteq> [] \<and> wire_error e = Opaque (code @ '': '' @ utf8_coerce msg)"
  by (intro exI [of _ 502] exI [of _ "''chain.rpc_unavailable''"] exI [of _ "err_text e"]) (simp add: wire_error_def)

lemma wire_chain_error_response:
  "\<exists>st code msg. writeChainError e = WriteError st code msg \<and> 400 \<le> st \<and> valid_utf8 code \<and>
    code \<noteq> [] \<and> wire_chain_error e = Opaque (code @ '': '' @ utf8_coerce msg)"
proof -
  consider (s) "errors_Is e ErrSorobanDisabled" | (f) "\<not> errors_Is e ErrSorobanDisabled" "errors_Is e ErrFundingDisabled"
    | (o) "\<not> errors_Is e ErrSorobanDisabled" "\<not> errors_Is e ErrFundingDisabled" by blast
  then show ?thesis
  proof cases
    case s
    then show ?thesis by (intro exI [of _ 503] exI [of _ "''chain.soroban_disabled''"]
      exI [of _ "''Soroban RPC is not configured on this deployment''"]) (simp add: writeChainError_def wire_chain_error_def)
  next
    case f
    then show ?thesis by (intro exI [of _ 503] exI [of _ "''chain.funding_disabled''"]
      exI [of _ "''friendbot is not configured on this deployment''"]) (simp add: writeChainError_def wire_chain_error_def)
  next
    case o
    then show ?thesis by (intro exI [of _ 502] exI [of _ "''chain.rpc_unavailable''"] exI [of _ "err_text e"])
      (simp add: writeChainError_def wire_chain_error_def wire_error_def)
  qed
qed

context wire_struct
begin

text \<open>The answer of a handler that writes a value or an error, at the client.\<close>

lemma do_carried:
  assumes "delivered send h encp" and "clean_path path" and "path_segments path = Some segs"
    and "h (adapter_request key meth path query body segs) d =
      (case r of Inl e \<Rightarrow> (err e, d) | Inr v \<Rightarrow> (WriteData 200 (wrap v), d))"
    and "\<And>v. encp (wrap v) = enc v" and "\<And>v. r = Inr v \<Longrightarrow> ok v"
    and "\<And>e. \<exists>st code msg. err e = WriteError st code msg \<and> 400 \<le> st \<and> valid_utf8 code \<and> code \<noteq> [] \<and>
      f e = Opaque (code @ '': '' @ utf8_coerce msg)"
  shows "fst (doRequest send key meth path query body (Some (unmarshal_struct fs zero)) zero d) = carried f r"
proof (cases r)
  case (Inr v)
  then have "h (adapter_request key meth path query body segs) d = (WriteData 200 (wrap v), d)" using assms(4) by simp
  from do_data [OF assms(1-3) this [unfolded adapter_request_def] assms(5) assms(6) [OF Inr]] Inr
  show ?thesis by (simp add: carried_def)
next
  case (Inl e)
  from assms(7) [of e] obtain st code msg where err: "err e = WriteError st code msg" "400 \<le> st" "valid_utf8 code" "code \<noteq> []"
    "f e = Opaque (code @ '': '' @ utf8_coerce msg)" by blast
  with Inl assms(4) have "h (adapter_request key meth path query body segs) d = (WriteError st code msg, d)" by simp
  then show ?thesis unfolding adapter_request_def
    by (subst do_error [OF assms(1-3) _ err(2-4)], assumption) (simp add: carried_def Inl err(5))
qed

end

lemma do_funded:
  fixes h :: "('d, 'p) handler"
  assumes "delivered send h encp" and "clean_path path" and "path_segments path = Some segs"
    and "h (adapter_request key meth path query body segs) d =
      (case r of Inl e \<Rightarrow> (writeChainError e, d) | Inr (v :: unit) \<Rightarrow> (WriteData 200 p, d))"
  shows "fst (doRequest send key meth path query body None () d) = carried wire_chain_error r"
proof (cases r)
  case (Inr v)
  then have "h (adapter_request key meth path query body segs) d = (WriteData 200 p, d)" using assms(4) by simp
  then show ?thesis unfolding adapter_request_def
    by (subst doRequest_delivered [OF assms(1-3)], assumption) (simp_all add: carried_def WriteData_def Inr)
next
  case (Inl e)
  from wire_chain_error_response [of e] obtain st code msg
    where err: "(writeChainError e :: 'p http_response) = WriteError st code msg" "400 \<le> st" "valid_utf8 code" "code \<noteq> []" "wire_chain_error e = Opaque (code @ '': '' @ utf8_coerce msg)"
    by (elim exE conjE)
  with Inl assms(4) have "h (adapter_request key meth path query body segs) d = (WriteError st code msg, d)" by simp
  then show ?thesis unfolding adapter_request_def
    by (subst do_error [OF assms(1-3) _ err(2-4)], assumption) (simp add: carried_def Inl err(5))
qed

definition utf8_gateway :: "ChainGateway \<Rightarrow> bool" where
  "utf8_gateway g \<longleftrightarrow> (\<forall>a i. GetAccount g a = Inr i \<longrightarrow> utf8_AccountInfo i) \<and>
     (\<forall>a c s t. GetTrustline g a c s = Inr t \<longrightarrow> utf8_TrustlineInfo t) \<and>
     (\<forall>x r. SimulateTransaction g x = Inr r \<longrightarrow> utf8_SimulateResult r) \<and>
     (\<forall>x r. SubmitClassic g x = Inr r \<longrightarrow> utf8_SubmitResult r) \<and> (\<forall>x r. SubmitSoroban g x = Inr r \<longrightarrow> utf8_SubmitResult r)"

section \<open>Properties\<close>

text \<open>
  C33. The adapters of the chain port are interchangeable: over a network that delivers requests to a
  chain gateway process with the same key, every method of \<open>httpadapter.ChainGateway\<close> returns the very
  value that \<open>directadapter.ChainGateway\<close> returns over the same service; an error of the service
  arrives as an error, with the code of the envelope in front of its text. (Strings that are valid
  UTF-8; addresses that are path segments; a trustline request names an asset code.)
\<close>

theorem http_gateway_equivalent:
  assumes "delivered send (gatewaysvc key svc) json_chain_payload" and "key \<noteq> []" and "utf8_gateway svc"
  shows "(address \<notin> {[], ''.'', ''..''} \<longrightarrow>
        GetAccount (HttpChainGateway send key) address = carried wire_error (GetAccount (DirectChainGateway svc) address) \<and>
        (code \<noteq> [] \<longrightarrow> GetTrustline (HttpChainGateway send key) address code issuer =
           carried wire_error (GetTrustline (DirectChainGateway svc) address code issuer))) \<and>
    GetLedger (HttpChainGateway send key) = carried wire_error (GetLedger (DirectChainGateway svc)) \<and>
    (valid_utf8 xdr \<longrightarrow>
        SimulateTransaction (HttpChainGateway send key) xdr = carried wire_chain_error (SimulateTransaction (DirectChainGateway svc) xdr) \<and>
        SubmitClassic (HttpChainGateway send key) xdr = carried wire_chain_error (SubmitClassic (DirectChainGateway svc) xdr) \<and>
        SubmitSoroban (HttpChainGateway send key) xdr = carried wire_chain_error (SubmitSoroban (DirectChainGateway svc) xdr)) \<and>
    (valid_utf8 address \<longrightarrow> Fund (HttpChainGateway send key) address = carried wire_chain_error (Fund (DirectChainGateway svc) address))"
proof (intro conjI impI)
  note answers = gateway_answers [OF assms(2)]
  note utf8 = assms(3) [unfolded utf8_gateway_def]
  {
    assume a: "address \<notin> {[], ''.'', ''..''}"
    then have n: "address \<noteq> []" by blast
    show "GetAccount (HttpChainGateway send key) address = carried wire_error (GetAccount (DirectChainGateway svc) address)"
      unfolding HttpChainGateway_def DirectChainGateway_def ChainGateway.select_convs
      by (rule account.do_carried [where h = "gatewaysvc key svc" and encp = json_chain_payload and r = "GetAccount svc address" and
          err = "\<lambda>e. WriteError 502 ''chain.rpc_unavailable'' (err_text e)" and wrap = CAccount and f = wire_error, OF assms(1) account_path(1,2) [OF a] answers(1) [OF n]
          json_chain_payload.simps(1) _ wire_error_response])
        (use utf8 in blast)
    assume c: "code \<noteq> []"
    show "GetTrustline (HttpChainGateway send key) address code issuer =
        carried wire_error (GetTrustline (DirectChainGateway svc) address code issuer)"
      unfolding HttpChainGateway_def DirectChainGateway_def ChainGateway.select_convs
      by (rule trustline.do_carried [where h = "gatewaysvc key svc" and encp = json_chain_payload and r = "GetTrustline svc address code issuer" and
          err = "\<lambda>e. WriteError 502 ''chain.rpc_unavailable'' (err_text e)" and wrap = CTrustline and f = wire_error, OF assms(1) account_path(3,4) [OF a] answers(2) [OF n c]
          json_chain_payload.simps(2) _ wire_error_response])
        (use utf8 in blast)
  }
  show "GetLedger (HttpChainGateway send key) = carried wire_error (GetLedger (DirectChainGateway svc))"
    unfolding HttpChainGateway_def DirectChainGateway_def ChainGateway.select_convs
    by (rule ledger.do_carried [where h = "gatewaysvc key svc" and encp = json_chain_payload and r = "GetLedger svc" and
          err = "\<lambda>e. WriteError 502 ''chain.rpc_unavailable'' (err_text e)" and wrap = CLedger and f = wire_error, OF assms(1) fixed_paths(1,2) answers(3) json_chain_payload.simps(3) TrueI wire_error_response])
  {
    assume x: "valid_utf8 xdr"
    show "SimulateTransaction (HttpChainGateway send key) xdr = carried wire_chain_error (SimulateTransaction (DirectChainGateway svc) xdr)"
      unfolding HttpChainGateway_def DirectChainGateway_def ChainGateway.select_convs
      by (rule simulate.do_carried [where h = "gatewaysvc key svc" and encp = json_chain_payload and r = "SimulateTransaction svc xdr" and
          err = "writeChainError" and wrap = CSimulate and f = wire_chain_error, OF assms(1) fixed_paths(3,4) answers(4) [where x = xdr, unfolded x]
          json_chain_payload.simps(4) _ wire_chain_error_response])
        (use utf8 in blast)
    show "SubmitClassic (HttpChainGateway send key) xdr = carried wire_chain_error (SubmitClassic (DirectChainGateway svc) xdr)"
      unfolding HttpChainGateway_def DirectChainGateway_def ChainGateway.select_convs
      by (rule submit.do_carried [where h = "gatewaysvc key svc" and encp = json_chain_payload and r = "SubmitClassic svc xdr" and
          err = "writeChainError" and wrap = CSubmit and f = wire_chain_error, OF assms(1) fixed_paths(5,6) answers(5) [where x = xdr, unfolded x]
          json_chain_payload.simps(5) _ wire_chain_error_response])
        (use utf8 in blast)
    show "SubmitSoroban (HttpChainGateway send key) xdr = carried wire_chain_error (SubmitSoroban (DirectChainGateway svc) xdr)"
      unfolding HttpChainGateway_def DirectChainGateway_def ChainGateway.select_convs
      by (rule submit.do_carried [where h = "gatewaysvc key svc" and encp = json_chain_payload and r = "SubmitSoroban svc xdr" and
          err = "writeChainError" and wrap = CSubmit and f = wire_chain_error, OF assms(1) fixed_paths(7,8) answers(6) [where x = xdr, unfolded x]
          json_chain_payload.simps(5) _ wire_chain_error_response])
        (use utf8 in blast)
  }
  assume a: "valid_utf8 address"
  show "Fund (HttpChainGateway send key) address = carried wire_chain_error (Fund (DirectChainGateway svc) address)"
    unfolding HttpChainGateway_def DirectChainGateway_def ChainGateway.select_convs
    by (rule do_funded [where h = "gatewaysvc key svc" and r = "Fund svc address" and p = "CFunded True", OF assms(1) fixed_paths(9,10) answers(7) [where x = address, unfolded a]])
qed

text \<open>A service whose Horizon knows one account and rejects every transaction, without RPC and friendbot.\<close>

definition ex_chain :: chain_Service where
  "ex_chain = \<lparr>ch_cfg = \<lparr>HorizonURL = ''h'', SorobanRPCURL = [], FriendbotURL = []\<rparr>, ch_hc = None,
     ch_horizon = \<lparr>AccountDetail = (\<lambda>a. if a = ''GA'' then Inr (7, [\<lparr>hb_Type = ''native'', hb_Code = [], hb_Issuer = [], hb_Balance = ''5.0'', hb_Limit = []\<rparr>])
         else Inl (HorizonError 404 None ''not found'')),
       Root_HorizonSequence = Inr 3, LedgerDetail = (\<lambda>n. Inr (n, 9000000000)),
       SubmitTransactionXDR = (\<lambda>x. Inl (HorizonError 400 (Some ''tx_failed'') ''bad''))\<rparr>,
     ch_rpc = None\<rparr>"

definition ex_internet :: internet where
  "ex_internet = \<lparr>net_parse = (\<lambda>u. Inr (ex_url u)), net_resolve = (\<lambda>_ l. Inr (ex_url l)),
     net_send = (\<lambda>_ _. Inr \<lparr>os_StatusCode = 200, os_Location = [], os_Body = []\<rparr>)\<rparr>"

lemma ex_chain_utf8: "valid_utf8 ''GA''" "valid_utf8 ''native''" "valid_utf8 ''5.0''" "valid_utf8 ''tx_failed''" "valid_utf8 ''X''"
  by (rule ascii_valid_utf8, simp)+

definition ex_direct :: ChainGateway where
  "ex_direct = (chain_ops ex_chain ex_internet [])\<lparr>GetAccount := (\<lambda>a. if a = ''GA'' then chain_GetAccount ex_chain a else Inl (Opaque ''down''))\<rparr>"

theorem http_gateway_equivalent_witness:
  "GetAccount (HttpChainGateway (loopback (gatewaysvc ''k'' ex_direct) json_chain_payload) ''k'') ''GA'' =
     Inr \<lparr>acc_Address = ''GA'', acc_Sequence = 7,
       acc_Balances = [\<lparr>AssetCode = ''native'', AssetIssuer = [], bal_Balance = ''5.0'', bal_Limit = []\<rparr>], acc_Exists = True\<rparr> \<and>
   SubmitClassic (HttpChainGateway (loopback (gatewaysvc ''k'' ex_direct) json_chain_payload) ''k'') ''X'' =
     Inr \<lparr>sub_Hash = [], sub_Successful = False, sub_ResultCode = ''tx_failed'', sub_LedgerSeq = 0\<rparr>"
proof -
  let ?send = "loopback (gatewaysvc ''k'' ex_direct) json_chain_payload"
  have e: "GetAccount ex_direct a = (if a = ''GA'' then Inr \<lparr>acc_Address = ''GA'', acc_Sequence = 7,
       acc_Balances = [\<lparr>AssetCode = ''native'', AssetIssuer = [], bal_Balance = ''5.0'', bal_Limit = []\<rparr>], acc_Exists = True\<rparr>
      else Inl (Opaque ''down''))"
    "GetTrustline ex_direct a c i = (if a = ''GA'' then Inr (find_trustline c i [\<lparr>hb_Type = ''native'', hb_Code = [], hb_Issuer = [], hb_Balance = ''5.0'', hb_Limit = []\<rparr>])
      else Inr \<lparr>tl_Exists = False, tl_Balance = [], tl_Limit = []\<rparr>)"
    "SimulateTransaction ex_direct x = Inl ErrSorobanDisabled" "SubmitSoroban ex_direct x = Inl ErrSorobanDisabled"
    "SubmitClassic ex_direct x = Inr \<lparr>sub_Hash = [], sub_Successful = False, sub_ResultCode = ''tx_failed'', sub_LedgerSeq = 0\<rparr>" for a c i x
    by (simp_all add: ex_direct_def chain_ops_def ex_chain_def chain_GetAccount_def chain_GetTrustline_def IsNotFoundError_def
        chain_SimulateTransaction_def chain_SubmitSoroban_def chain_SubmitClassic_def toBalances_def)
  have u: "utf8_gateway ex_direct"
    unfolding utf8_gateway_def e by (simp add: utf8_AccountInfo_def utf8_Balance_def utf8_TrustlineInfo_def utf8_SubmitResult_def ex_chain_utf8)
  have n: "''k'' \<noteq> []" "''GA'' \<notin> {[], ''.'', ''..''}" by simp_all
  show ?thesis
    using http_gateway_equivalent [OF delivered_loopback n(1) u, of "''GA''" "''X''" "[]" "''X''"] n(2) ex_chain_utf8(5)
    by (simp add: DirectChainGateway_def e carried_def)
qed

text \<open>
  C34. The gateway reports success only when the network did: a successful classic submission is one that
  Horizon accepted, with its hash and ledger; a successful Soroban submission was accepted for
  sending and then polled to its final status \<open>SUCCESS\<close>, under the reported hash. A rejected
  transaction is no error but an unsuccessful result, an unfinished poll is reported as pending,
  never as a success, and without an RPC endpoint nothing is submitted.
\<close>

theorem submissions_truthful:
  "(case chain_SubmitClassic s xdr of
      Inr r \<Rightarrow> (\<exists>ledger. sub_Successful r \<longrightarrow> SubmitTransactionXDR (ch_horizon s) xdr = Inr (sub_Hash r, True, ledger) \<and> sub_LedgerSeq r = scast ledger)
    | Inl e \<Rightarrow> \<exists>cause. SubmitTransactionXDR (ch_horizon s) xdr = Inl (HorizonOther cause) \<and> e = Wrap ''chain: submit'' cause) \<and>
   (case ch_rpc s of
      None \<Rightarrow> chain_SubmitSoroban s xdr = Inl ErrSorobanDisabled
    | Some rpc \<Rightarrow>
        (case SendTransaction rpc xdr of
           Inl cause \<Rightarrow> chain_SubmitSoroban s xdr = Inl (Wrap ''chain: send transaction'' cause)
         | Inr (status, hash, err) \<Rightarrow> \<exists>r. chain_SubmitSoroban s xdr = Inr r \<and> sub_Hash r = hash \<and>
             (sub_Successful r \<longleftrightarrow> status \<noteq> ''ERROR'' \<and> PollTransaction rpc hash = Inr ''SUCCESS'') \<and>
             (status \<noteq> ''ERROR'' \<and> (\<exists>e. PollTransaction rpc hash = Inl e) \<longrightarrow> sub_ResultCode r = ''PENDING'')))"
proof (intro conjI)
  show "case chain_SubmitClassic s xdr of
      Inr r \<Rightarrow> (\<exists>ledger. sub_Successful r \<longrightarrow> SubmitTransactionXDR (ch_horizon s) xdr = Inr (sub_Hash r, True, ledger) \<and> sub_LedgerSeq r = scast ledger)
    | Inl e \<Rightarrow> \<exists>cause. SubmitTransactionXDR (ch_horizon s) xdr = Inl (HorizonOther cause) \<and> e = Wrap ''chain: submit'' cause"
    by (auto simp: chain_SubmitClassic_def split: sum.splits hz_error.splits)
  show "case ch_rpc s of
      None \<Rightarrow> chain_SubmitSoroban s xdr = Inl ErrSorobanDisabled
    | Some rpc \<Rightarrow>
        (case SendTransaction rpc xdr of
           Inl cause \<Rightarrow> chain_SubmitSoroban s xdr = Inl (Wrap ''chain: send transaction'' cause)
         | Inr (status, hash, err) \<Rightarrow> \<exists>r. chain_SubmitSoroban s xdr = Inr r \<and> sub_Hash r = hash \<and>
             (sub_Successful r \<longleftrightarrow> status \<noteq> ''ERROR'' \<and> PollTransaction rpc hash = Inr ''SUCCESS'') \<and>
             (status \<noteq> ''ERROR'' \<and> (\<exists>e. PollTransaction rpc hash = Inl e) \<longrightarrow> sub_ResultCode r = ''PENDING''))"
    by (auto simp: chain_SubmitSoroban_def sendTransactionStatusError_def TransactionStatusSuccess_def split: option.split sum.split)
qed

text \<open>An RPC endpoint that takes the transaction, where polling never finishes.\<close>

theorem submissions_truthful_witness:
  "\<exists>r. chain_SubmitSoroban (ex_chain\<lparr>ch_rpc := Some \<lparr>rpc_SimulateTransaction = (\<lambda>_. Inl (Opaque ''x'')),
      SendTransaction = (\<lambda>_. Inr (''PENDING'', ''h1'', [])), PollTransaction = (\<lambda>_. Inl (Opaque ''timeout''))\<rparr>\<rparr>) ''X'' = Inr r \<and>
     \<not> sub_Successful r \<and> sub_ResultCode r = ''PENDING'' \<and> sub_Hash r = ''h1''"
  using submissions_truthful [of "ex_chain\<lparr>ch_rpc := Some \<lparr>rpc_SimulateTransaction = (\<lambda>_. Inl (Opaque ''x'')),
      SendTransaction = (\<lambda>_. Inr (''PENDING'', ''h1'', [])), PollTransaction = (\<lambda>_. Inl (Opaque ''timeout''))\<rparr>\<rparr>" "''X''"]
  by auto

end
