(* ===== verification/SchedulerHttp.thy ===== *)
theory SchedulerHttp
  imports Scheduler ChequeHttp Wire
begin

text \<open>
  \<open>backend/services/scheduler/client.go\<close>: the sweep's cheque gateway over the internal HTTP API of
  the cheque service, with the JSON form of the cheque service's answers. Over a network that
  delivers, a sweep through it does exactly what a sweep in one process does.
\<close>

section \<open>Answers of the cheque service\<close>

text \<open>\<open>rfc\<close> is the text of \<open>time.Time\<close> in JSON.\<close>

definition json_bool_ptr :: "bool option \<Rightarrow> json" where
  "json_bool_ptr b = (case b of None \<Rightarrow> JNull | Some v \<Rightarrow> JBool v)"

definition json_Cheque :: "(time \<Rightarrow> string) \<Rightarrow> Cheque \<Rightarrow> json" where
  "json_Cheque rfc c = JObj ([(''id'', jstr (ID c)), (''senderAddress'', jstr (SenderAddress c)),
      (''receiverAddress'', jstr (ReceiverAddress c))] @ omit_string ''requestId'' (RequestID c) @
     [(''tokenContract'', jstr (TokenContract c)), (''amountRaw'', jstr (AmountRaw c)),
      (''decimals'', JInt (uint (ChequeDecimals c))), (''state'', jstr (State_string (ChequeState c))),
      (''expiresAt'', JStr (rfc (ExpiresAt c)))] @ omit_string ''lockTxHash'' (LockTxHash c) @
     [(''createdAt'', JStr (rfc (CreatedAt c))), (''updatedAt'', JStr (rfc (UpdatedAt c))),
      (''chainVerified'', json_bool_ptr (ChainVerified c))])"

definition json_PoolDeposit :: "(time \<Rightarrow> string) \<Rightarrow> PoolDeposit \<Rightarrow> json" where
  "json_PoolDeposit rfc p = JObj ([(''ownerAddress'', jstr (OwnerAddress p)), (''amountRaw'', jstr (PoolAmountRaw p)),
      (''decimals'', JInt (uint (PoolDecimals p)))] @ omit_int64 ''lastDepositLedger'' (LastDepositLedger p) @
     [(''lastDepositAt'', JStr (rfc (LastDepositAt p))), (''updatedAt'', JStr (rfc (PoolUpdatedAt p))),
      (''chainVerified'', json_bool_ptr (PoolChainVerified p))])"

definition json_SyncView :: "(time \<Rightarrow> string) \<Rightarrow> SyncView \<Rightarrow> json" where
  "json_SyncView rfc v = JObj [(''cheques'', json_slice (json_Cheque rfc) (sv_Cheques v)), (''pool'', json_PoolDeposit rfc (sv_Pool v)),
     (''trustlineReady'', JBool (sv_TrustlineReady v)), (''ledgerSeq'', JInt (sint (sv_Ledger v))),
     (''serverTimeUnix'', JInt (sv_ServerTimeUnix v)), (''networkPassphrase'', jstr (sv_NetworkPassphrase v))]"

definition json_CreateChequeResult :: "(time \<Rightarrow> string) \<Rightarrow> CreateChequeResult \<Rightarrow> json" where
  "json_CreateChequeResult rfc r = JObj [(''chequeId'', jstr (res_ChequeID r)), (''lockXdr'', jstr (res_LockXDR r)),
     (''preauthEntryXdr'', jstr (res_PreauthEntryXDR r)), (''preauthPayloadHash'', jstr (res_PreauthPayloadHash r)),
     (''expiresAt'', JStr (rfc (res_ExpiresAt r)))]"

fun json_cheque_payload :: "(time \<Rightarrow> string) \<Rightarrow> cheque_payload \<Rightarrow> json" where
  "json_cheque_payload rfc (PCreated r) = json_CreateChequeResult rfc r"
| "json_cheque_payload rfc (PFlag n b) = JObj [(n, JBool b)]"
| "json_cheque_payload rfc (PField n s) = JObj [(n, jstr s)]"
| "json_cheque_payload rfc (PView v) = json_SyncView rfc v"
| "json_cheque_payload rfc (PCheques cs) = json_slice (json_Cheque rfc) cs"
| "json_cheque_payload rfc (PHealth b) = JObj [(''status'', JStr ''ok''), (''db_ready'', JBool b)]"

section \<open>The client\<close>

definition ExpiredCheque_fields :: "ExpiredCheque fields" where
  "ExpiredCheque_fields =
    [(''id'', put_string (\<lambda>x c. c\<lparr>ec_ID := x\<rparr>)), (''senderAddress'', put_string (\<lambda>x c. c\<lparr>ec_SenderAddress := x\<rparr>)),
     (''receiverAddress'', put_string (\<lambda>x c. c\<lparr>ec_ReceiverAddress := x\<rparr>)),
     (''tokenContract'', put_string (\<lambda>x c. c\<lparr>ec_TokenContract := x\<rparr>)), (''amountRaw'', put_string (\<lambda>x c. c\<lparr>ec_AmountRaw := x\<rparr>)),
     (''decimals'', put_uint8 (\<lambda>x c. c\<lparr>ec_Decimals := x\<rparr>))]"

definition zero_ExpiredCheque :: ExpiredCheque where
  "zero_ExpiredCheque = \<lparr>ec_ID = [], ec_SenderAddress = [], ec_ReceiverAddress = [], ec_TokenContract = [], ec_AmountRaw = [], ec_Decimals = 0\<rparr>"

definition client_ExpiredFundedCheques :: "'d transport \<Rightarrow> string \<Rightarrow> 'd \<Rightarrow> ExpiredCheque list res \<times> 'd" where
  "client_ExpiredFundedCheques send internalKey d =
     (case send \<lparr>cr_Method = ''GET'', cr_Path = ''/internal/cheques/expired-funded'', cr_Query = [],
                 cr_Header = [(''X-Internal-Api-Key'', internalKey)], cr_Body = BodyEOF\<rparr> d of
        (Inl e, d1) \<Rightarrow> (Inl (Wrap ''scheduler: fetch expired cheques'' e), d1)
      | (Inr (status, body), d1) \<Rightarrow>
          if 400 \<le> status then (Inl (Opaque (''scheduler: fetch expired cheques: status '' @ string_of_nat status)), d1)
          else (case Decode [(''data'', put_list (unmarshal_struct ExpiredCheque_fields zero_ExpiredCheque) (\<lambda>x _. x))] body [] of
                  (Some _, _) \<Rightarrow> (Inl (Wrap ''scheduler: decode expired cheques'' (Opaque ''json'')), d1)
                | (None, data) \<Rightarrow> (Inr data, d1)))"

definition client_MarkRefunded :: "'d transport \<Rightarrow> string \<Rightarrow> string \<Rightarrow> string \<Rightarrow> 'd \<Rightarrow> unit res \<times> 'd" where
  "client_MarkRefunded send internalKey chequeID txHash d =
     (case send \<lparr>cr_Method = ''POST'', cr_Path = ''/internal/cheques/'' @ chequeID @ ''/mark-refunded'', cr_Query = [],
                 cr_Header = [(''Content-Type'', ''application/json''), (''X-Internal-Api-Key'', internalKey)],
                 cr_Body = BodyDoc (JObj [(''txHash'', jstr txHash)])\<rparr> d of
        (Inl e, d1) \<Rightarrow> (Inl (Wrap ''scheduler: mark refunded'' e), d1)
      | (Inr (status, _), d1) \<Rightarrow>
          if 400 \<le> status then (Inl (Opaque (''scheduler: mark refunded: status '' @ string_of_nat status)), d1)
          else (Inr (), d1))"

definition ChequeClient :: "'d transport \<Rightarrow> string \<Rightarrow> 'd chequeGateway" where
  "ChequeClient send internalKey =
     \<lparr>gw_ExpiredFundedCheques = client_ExpiredFundedCheques send internalKey,
      gw_MarkRefunded = client_MarkRefunded send internalKey\<rparr>"

section \<open>What the client gets\<close>

definition utf8_cheque :: "Cheque \<Rightarrow> bool" where
  "utf8_cheque c \<longleftrightarrow> valid_utf8 (ID c) \<and> valid_utf8 (SenderAddress c) \<and> valid_utf8 (ReceiverAddress c) \<and>
     valid_utf8 (TokenContract c) \<and> valid_utf8 (AmountRaw c)"

lemma Cheque_narrowed:
  assumes "utf8_cheque c"
  shows "unmarshal_struct ExpiredCheque_fields zero_ExpiredCheque (json_Cheque rfc c) = Some (narrow_cheque c)"
  using assms
  by (simp add: decode_simps utf8_cheque_def json_Cheque_def ExpiredCheque_fields_def zero_ExpiredCheque_def narrow_cheque_def)

lemma those_map_Some: "(\<And>x. x \<in> set xs \<Longrightarrow> f x = Some (g x)) \<Longrightarrow> those (map f xs) = Some (map g xs)"
  by (induction xs) auto

lemma Cheques_narrowed:
  assumes "list_all utf8_cheque cs"
  shows "unmarshal_list (unmarshal_struct ExpiredCheque_fields zero_ExpiredCheque) (json_slice (json_Cheque rfc) cs) =
    Some (map narrow_cheque cs)"
  using assms those_map_Some [of cs "unmarshal_struct ExpiredCheque_fields zero_ExpiredCheque \<circ> json_Cheque rfc" narrow_cheque]
  by (simp add: unmarshal_list_def json_slice_def list_all_iff Cheque_narrowed)

text \<open>An id as the service makes them: letters and digits.\<close>

definition plain_id :: "string \<Rightarrow> bool" where
  "plain_id x \<longleftrightarrow> x \<noteq> [] \<and> list_all (\<lambda>c. unreserved c \<and> c \<noteq> CHR ''.'') x"

lemma plain_id_path:
  assumes "plain_id x"
  shows "clean_path (''/internal/cheques/'' @ x @ ''/mark-refunded'')"
    and "path_segments (''/internal/cheques/'' @ x @ ''/mark-refunded'') = Some [''internal'', ''cheques'', x, ''mark-refunded'']"
proof -
  have u: "PathUnescape x = Some x" if "list_all unreserved x" for x
    using that by (induction x) (auto dest: unreserved_plain)
  have all: "unreserved c" "c \<notin> set ''%/?#''" "c \<noteq> CHR ''.''" if "c \<in> set x" for c
    using assms that unreserved_plain [of c] by (simp_all add: plain_id_def list_all_iff)
  have dots: "CHR ''.'' \<notin> set x" using all(3) by blast
  have p: "CHR ''/'' \<notin> set x" "CHR ''?'' \<notin> set x" "CHR ''#'' \<notin> set x"
    by (rule notI, drule all(2), simp)+
  have q: "x \<noteq> []" "x \<noteq> ''.''" "x \<noteq> ''..''" "list_all unreserved x"
    subgoal using assms by (simp add: plain_id_def)
    subgoal using dots by (rule contrapos_nn) simp
    subgoal using dots by (rule contrapos_nn) simp
    subgoal using assms by (simp add: plain_id_def list_all_iff)
    done
  show "clean_path (''/internal/cheques/'' @ x @ ''/mark-refunded'')"
    "path_segments (''/internal/cheques/'' @ x @ ''/mark-refunded'') = Some [''internal'', ''cheques'', x, ''mark-refunded'']"
    using p q(1-3) u [OF q(4)] by (simp_all add: clean_path_def path_segments_def)
qed

lemma expired_path:
  "clean_path ''/internal/cheques/expired-funded''"
  "path_segments ''/internal/cheques/expired-funded'' = Some [''internal'', ''cheques'', ''expired-funded'']"
  by (simp_all add: clean_path_def path_segments_def)

lemma writeChequeError_status:
  "\<exists>st code msg. writeChequeError e = (WriteError st code msg :: 'p http_response) \<and> 400 \<le> st"
proof (cases "find (\<lambda>(target, _). errors_Is e target) chequeErrorTable")
  case None
  then show ?thesis by (auto simp: writeChequeError_def)
next
  case (Some x)
  then have "x \<in> set chequeErrorTable" using find_SomeD by fast
  then have "400 \<le> snd (snd x)" by (auto simp: chequeErrorTable_def)
  with Some show ?thesis unfolding writeChequeError_def by (cases x) auto
qed

lemma chequesvc_internal:
  assumes "srv_internalKey srv = key" and "key \<noteq> []" and "pool_ready s" and "lookup (cr_Header req) ''X-Internal-Api-Key'' = key"
  shows "chequesvc srv s out (server_request req (''internal'' # x # xs)) db =
    ServeMux (RegisterInternalRoutes s out) False (server_request req (''internal'' # x # xs)) db"
  using assms by (simp add: chequesvc_def RequireInternalKey_def RequireReady_def server_request_def)

lemma client_lists:
  assumes "delivered send (chequesvc srv s out) (json_cheque_payload rfc)" and "srv_internalKey srv = key" and "key \<noteq> []"
    and "pool_ready s" and "ExpiredFundedCheques s out db = (r, db')" and "\<And>cs. r = Inr cs \<Longrightarrow> list_all utf8_cheque cs"
  shows "\<exists>e. client_ExpiredFundedCheques send key db = ((case r of Inl _ \<Rightarrow> Inl e | Inr cs \<Rightarrow> Inr (map narrow_cheque cs)), db')"
proof -
  let ?req = "\<lparr>cr_Method = ''GET'', cr_Path = ''/internal/cheques/expired-funded'', cr_Query = [],
    cr_Header = [(''X-Internal-Api-Key'', key)], cr_Body = BodyEOF\<rparr>"
  have p: "clean_path (cr_Path ?req)" "path_segments (cr_Path ?req) = Some [''internal'', ''cheques'', ''expired-funded'']"
    using expired_path by simp_all
  have h: "chequesvc srv s out (server_request ?req [''internal'', ''cheques'', ''expired-funded'']) db = respond 200 PCheques (r, db')"
    using chequesvc_internal [OF assms(2-4), of ?req out "''cheques''" "[''expired-funded'']" db] assms(5)
    by (simp add: lookup_def RegisterInternalRoutes_def server_request_def method_matches_def h_ExpiredFunded_def)
  show ?thesis
  proof (cases r)
    case (Inl e)
    obtain st code msg where w: "(writeChequeError e :: cheque_payload http_response) = WriteError st code msg" "400 \<le> st"
      using writeChequeError_status by blast
    have "chequesvc srv s out (server_request ?req [''internal'', ''cheques'', ''expired-funded'']) db = (WriteError st code msg, db')"
      using h w by (simp add: respond_def Inl)
    from deliveredD [OF assms(1) p this] w(2) show ?thesis
      unfolding client_ExpiredFundedCheques_def by (simp add: WriteError_def Inl)
  next
    case (Inr cs)
    have "chequesvc srv s out (server_request ?req [''internal'', ''cheques'', ''expired-funded'']) db = (WriteData 200 (PCheques cs), db')"
      using h by (simp add: respond_def Inr)
    from deliveredD [OF assms(1) p this] Cheques_narrowed [OF assms(6) [OF Inr], of rfc] show ?thesis
      unfolding client_ExpiredFundedCheques_def by (simp add: WriteData_def Inr Decode_def same_name_def put_list_def)
  qed
qed

lemma client_marks:
  assumes "delivered send (chequesvc srv s out) (json_cheque_payload rfc)" and "srv_internalKey srv = key" and "key \<noteq> []"
    and "pool_ready s" and "plain_id x" and "valid_utf8 h" and "MarkRefunded s x h db = (r, db')"
  shows "\<exists>e. client_MarkRefunded send key x h db = ((case r of Inl _ \<Rightarrow> Inl e | Inr _ \<Rightarrow> Inr ()), db')"
proof -
  let ?req = "\<lparr>cr_Method = ''POST'', cr_Path = ''/internal/cheques/'' @ x @ ''/mark-refunded'', cr_Query = [],
    cr_Header = [(''Content-Type'', ''application/json''), (''X-Internal-Api-Key'', key)], cr_Body = BodyDoc (JObj [(''txHash'', jstr h)])\<rparr>"
  have p: "clean_path (cr_Path ?req)" "path_segments (cr_Path ?req) = Some [''internal'', ''cheques'', x, ''mark-refunded'']"
    using plain_id_path [OF assms(5)] by simp_all
  have b: "snd (Decode (stringField ''txHash'') (BodyDoc (JObj [(''txHash'', jstr h)])) []) = h"
    using assms(6) by (simp add: Decode_def stringField_def same_name_def jstr_def)
  have "x \<noteq> []" using assms(5) by (simp add: plain_id_def)
  then have h: "chequesvc srv s out (server_request ?req [''internal'', ''cheques'', x, ''mark-refunded'']) db =
      respond 200 (\<lambda>_. PFlag ''marked'' True) (r, db')"
    using chequesvc_internal [OF assms(2-4), of ?req out "''cheques''" "[x, ''mark-refunded'']" db] assms(7)
    by (simp add: lookup_def RegisterInternalRoutes_def server_request_def method_matches_def h_MarkRefunded_def PathValue_def b)
  show ?thesis
  proof (cases r)
    case (Inl e)
    obtain st code msg where w: "(writeChequeError e :: cheque_payload http_response) = WriteError st code msg" "400 \<le> st"
      using writeChequeError_status by blast
    have "chequesvc srv s out (server_request ?req [''internal'', ''cheques'', x, ''mark-refunded'']) db = (WriteError st code msg, db')"
      using h w by (simp add: respond_def Inl)
    from deliveredD [OF assms(1) p this] w(2) show ?thesis
      unfolding client_MarkRefunded_def by (simp add: WriteError_def Inl)
  next
    case (Inr u)
    have "chequesvc srv s out (server_request ?req [''internal'', ''cheques'', x, ''mark-refunded'']) db = (WriteData 200 (PFlag ''marked'' True), db')"
      using h by (simp add: respond_def Inr)
    from deliveredD [OF assms(1) p this] show ?thesis
      unfolding client_MarkRefunded_def by (simp add: WriteData_def Inr)
  qed
qed

section \<open>Sweeps through gateways that agree\<close>

text \<open>Two answers that differ at most in the text of an error.\<close>

definition same_outcome :: "'a res \<times> 'd \<Rightarrow> 'a res \<times> 'd \<Rightarrow> bool" where
  "same_outcome a b \<longleftrightarrow> snd a = snd b \<and> (case fst a of Inl _ \<Rightarrow> \<exists>e. fst b = Inl e | Inr x \<Rightarrow> fst b = Inr x)"

lemma refundOne_outcome:
  assumes "\<And>h. valid_utf8 h \<Longrightarrow> same_outcome (gw_MarkRefunded gw (ec_ID c) h d) (gw_MarkRefunded gw' (ec_ID c) h d)"
    and "\<And>x result. SubmitSoroban g x = Inr result \<Longrightarrow> valid_utf8 (sub_Hash result)"
  shows "same_outcome (refundOne s gw g c d) (refundOne s gw' g c d)"
proof (cases "\<exists>signed result. refundXDR s g c = Inr signed \<and> SubmitSoroban g signed = Inr result \<and> sub_Successful result")
  case True
  then obtain signed result where r: "refundXDR s g c = Inr signed" "SubmitSoroban g signed = Inr result" "sub_Successful result"
    by blast
  obtain a b a' b' where e: "gw_MarkRefunded gw (ec_ID c) (sub_Hash result) d = (a, b)"
    "gw_MarkRefunded gw' (ec_ID c) (sub_Hash result) d = (a', b')" by fastforce
  from assms(1) [OF assms(2) [OF r(2)]] show ?thesis
    by (cases a; cases a') (auto simp: refundOne_def r e same_outcome_def)
next
  case False
  then show ?thesis by (auto simp: refundOne_def same_outcome_def split: sum.splits)
qed

lemma sweep_loop_agrees:
  fixes s :: "'tx SchedService" and d :: 'd
  assumes "\<And>c h d. c \<in> set cs \<Longrightarrow> valid_utf8 h \<Longrightarrow>
      same_outcome (gw_MarkRefunded gw (ec_ID c) h d) (gw_MarkRefunded gw' (ec_ID c) h d)"
    and "\<And>i x result. SubmitSoroban (mo_chain (mo i)) x = Inr result \<Longrightarrow> valid_utf8 (sub_Hash result)"
  shows "sweep_loop s gw mo now i cs d = sweep_loop s gw' mo now i cs d"
  using assms(1)
proof (induction cs arbitrary: s i d)
  case (Cons c cs)
  have IH: "sweep_loop s gw mo now i cs d = sweep_loop s gw' mo now i cs d" for s :: "'tx SchedService" and i and d :: 'd
    by (rule Cons.IH) (simp add: Cons.prems)
  have "same_outcome (refundOne s gw (mo_chain (mo i)) c d) (refundOne s gw' (mo_chain (mo i)) c d)"
    by (rule refundOne_outcome) (use Cons.prems assms(2) in auto)
  then show ?case
    by (cases "refundOne s gw (mo_chain (mo i)) c d"; cases "refundOne s gw' (mo_chain (mo i)) c d")
      (auto simp: IH same_outcome_def split: sum.splits)
qed simp

section \<open>Properties\<close>

lemma ascii_digits: "all_digits s \<Longrightarrow> valid_utf8 s"
  by (rule ascii_valid_utf8) (auto simp: list_all_iff is_digit_def)

lemma valid_utf8_Cons_ascii: "of_char c < (128 :: nat) \<Longrightarrow> valid_utf8 s \<Longrightarrow> valid_utf8 (c # s)"
  by (simp add: utf8_coerce.simps utf8_len_def)

lemma bigint_String_utf8: "valid_utf8 (bigint_String n)"
  by (simp add: bigint_String_def ascii_digits valid_utf8_Cons_ascii)

lemma plain_id_utf8:
  assumes "plain_id x"
  shows "valid_utf8 x"
proof (rule ascii_valid_utf8)
  have "of_char c < (128 :: nat)" if "unreserved c" for c
    using that by (auto simp: unreserved_def Let_def)
  then show "list_all (\<lambda>c. of_char c < (128 :: nat)) x" using assms by (simp add: plain_id_def list_all_iff)
qed

text \<open>Rows as the cheque service writes them: ids of letters and digits, addresses in UTF-8.\<close>

definition wire_rows :: "pay_db \<Rightarrow> bool" where
  "wire_rows db \<longleftrightarrow> list_all (\<lambda>r. plain_id (row_id r) \<and> valid_utf8 (sender_address r) \<and> valid_utf8 (receiver_address r) \<and>
     valid_utf8 (token_contract r)) (cheques db)"

lemma ExpiredFundedCheques_rows:
  assumes "ExpiredFundedCheques s out db = (Inr cs, db')" and "wire_rows db"
  shows "list_all utf8_cheque cs" and "c \<in> set cs \<Longrightarrow> plain_id (ID c)"
proof -
  let ?g = "\<lambda>db. filter (\<lambda>r. state r = StateHavuzda \<and> expires_at r \<le> pg_timestamp (time_Now out)) (cheques db)"
  obtain q d where e: "exec (\<lambda>db. Inr (?g db, db)) db = (q, d)" by fastforce
  obtain rows where r: "q = Inr rows" "cs = map scan_cheque rows"
    using assms(1) by (auto simp: ExpiredFundedCheques_def ExpiredFundedChequesRepo_def e split: if_splits sum.splits)
  from exec_read_same(2) [OF e r(1)] obtain db1 :: pay_db where "same_tables db db1" "rows = ?g db1" by blast
  then have "set rows \<subseteq> set (cheques db)" using same_tables_proj [of db db1] by auto
  then have rows: "plain_id (row_id x) \<and> valid_utf8 (sender_address x) \<and> valid_utf8 (receiver_address x) \<and> valid_utf8 (token_contract x)"
    if "x \<in> set rows" for x
    using assms(2) that by (auto simp: wire_rows_def list_all_iff)
  show "list_all utf8_cheque cs"
    using rows by (simp add: r(2) list_all_iff utf8_cheque_def scan_cheque_def plain_id_utf8 bigint_String_utf8)
  show "plain_id (ID c)" if "c \<in> set cs" using that rows by (auto simp: r(2) scan_cheque_def)
qed

text \<open>
  C32. The sweep does not depend on the deployment: over a network that delivers requests to a cheque
  service with the same internal key, a sweep through the HTTP client \<open>ChequeClient\<close> leaves the very
  database and failure records that the same sweep through the in-process
  \<open>SchedulerChequeGateway\<close> leaves, whatever the chain answers and whichever calls fail. (Rows with
  ids of letters and digits and UTF-8 strings; transaction hashes in UTF-8.)
\<close>

theorem remote_sweep_equivalent:
  assumes "delivered send (chequesvc srv s out) (json_cheque_payload rfc)" and "srv_internalKey srv = key" and "key \<noteq> []"
    and "pool_ready s" and "wire_rows db"
    and "\<And>i x result. SubmitSoroban (mo_chain (mo i)) x = Inr result \<Longrightarrow> valid_utf8 (sub_Hash result)"
  shows "SweepExpiredCheques sch (ChequeClient send key) mo now db = SweepExpiredCheques sch (SchedulerChequeGateway s out) mo now db"
proof -
  obtain r db' where l: "ExpiredFundedCheques s out db = (r, db')" by fastforce
  have "\<And>cs. r = Inr cs \<Longrightarrow> list_all utf8_cheque cs" using ExpiredFundedCheques_rows(1) l assms(5) by blast
  from client_lists [OF assms(1-4) l this] obtain e where c: "client_ExpiredFundedCheques send key db =
      ((case r of Inl _ \<Rightarrow> Inl e | Inr cs \<Rightarrow> Inr (map narrow_cheque cs)), db')" by blast
  show ?thesis
  proof (cases r)
    case (Inl e')
    then show ?thesis by (simp add: SweepExpiredCheques_def ChequeClient_def SchedulerChequeGateway_def c l)
  next
    case (Inr cs)
    have "sweep_loop sch (ChequeClient send key) mo now 0 (map narrow_cheque cs) db' =
        sweep_loop sch (SchedulerChequeGateway s out) mo now 0 (map narrow_cheque cs) db'"
    proof (rule sweep_loop_agrees)
      fix c h d
      assume "c \<in> set (map narrow_cheque cs)" and h: "valid_utf8 h"
      then have x: "plain_id (ec_ID c)" using ExpiredFundedCheques_rows(2) [OF l [unfolded Inr] assms(5)] by (auto simp: narrow_cheque_def)
      obtain q d' where m: "MarkRefunded s (ec_ID c) h d = (q, d')" by fastforce
      from client_marks [OF assms(1-4) x h m]
      show "same_outcome (gw_MarkRefunded (ChequeClient send key) (ec_ID c) h d)
          (gw_MarkRefunded (SchedulerChequeGateway s out) (ec_ID c) h d)"
        by (cases q) (auto simp: ChequeClient_def SchedulerChequeGateway_def same_outcome_def m)
    qed (use assms(6) in blast)
    then show ?thesis
      by (simp add: SweepExpiredCheques_def ChequeClient_def SchedulerChequeGateway_def c l Inr)
  qed
qed

theorem remote_sweep_equivalent_witness:
  "SweepExpiredCheques ex_sched (ChequeClient (loopback (chequesvc ex_server (ex_service ScvVoid) ex_late) (json_cheque_payload (\<lambda>_. ''t''))) ''k'')
     ex_moments 0 ex_db2 =
   SweepExpiredCheques ex_sched (SchedulerChequeGateway (ex_service ScvVoid) ex_late) ex_moments 0 ex_db2"
proof -
  have rows: "map row_id (cheques ex_db2) = [ID ex_cheque]" "map sender_address (cheques ex_db2) = [''GA'']"
    "map receiver_address (cheques ex_db2) = [''GB'']" "map token_contract (cheques ex_db2) = [''CT'']" by code_simp+
  then obtain r where r: "cheques ex_db2 = [r]" "row_id r = ID ex_cheque" "sender_address r = ''GA''" "receiver_address r = ''GB''"
    "token_contract r = ''CT''" by auto
  have p: "plain_id (ID ex_cheque)" by (simp add: plain_id_def ex_cheque_def unreserved_def)
  have u: "valid_utf8 ''GA''" "valid_utf8 ''GB''" "valid_utf8 ''CT''" by (rule ascii_valid_utf8, simp)+
  have w: "wire_rows ex_db2" by (simp add: wire_rows_def r p u)
  have h: "valid_utf8 (sub_Hash result)" if "SubmitSoroban (mo_chain (ex_moments i)) x = Inr result" for i x result
    using that by (auto simp: ex_moments_def ex_gateway_def intro: ascii_valid_utf8)
  have k: "srv_internalKey ex_server = ''k''" "''k'' \<noteq> []" "pool_ready (ex_service ScvVoid)" by (simp_all add: ex_server_def ex_service_def)
  show ?thesis by (rule remote_sweep_equivalent [OF delivered_loopback k w h])
qed

end
