(* ===== verification/TxHttp.thy ===== *)
theory TxHttp
  imports Http TxFlight
begin

text \<open>
  The HTTP side of the tx service (\<open>services/tx/handler.go\<close>, \<open>endpoint.go\<close> and the router of
  \<open>cmd/txsvc\<close>): what a submission over HTTP is, and that nothing else over HTTP writes.
\<close>

section \<open>Handlers\<close>

datatype tx_payload = TSubmitted SubmitResponse | TSubmission Submission | THealth bool

record txSubmitBody =
  tb_IdempotencyKey :: string
  tb_Purpose :: string
  tb_Kind :: string
  tb_XDR :: string

definition txSubmit_fields :: "txSubmitBody fields" where
  "txSubmit_fields =
    [(''idempotencyKey'', put_string (\<lambda>x b. b\<lparr>tb_IdempotencyKey := x\<rparr>)), (''purpose'', put_string (\<lambda>x b. b\<lparr>tb_Purpose := x\<rparr>)),
     (''kind'', put_string (\<lambda>x b. b\<lparr>tb_Kind := x\<rparr>)), (''xdr'', put_string (\<lambda>x b. b\<lparr>tb_XDR := x\<rparr>))]"

definition zero_txSubmit :: txSubmitBody where
  "zero_txSubmit = \<lparr>tb_IdempotencyKey = [], tb_Purpose = [], tb_Kind = [], tb_XDR = []\<rparr>"

definition writeTxError :: "go_error \<Rightarrow> 'p http_response" where
  "writeTxError e =
     (if errors_Is e TxErrDBNotReadyErr then WriteError 503 ''tx.db_not_ready'' ''database not ready yet''
      else if errors_Is e errKeyInFlight
      then WriteError 409 ''tx.duplicate_idempotency_key'' ''this idempotency key is already being processed''
      else if errors_Is e TxErrNotFound then WriteError 404 ''tx.not_found'' ''no submission with that idempotency key''
      else WriteError 502 ''tx.submit_failed'' (err_text e))"

definition tx_h_Submit :: "TxSvc \<Rightarrow> (pay_db, tx_payload) handler" where
  "tx_h_Submit s r db =
     (case ClaimsFromContext r of
        None \<Rightarrow> (WriteError 401 ''auth.invalid_token'' ''missing bearer claims'', db)
      | Some claims \<Rightarrow>
     (case Decode txSubmit_fields (req_Body r) zero_txSubmit of
        (Some _, _) \<Rightarrow> (WriteError 400 ''tx.bad_request'' ''invalid JSON body'', db)
      | (None, b) \<Rightarrow>
          if tb_IdempotencyKey b = [] \<or> tb_XDR b = [] \<or> tb_Purpose b = []
          then (WriteError 400 ''tx.bad_request'' ''idempotencyKey, purpose and xdr are required'', db)
          else
            (let kind = (if tb_Kind b = Kind_string KindSoroban then KindSoroban else KindClassic) in
             case Submit s \<lparr>req_IdempotencyKey = tb_IdempotencyKey b, req_StellarAddress = claims_StellarAccount claims,
                    req_Purpose = tb_Purpose b, req_Kind = kind, req_SignedXDR = tb_XDR b\<rparr> db of
               (Inl e, db1) \<Rightarrow> (writeTxError e, db1)
             | (Inr resp, db1) \<Rightarrow> (WriteData 200 (TSubmitted resp), db1))))"

definition tx_h_GetSubmission :: "TxSvc \<Rightarrow> (pay_db, tx_payload) handler" where
  "tx_h_GetSubmission s r db =
     (case GetSubmission s (PathValue r ''key'') db of
        (Inl e, db1) \<Rightarrow> (writeTxError e, db1)
      | (Inr sub, db1) \<Rightarrow> (WriteData 200 (TSubmission sub), db1))"

definition tx_RegisterRoutes :: "TxSvc \<Rightarrow> (string \<times> segment list \<times> (pay_db, tx_payload) handler) list" where
  "tx_RegisterRoutes s =
    [(''POST'', [Lit ''tx'', Lit ''submit''], tx_h_Submit s), (''GET'', [Lit ''tx'', Wild ''key''], tx_h_GetSubmission s)]"

definition txsvc :: "'key jwt_parser \<Rightarrow> 'key \<Rightarrow> string \<Rightarrow> TxSvc \<Rightarrow> (pay_db, tx_payload) handler" where
  "txsvc jwt publicKey webAuthDomain s r db =
     (if req_Path r = [''health''] \<and> method_matches ''GET'' (req_Method r) then HealthHandler THealth (tx_pool_ready s) r db
      else if req_Path r = [''tx''] then (Response 307 NoBody, db)
      else if take 1 (req_Path r) \<noteq> [''tx''] then (Response (if req_Path r = [''health''] then 405 else 404) NoBody, db)
      else RequireReady (tx_pool_ready s) ''tx.db_not_ready''
             (RequireBearer jwt publicKey webAuthDomain
               (WriteError 401 ''auth.invalid_token'' ''missing or invalid bearer token'')
               (ServeMux (tx_RegisterRoutes s) False)) r db)"

section \<open>Lemmas\<close>

lemma match_path_Lits: "match_path (map Lit ls) xs = (if xs = ls then Some [] else None)"
proof (induction ls arbitrary: xs)
  case Nil
  then show ?case by (cases xs) simp_all
next
  case (Cons l ls)
  then show ?case by (cases xs) auto
qed

lemma GetSubmission_same: "GetSubmission s key db = (r, db') \<Longrightarrow> same_tables db db'"
  by (auto simp: GetSubmission_def GetSubmissionRepo_def split: if_splits prod.splits sum.splits option.splits dest: exec_read_same(1))

text \<open>The submission a request asks for on behalf of an account.\<close>

definition asks_to_submit :: "http_request \<Rightarrow> string \<Rightarrow> SubmitRequest \<Rightarrow> bool" where
  "asks_to_submit r acct req \<longleftrightarrow> req_Path r = [''tx'', ''submit''] \<and> req_Method r = ''POST'' \<and> req_StellarAddress req = acct \<and>
     req_IdempotencyKey req \<noteq> [] \<and> req_SignedXDR req \<noteq> [] \<and> req_Purpose req \<noteq> [] \<and>
     (\<exists>b. Decode txSubmit_fields (req_Body r) zero_txSubmit = (None, b) \<and> tb_IdempotencyKey b = req_IdempotencyKey req \<and>
        tb_XDR b = req_SignedXDR req \<and> tb_Purpose b = req_Purpose req \<and> (req_Kind req = KindSoroban \<longleftrightarrow> tb_Kind b = ''soroban''))"

definition submit_answer :: "SubmitResponse res \<Rightarrow> tx_payload http_response" where
  "submit_answer x = (case x of Inl e \<Rightarrow> writeTxError e | Inr resp \<Rightarrow> WriteData 200 (TSubmitted resp))"

lemma tx_h_Submit_cases:
  assumes "tx_h_Submit s r db = (resp, db')" and "req_Claims r = Some claims" and "req_Path r = [''tx'', ''submit'']" and "req_Method r = ''POST''"
  shows "db' = db \<and> 400 \<le> resp_Status resp \<or>
    (\<exists>req x. asks_to_submit r (claims_StellarAccount claims) req \<and> Submit s req db = (x, db') \<and> resp = submit_answer x)"
proof -
  obtain err b where d: "Decode txSubmit_fields (req_Body r) zero_txSubmit = (err, b)" by fastforce
  show ?thesis
  proof (cases "err = None \<and> tb_IdempotencyKey b \<noteq> [] \<and> tb_XDR b \<noteq> [] \<and> tb_Purpose b \<noteq> []")
    case False
    then show ?thesis
      using assms(1,2) by (auto simp: tx_h_Submit_def ClaimsFromContext_def d WriteError_def split: option.splits if_splits)
  next
    case True
    define req where "req = \<lparr>req_IdempotencyKey = tb_IdempotencyKey b, req_StellarAddress = claims_StellarAccount claims,
      req_Purpose = tb_Purpose b, req_Kind = (if tb_Kind b = ''soroban'' then KindSoroban else KindClassic), req_SignedXDR = tb_XDR b\<rparr>"
    obtain x d' where x: "Submit s req db = (x, d')" by fastforce
    have "tx_h_Submit s r db = (submit_answer x, d')"
      using True assms(2) x unfolding tx_h_Submit_def ClaimsFromContext_def submit_answer_def req_def
      by (cases x) (simp_all add: d)
    moreover have "asks_to_submit r (claims_StellarAccount claims) req"
      using True assms(3,4) by (simp add: asks_to_submit_def d req_def)
    ultimately show ?thesis using x assms(1) by auto
  qed
qed

section \<open>Properties\<close>

text \<open>
  C36. Over HTTP, only a submission writes, and only for its sender: whatever request arrives, either the
  database is as it was (up to connection failures), or the request was a \<open>POST /tx/submit\<close> with a
  valid access token and a key, a purpose and a signed transaction in its body, and its effect and
  its answer are exactly those of \<open>tx.Submit\<close> for the token's account.
\<close>

theorem tx_writes_for_caller:
  assumes "txsvc jwt publicKey aud s r db = (resp, db')"
  shows "same_tables db db' \<or>
    (\<exists>acct req x. bearer_account jwt publicKey aud r = Some acct \<and> asks_to_submit r acct req \<and>
       Submit s req db = (x, db') \<and> resp = submit_answer x)"
proof (cases "take 1 (req_Path r) = [''tx''] \<and> req_Path r \<noteq> [''tx''] \<and> tx_pool_ready s")
  case False
  then show ?thesis using assms by (auto simp: txsvc_def RequireReady_def split: if_splits)
next
  case True
  let ?onError = "WriteError 401 ''auth.invalid_token'' ''missing or invalid bearer token''"
  have "req_Path r \<noteq> [''health'']" using True by auto
  then have b: "RequireBearer jwt publicKey aud ?onError (ServeMux (tx_RegisterRoutes s) False) r db = (resp, db')"
    using assms True by (simp add: txsvc_def RequireReady_def)
  from RequireBearer_split [OF b] show ?thesis
  proof (elim disjE conjE exE)
    fix claims
    assume a: "bearer_account jwt publicKey aud r = Some (claims_StellarAccount claims)"
      and m: "ServeMux (tx_RegisterRoutes s) False (r\<lparr>req_Claims := Some claims\<rparr>) db = (resp, db')"
    from ServeMux_cases [OF m] consider "db' = db"
      | (submit) vs where "match_path [Lit ''tx'', Lit ''submit''] (req_Path r) = Some vs" "req_Method r = ''POST''"
          "tx_h_Submit s (r\<lparr>req_Claims := Some claims, req_PathValues := vs\<rparr>) db = (resp, db')"
      | (get) vs where "tx_h_GetSubmission s (r\<lparr>req_Claims := Some claims, req_PathValues := vs\<rparr>) db = (resp, db')"
      by (auto simp: tx_RegisterRoutes_def method_matches_def)
    then show ?thesis
    proof cases
      case submit
      have p: "req_Path r = [''tx'', ''submit'']"
        using submit(1) match_path_Lits [of "[''tx'', ''submit'']" "req_Path r"] by (simp split: if_splits)
      have "asks_to_submit (r\<lparr>req_Claims := Some claims, req_PathValues := vs\<rparr>) acct req = asks_to_submit r acct req" for acct req
        by (simp add: asks_to_submit_def)
      then show ?thesis using tx_h_Submit_cases [OF submit(3)] p submit(2) a by auto
    next
      case get
      then show ?thesis by (auto simp: tx_h_GetSubmission_def split: prod.splits sum.splits dest: GetSubmission_same)
    qed simp
  qed simp
qed

theorem tx_writes_for_caller_witness:
  "\<exists>resp db'. txsvc ex_jwt ''key'' ''pay'' (ex_tx (Inr ex_result)) (ex_request ''t1'' ''POST'' [''tx'', ''submit'']
     (JObj [(''idempotencyKey'', JStr ''k1''), (''purpose'', JStr ''p''), (''xdr'', JStr ''AAAA'')])) ex_db0 = (resp, db') \<and>
     (same_tables ex_db0 db' \<or> (\<exists>acct req x. acct = ''GA'' \<and> req_StellarAddress req = ''GA'' \<and>
        Submit (ex_tx (Inr ex_result)) req ex_db0 = (x, db')))"
proof -
  let ?r = "ex_request ''t1'' ''POST'' [''tx'', ''submit'']
     (JObj [(''idempotencyKey'', JStr ''k1''), (''purpose'', JStr ''p''), (''xdr'', JStr ''AAAA'')])"
  obtain resp db' where t: "txsvc ex_jwt ''key'' ''pay'' (ex_tx (Inr ex_result)) ?r ex_db0 = (resp, db')" by fastforce
  have "bearer_account ex_jwt ''key'' ''pay'' ?r = Some ''GA''"
    by (simp add: bearer_account_def ex_request_def CutPrefix_def VerifyAccessToken_def VerifyJWT_def ex_jwt_def ex_claims_def accessTokenSubject_def)
  with tx_writes_for_caller [OF t] t show ?thesis by (fastforce simp: asks_to_submit_def)
qed

end
