(* ===== verification/Middleware.thy ===== *)
theory Middleware
  imports Http Ports
begin

text \<open>
  The middleware of \<open>backend/pkg/httpx\<close> around every router: request ids, the access log with its
  status-capturing writer, panic recovery, the body limit, and the server's defaults. A handler's
  run is the list of what it does to its \<open>http.ResponseWriter\<close>, ending in a panic or not.
\<close>

section \<open>Response writers\<close>














section \<open>Middleware\<close>











text \<open>
  \<open>MaxBody\<close>: what reading all of a body, through a further limit of \<open>lim\<close> bytes, gives: an error
  (\<open>None\<close>) as soon as more than \<open>n\<close> bytes are asked for.
\<close>

definition MaxBody_ReadAll :: "nat \<Rightarrow> nat \<Rightarrow> string \<Rightarrow> string option" where
  "MaxBody_ReadAll n lim body = (if min lim (length body) \<le> n then Some (take lim body) else None)"

record ServeOptions =
  ReadHeaderTimeout :: time
  ReadTimeout :: time
  WriteTimeout :: time
  IdleTimeout :: time
  ShutdownGrace :: time

definition withDefaults :: "ServeOptions \<Rightarrow> ServeOptions" where
  "withDefaults opts =
     (let dflt = (\<lambda>v d. if v = 0 then d * 1000000000 else v) in
      \<lparr>ReadHeaderTimeout = dflt (ReadHeaderTimeout opts) 5, ReadTimeout = dflt (ReadTimeout opts) 15,
       WriteTimeout = dflt (WriteTimeout opts) 30, IdleTimeout = dflt (IdleTimeout opts) 60,
       ShutdownGrace = dflt (ShutdownGrace opts) 15\<rparr>)"


section \<open>The captured status\<close>










section \<open>Properties\<close>



end
