(* ===== verification/AnchorRepo.thy ===== *)
theory AnchorRepo
  imports ChequeLedger
begin

text \<open>
  \<open>backend/services/anchor/repository.go\<close> and \<open>model.go\<close>: the ledger of anchor transactions and the
  trustline cache. \<open>numeric_in\<close> stands for PostgreSQL's cast of a text to \<open>NUMERIC(40,0)\<close>: the text of
  the stored value, or the error.
\<close>

section \<open>Data\<close>

record Info =
  inf_ID :: string
  inf_Domain :: string
  inf_SigningKey :: string
  inf_WebAuthEndpoint :: string
  inf_TransferServer :: string
  inf_KYCServer :: string
  inf_QuoteServer :: string
  inf_TransferServer24 :: string
  inf_AssetCode :: string
  inf_AssetIssuer :: string

record Transaction =
  tx_ID :: string
  tx_AnchorID :: string
  tx_StellarAddress :: string
  tx_Kind :: string
  tx_State :: string
  tx_AmountRaw :: string
  tx_Decimals :: u8
  tx_StellarTxHash :: string
  tx_StartedAt :: time
  tx_UpdatedAt :: time

definition AnchorErrNotFoundInRepo :: go_error where
  "AnchorErrNotFoundInRepo = Sentinel ''anchor: not found''"

type_synonym numeric_cast = "string \<Rightarrow> pg_error + string"

definition nullif_zero :: "u8 \<Rightarrow> u8 option" where
  "nullif_zero n = (if n = 0 then None else Some n)"

text \<open>\<open>coalesce(a, b)\<close> of two nullable values.\<close>

definition coalesce :: "'a option \<Rightarrow> 'a option \<Rightarrow> 'a option" where
  "coalesce a b = (case a of Some _ \<Rightarrow> a | None \<Rightarrow> b)"

definition cast_amount :: "numeric_cast \<Rightarrow> string \<Rightarrow> pg_error + string option" where
  "cast_amount numeric_in amount =
     (if amount = [] then Inr None else (case numeric_in amount of Inl e \<Rightarrow> Inl e | Inr v \<Rightarrow> Inr (Some v)))"

section \<open>Statements\<close>

text \<open>The row belongs to the transaction's owner: same address, same anchor.\<close>

definition owns :: "Transaction \<Rightarrow> anchor_row \<Rightarrow> bool" where
  "owns t r \<longleftrightarrow> at_stellar_address r = tx_StellarAddress t \<and> at_anchor_id r = tx_AnchorID t"

definition reported :: "Transaction \<Rightarrow> string option \<Rightarrow> time \<Rightarrow> anchor_row \<Rightarrow> anchor_row" where
  "reported t amount now r =
     r\<lparr>at_state := tx_State t, at_amount_raw := coalesce amount (at_amount_raw r),
       at_decimals := coalesce (nullif_zero (tx_Decimals t)) (at_decimals r),
       at_stellar_tx_hash := coalesce (nullif_empty (tx_StellarTxHash t)) (at_stellar_tx_hash r), at_updated_at := now\<rparr>"

text \<open>
  \<open>INSERT ... ON CONFLICT (id) DO UPDATE ... WHERE\<close>: the row of another owner is left alone. The
  statements return the number of affected rows.
\<close>

definition upsert_anchor :: "Transaction \<Rightarrow> string option \<Rightarrow> u8 option \<Rightarrow> string option \<Rightarrow> (time \<Rightarrow> anchor_row \<Rightarrow> anchor_row) \<Rightarrow> nat stmt" where
  "upsert_anchor t amount decs hash upd db =
     (if length (tx_StellarAddress t) > 56 then Inl (PgError ''22001'' [])
      else (case find (\<lambda>r. at_id r = tx_ID t) (anchor_transactions db) of
              None \<Rightarrow>
                Inr (1, db\<lparr>anchor_transactions := anchor_transactions db @
                  [\<lparr>at_id = tx_ID t, at_anchor_id = tx_AnchorID t, at_stellar_address = tx_StellarAddress t,
                    at_kind = tx_Kind t, at_state = tx_State t, at_amount_raw = amount, at_decimals = decs,
                    at_stellar_tx_hash = hash, at_started_at = db_clock db, at_updated_at = db_clock db\<rparr>]\<rparr>)
            | Some r \<Rightarrow>
                if owns t r
                then Inr (1, db\<lparr>anchor_transactions := map (\<lambda>r. if at_id r = tx_ID t then upd (db_clock db) r else r)
                       (anchor_transactions db)\<rparr>)
                else Inr (0, db)))"

definition update_anchor :: "Transaction \<Rightarrow> string option \<Rightarrow> nat stmt" where
  "update_anchor t amount db =
     (let hit = (\<lambda>r. at_id r = tx_ID t \<and> owns t r) in
      Inr (length (filter hit (anchor_transactions db)),
           db\<lparr>anchor_transactions := map (\<lambda>r. if hit r then reported t amount (db_clock db) r else r) (anchor_transactions db)\<rparr>))"

text \<open>\<open>if err == nil && command.RowsAffected() == 0 { return ErrNotFoundInRepo }; return err\<close>.\<close>

definition affected :: "(pg_error + nat) \<times> pay_db \<Rightarrow> unit res \<times> pay_db" where
  "affected rd = (case rd of
     (Inl e, db) \<Rightarrow> (Inl (pgErr e), db)
   | (Inr n, db) \<Rightarrow> if n = 0 then (Inl AnchorErrNotFoundInRepo, db) else (Inr (), db))"

definition UpsertTransaction :: "numeric_cast \<Rightarrow> Transaction \<Rightarrow> pay_db \<Rightarrow> unit res \<times> pay_db" where
  "UpsertTransaction numeric_in t db =
     affected (exec (\<lambda>db. case cast_amount numeric_in (tx_AmountRaw t) of
        Inl e \<Rightarrow> Inl e
      | Inr amount \<Rightarrow> upsert_anchor t amount (nullif_zero (tx_Decimals t)) (nullif_empty (tx_StellarTxHash t)) (reported t amount) db) db)"

definition CreateTransaction :: "Transaction \<Rightarrow> pay_db \<Rightarrow> unit res \<times> pay_db" where
  "CreateTransaction t db = affected (exec (upsert_anchor t None None None (\<lambda>_ r. r)) db)"

definition UpdateTransaction :: "numeric_cast \<Rightarrow> Transaction \<Rightarrow> pay_db \<Rightarrow> unit res \<times> pay_db" where
  "UpdateTransaction numeric_in t db =
     affected (exec (\<lambda>db. case cast_amount numeric_in (tx_AmountRaw t) of
        Inl e \<Rightarrow> Inl e | Inr amount \<Rightarrow> update_anchor t amount db) db)"

definition scan_transaction :: "anchor_row \<Rightarrow> Transaction" where
  "scan_transaction r = \<lparr>tx_ID = at_id r, tx_AnchorID = at_anchor_id r, tx_StellarAddress = at_stellar_address r,
     tx_Kind = at_kind r, tx_State = at_state r, tx_AmountRaw = coalesce_empty (at_amount_raw r),
     tx_Decimals = (case at_decimals r of None \<Rightarrow> 0 | Some d \<Rightarrow> d), tx_StellarTxHash = coalesce_empty (at_stellar_tx_hash r),
     tx_StartedAt = at_started_at r, tx_UpdatedAt = at_updated_at r\<rparr>"

definition ListForAddress :: "string \<Rightarrow> pay_db \<Rightarrow> Transaction list res \<times> pay_db" where
  "ListForAddress address db =
     (case exec (\<lambda>db. Inr (sort_key (\<lambda>r. - at_started_at r)
                (filter (\<lambda>r. at_stellar_address r = address) (anchor_transactions db)), db)) db of
        (Inl e, db1) \<Rightarrow> (Inl (pgErr e), db1)
      | (Inr rows, db1) \<Rightarrow> (Inr (map scan_transaction rows), db1))"

definition trustline_key :: "string \<Rightarrow> string \<Rightarrow> string \<Rightarrow> trustline_row \<Rightarrow> bool" where
  "trustline_key address code issuer r \<longleftrightarrow>
     tr_stellar_address r = address \<and> tr_asset_code r = code \<and> tr_asset_issuer r = issuer"

definition upsert_trustline :: "string \<Rightarrow> string \<Rightarrow> string \<Rightarrow> string \<Rightarrow> i64 \<Rightarrow> unit stmt" where
  "upsert_trustline address code issuer st ledgerSeq db =
     (if length address > 56 \<or> length issuer > 56 then Inl (PgError ''22001'' [])
      else if list_ex (trustline_key address code issuer) (trustlines db)
      then Inr ((), db\<lparr>trustlines := map (\<lambda>r. if trustline_key address code issuer r
             then r\<lparr>tr_state := st, tr_ledger_seq := ledgerSeq, tr_updated_at := db_clock db\<rparr> else r) (trustlines db)\<rparr>)
      else Inr ((), db\<lparr>trustlines := trustlines db @
             [\<lparr>tr_stellar_address = address, tr_asset_code = code, tr_asset_issuer = issuer, tr_state = st,
               tr_ledger_seq = ledgerSeq, tr_updated_at = db_clock db\<rparr>]\<rparr>))"

definition SetTrustline :: "string \<Rightarrow> string \<Rightarrow> string \<Rightarrow> string \<Rightarrow> i64 \<Rightarrow> pay_db \<Rightarrow> unit res \<times> pay_db" where
  "SetTrustline address assetCode assetIssuer st ledgerSeq db =
     (case exec (upsert_trustline address assetCode assetIssuer st ledgerSeq) db of
        (Inl e, db1) \<Rightarrow> (Inl (pgErr e), db1)
      | (Inr _, db1) \<Rightarrow> (Inr (), db1))"

definition GetTrustlineState :: "string \<Rightarrow> string \<Rightarrow> string \<Rightarrow> pay_db \<Rightarrow> (string \<times> bool) res \<times> pay_db" where
  "GetTrustlineState address assetCode assetIssuer db =
     (case exec (\<lambda>db. Inr (find (trustline_key address assetCode assetIssuer) (trustlines db), db)) db of
        (Inl e, db1) \<Rightarrow> (Inl (pgErr e), db1)
      | (Inr None, db1) \<Rightarrow> (Inr ([], False), db1)
      | (Inr (Some r), db1) \<Rightarrow> (Inr (tr_state r, True), db1))"

text \<open>The statement is the one of the cheque repository.\<close>

definition anchor_InsertAudit :: "string \<Rightarrow> string \<Rightarrow> (string \<times> string) list \<Rightarrow> pay_db \<Rightarrow> unit res \<times> pay_db" where
  "anchor_InsertAudit act actn dts = InsertAudit act actn dts"

section \<open>What the statements touch\<close>

text \<open>The tables of the other services are as they were.\<close>

definition anchor_frame :: "pay_db \<Rightarrow> pay_db \<Rightarrow> bool" where
  "anchor_frame db db' \<longleftrightarrow> cheques db' = cheques db \<and> cheque_transitions db' = cheque_transitions db \<and>
     reservations db' = reservations db \<and> pool_deposits db' = pool_deposits db \<and>
     idempotency_keys db' = idempotency_keys db \<and> submissions db' = submissions db \<and> users db' = users db"

text \<open>Everything but the anchor rows and trustlines of one address is as it was.\<close>

definition anchor_confined :: "string \<Rightarrow> pay_db \<Rightarrow> pay_db \<Rightarrow> bool" where
  "anchor_confined a db db' \<longleftrightarrow>
     filter (\<lambda>r. at_stellar_address r \<noteq> a) (anchor_transactions db') = filter (\<lambda>r. at_stellar_address r \<noteq> a) (anchor_transactions db) \<and>
     filter (\<lambda>r. tr_stellar_address r \<noteq> a) (trustlines db') = filter (\<lambda>r. tr_stellar_address r \<noteq> a) (trustlines db) \<and>
     anchor_frame db db'"

text \<open>Ids are unique (the primary key), and so are trustline keys.\<close>

definition anchor_inv :: "pay_db \<Rightarrow> bool" where
  "anchor_inv db \<longleftrightarrow> distinct (map at_id (anchor_transactions db)) \<and>
     distinct (map (\<lambda>r. (tr_stellar_address r, tr_asset_code r, tr_asset_issuer r)) (trustlines db))"

lemma same_tables_confined: "same_tables db db' \<Longrightarrow> anchor_confined a db db'"
  by (auto simp: anchor_confined_def anchor_frame_def dest: same_tables_proj)

lemma same_tables_anchor_inv: "same_tables db db' \<Longrightarrow> anchor_inv db \<Longrightarrow> anchor_inv db'"
  by (auto simp: anchor_inv_def dest: same_tables_proj)

lemma anchor_confined_trans: "anchor_confined a db d \<Longrightarrow> anchor_confined a d db' \<Longrightarrow> anchor_confined a db db'"
  by (simp add: anchor_confined_def anchor_frame_def)

lemma filter_map_outside:
  "(\<And>x. P x \<Longrightarrow> f x = x) \<Longrightarrow> (\<And>x. P (f x) = P x) \<Longrightarrow> filter P (map f xs) = filter P xs"
  by (induction xs) auto

lemma pure_upsert_anchor [pure_intros]: "pure_stmt (upsert_anchor t amount decs hash upd)"
  by (auto simp: pure_stmt_def upsert_anchor_def split: option.splits)

lemma pure_update_anchor [pure_intros]: "pure_stmt (update_anchor t amount)"
  by (simp add: pure_stmt_def update_anchor_def Let_def)

lemma pure_upsert_trustline [pure_intros]: "pure_stmt (upsert_trustline a c i st l)"
  by (simp add: pure_stmt_def upsert_trustline_def)

lemma pure_cast [pure_intros]: "(\<And>v. pure_stmt (f v)) \<Longrightarrow> pure_stmt (\<lambda>db. case c of Inl e \<Rightarrow> Inl e | Inr v \<Rightarrow> f v db)"
  by (auto simp: pure_stmt_def split: sum.split)

lemma upsert_anchor_confined:
  assumes "upsert_anchor t amount decs hash upd db = Inr (n, db')" and "anchor_inv db"
    and "\<And>now r. at_stellar_address (upd now r) = at_stellar_address r" and "\<And>now r. at_id (upd now r) = at_id r"
  shows "anchor_confined (tx_StellarAddress t) db db'" and "anchor_inv db'"
proof -
  let ?f = "\<lambda>r. if at_id r = tx_ID t then upd (db_clock db) r else r"
  consider (new) "find (\<lambda>r. at_id r = tx_ID t) (anchor_transactions db) = None"
    | (own) r where "find (\<lambda>r. at_id r = tx_ID t) (anchor_transactions db) = Some r" "owns t r"
    | (other) "db' = db"
    using assms(1) by (cases "find (\<lambda>r. at_id r = tx_ID t) (anchor_transactions db)") (auto simp: upsert_anchor_def split: if_splits)
  then have "anchor_confined (tx_StellarAddress t) db db' \<and> anchor_inv db'"
  proof cases
    case new
    then have "tx_ID t \<notin> at_id ` set (anchor_transactions db)" by (auto simp: find_None_iff)
    then show ?thesis using assms(1,2) new by (auto simp: upsert_anchor_def anchor_confined_def anchor_frame_def anchor_inv_def split: if_splits)
  next
    case own
    have d: "db' = db\<lparr>anchor_transactions := map ?f (anchor_transactions db)\<rparr>"
      using assms(1) own by (auto simp: upsert_anchor_def split: if_splits)
    have r: "r \<in> set (anchor_transactions db)" "at_id r = tx_ID t" using find_SomeD own(1) by fastforce+
    have "at_stellar_address x = tx_StellarAddress t" if "x \<in> set (anchor_transactions db)" "at_id x = tx_ID t" for x
      using distinct_map_unique [of at_id "anchor_transactions db" x r] assms(2) r that own(2)
      by (auto simp: anchor_inv_def owns_def)
    then have "filter (\<lambda>r. at_stellar_address r \<noteq> tx_StellarAddress t) (map ?f (anchor_transactions db)) =
        filter (\<lambda>r. at_stellar_address r \<noteq> tx_StellarAddress t) (anchor_transactions db)"
      by (induction "anchor_transactions db" rule: rev_induct) (auto simp: filter_map comp_def assms(3) intro!: map_idI filter_cong)
    moreover have "map at_id (map ?f (anchor_transactions db)) = map at_id (anchor_transactions db)" by (simp add: assms(4))
    ultimately show ?thesis using assms(2) by (simp add: d anchor_confined_def anchor_frame_def anchor_inv_def del: map_map)
  next
    case other
    then show ?thesis using assms(2) by (simp add: anchor_confined_def anchor_frame_def)
  qed
  then show "anchor_confined (tx_StellarAddress t) db db'" "anchor_inv db'" by simp_all
qed

lemma reported_keeps [simp]:
  "at_id (reported t amount now r) = at_id r" "at_stellar_address (reported t amount now r) = at_stellar_address r"
  by (simp_all add: reported_def)

lemma update_anchor_confined:
  assumes "update_anchor t amount db = Inr (n, db')" and "anchor_inv db"
  shows "anchor_confined (tx_StellarAddress t) db db' \<and> anchor_inv db'"
proof -
  let ?f = "\<lambda>r. if at_id r = tx_ID t \<and> owns t r then reported t amount (db_clock db) r else r"
  have d: "db' = db\<lparr>anchor_transactions := map ?f (anchor_transactions db)\<rparr>"
    using assms(1) by (auto simp: update_anchor_def Let_def)
  have "map at_id (map ?f (anchor_transactions db)) = map at_id (anchor_transactions db)" by simp
  moreover have "filter (\<lambda>r. at_stellar_address r \<noteq> tx_StellarAddress t) (map ?f (anchor_transactions db)) =
      filter (\<lambda>r. at_stellar_address r \<noteq> tx_StellarAddress t) (anchor_transactions db)"
    by (rule filter_map_outside) (auto simp: owns_def)
  ultimately show ?thesis using assms(2) by (simp add: d anchor_confined_def anchor_frame_def anchor_inv_def del: map_map)
qed

lemma upsert_trustline_confined:
  assumes "upsert_trustline a c i st l db = Inr (u, db')" and "anchor_inv db"
  shows "anchor_confined a db db' \<and> anchor_inv db'"
proof -
  let ?key = "\<lambda>r. (tr_stellar_address r, tr_asset_code r, tr_asset_issuer r)"
  let ?f = "\<lambda>r. if trustline_key a c i r then r\<lparr>tr_state := st, tr_ledger_seq := l, tr_updated_at := db_clock db\<rparr> else r"
  let ?x = "\<lparr>tr_stellar_address = a, tr_asset_code = c, tr_asset_issuer = i, tr_state = st, tr_ledger_seq = l, tr_updated_at = db_clock db\<rparr>"
  consider (upd) "db' = db\<lparr>trustlines := map ?f (trustlines db)\<rparr>"
    | (new) "\<not> list_ex (trustline_key a c i) (trustlines db)" "db' = db\<lparr>trustlines := trustlines db @ [?x]\<rparr>"
    using assms(1) by (simp add: upsert_trustline_def split: if_splits)
  then show ?thesis
  proof cases
    case upd
    have "map ?key (map ?f (trustlines db)) = map ?key (trustlines db)" by (simp add: comp_def)
    moreover have "filter (\<lambda>r. tr_stellar_address r \<noteq> a) (map ?f (trustlines db)) = filter (\<lambda>r. tr_stellar_address r \<noteq> a) (trustlines db)"
      by (rule filter_map_outside) (auto simp: trustline_key_def)
    ultimately show ?thesis using assms(2) by (simp add: upd anchor_confined_def anchor_frame_def anchor_inv_def del: map_map)
  next
    case new
    have "(a, c, i) \<notin> ?key ` set (trustlines db)" using new(1) by (auto simp: list_ex_iff trustline_key_def)
    then show ?thesis using assms(2) by (auto simp: new(2) anchor_confined_def anchor_frame_def anchor_inv_def)
  qed
qed

section \<open>Calls of the repository\<close>

lemma anchor_statements_frame:
  "upsert_anchor t amount decs hash upd db = Inr (n, db') \<Longrightarrow> anchor_frame db db'"
  "update_anchor t amount db = Inr (n, db') \<Longrightarrow> anchor_frame db db'"
  "upsert_trustline a c i st l db = Inr (u, db') \<Longrightarrow> anchor_frame db db'"
  by (auto simp: anchor_frame_def upsert_anchor_def update_anchor_def upsert_trustline_def Let_def split: option.splits if_splits)

text \<open>
  A call made for an address: it leaves the other services' tables alone, keeps the keys unique and
  touches the rows of that address only.
\<close>

definition own_call :: "string \<Rightarrow> (pay_db \<Rightarrow> 'a \<times> pay_db) \<Rightarrow> bool" where
  "own_call a f \<longleftrightarrow> (\<forall>db r db'. f db = (r, db') \<longrightarrow>
     anchor_frame db db' \<and> (anchor_inv db \<longrightarrow> anchor_confined a db db' \<and> anchor_inv db'))"

lemma own_callD: "own_call a f \<Longrightarrow> f db = (r, db') \<Longrightarrow> anchor_inv db \<Longrightarrow> anchor_confined a db db' \<and> anchor_inv db'"
  unfolding own_call_def by blast

lemma own_call_frame: "own_call a f \<Longrightarrow> anchor_frame db (snd (f db))"
  unfolding own_call_def by (metis prod.collapse)

lemma own_call_exec:
  assumes "pure_stmt f" and "\<And>db x d. f db = Inr (x, d) \<Longrightarrow> anchor_frame db d"
    and "\<And>db x d. f db = Inr (x, d) \<Longrightarrow> anchor_inv db \<Longrightarrow> anchor_confined a db d \<and> anchor_inv d"
  shows "own_call a (exec f)"
  unfolding own_call_def
proof (intro allI impI)
  fix db r db'
  assume e: "exec f db = (r, db')"
  from exec_pure_cases [OF assms(1) e] consider (same) "same_tables db db'" | (run) x d where "f db = Inr (x, d)" "same_tables d db'"
    by blast
  then show "anchor_frame db db' \<and> (anchor_inv db \<longrightarrow> anchor_confined a db db' \<and> anchor_inv db')"
  proof cases
    case same
    then show ?thesis using same_tables_confined [OF same] same_tables_anchor_inv [OF same] by (simp add: anchor_confined_def)
  next
    case run
    have "anchor_frame d db'" using same_tables_confined [OF run(2)] by (simp add: anchor_confined_def)
    then have "anchor_frame db db'" using assms(2) [OF run(1)] by (simp add: anchor_frame_def)
    then show ?thesis
      using assms(3) [OF run(1)] same_tables_confined [OF run(2)] same_tables_anchor_inv [OF run(2)] anchor_confined_trans by blast
  qed
qed

lemma own_call_post: "own_call a f \<Longrightarrow> (\<And>x d. snd (g (x, d)) = d) \<Longrightarrow> own_call a (\<lambda>db. g (f db))"
  unfolding own_call_def by (metis snd_conv surj_pair)

lemma affected_snd: "snd (affected (x, d)) = d"
  by (simp add: affected_def split: sum.split)

lemma own_call_UpsertTransaction: "tx_StellarAddress t = a \<Longrightarrow> own_call a (UpsertTransaction numeric_in t)"
  unfolding UpsertTransaction_def
  by (rule own_call_post [OF own_call_exec affected_snd], intro pure_intros)
    (auto split: sum.splits simp: upsert_anchor_confined dest: anchor_statements_frame)

lemma own_call_CreateTransaction: "tx_StellarAddress t = a \<Longrightarrow> own_call a (CreateTransaction t)"
  unfolding CreateTransaction_def
  by (rule own_call_post [OF own_call_exec affected_snd], intro pure_intros) (auto simp: upsert_anchor_confined dest: anchor_statements_frame)

lemma own_call_UpdateTransaction: "tx_StellarAddress t = a \<Longrightarrow> own_call a (UpdateTransaction numeric_in t)"
  unfolding UpdateTransaction_def
  by (rule own_call_post [OF own_call_exec affected_snd], intro pure_intros)
    (auto split: sum.splits simp: update_anchor_confined dest: anchor_statements_frame)

lemma own_call_SetTrustline: "own_call a (SetTrustline a c i st l)"
  unfolding SetTrustline_def
  by (rule own_call_post [OF own_call_exec], intro pure_intros, erule anchor_statements_frame, erule (1) upsert_trustline_confined)
    (simp split: sum.split)

lemma own_call_GetTrustlineState: "own_call a (GetTrustlineState b c i)"
  unfolding GetTrustlineState_def
  by (rule own_call_post [OF own_call_exec]) (auto intro: pure_intros simp: anchor_confined_def anchor_frame_def split: sum.split option.split)

lemma own_call_ListForAddress: "own_call a (ListForAddress b)"
  unfolding ListForAddress_def
  by (rule own_call_post [OF own_call_exec]) (auto intro: pure_intros simp: anchor_confined_def anchor_frame_def split: sum.split)

lemmas own_calls = own_call_UpsertTransaction own_call_CreateTransaction own_call_UpdateTransaction own_call_SetTrustline
  own_call_GetTrustlineState own_call_ListForAddress

end
