(* ===== verification/Query.thy ===== *)
theory Query
  imports ChainService "HOL-Library.List_Lexorder" "HOL-Library.Char_ord"
begin

text \<open>
  Query strings: what the services use of \<open>net/url\<close> to read, change and write the parameters of a
  request, and that writing and reading are inverse to each other.
\<close>

section \<open>Values\<close>

text \<open>\<open>url.Values\<close>: the values of each key, the keys in the order they were first met.\<close>

type_synonym Values = "(string \<times> string list) list"

fun split_char :: "char \<Rightarrow> string \<Rightarrow> string list" where
  "split_char x [] = [[]]"
| "split_char x (c # cs) =
     (if c = x then [] # split_char x cs else (case split_char x cs of [] \<Rightarrow> [[c]] | y # ys \<Rightarrow> (c # y) # ys))"

fun QueryUnescape :: "string \<Rightarrow> string option" where
  "QueryUnescape [] = Some []"
| "QueryUnescape (c # cs) =
     (if c = CHR ''%'' then
        (case cs of
           a # b # r \<Rightarrow>
             (case (hex_val a, hex_val b) of
                (Some x, Some y) \<Rightarrow> map_option ((#) (char_of (16 * x + y))) (QueryUnescape r)
              | _ \<Rightarrow> None)
         | _ \<Rightarrow> None)
      else map_option ((#) (if c = CHR ''+'' then CHR '' '' else c)) (QueryUnescape cs))"

fun values_add :: "string \<Rightarrow> string \<Rightarrow> Values \<Rightarrow> Values" where
  "values_add k v [] = [(k, [v])]"
| "values_add k v ((k', vs) # m) = (if k' = k then (k', vs @ [v]) # m else (k', vs) # values_add k v m)"

definition Values_Get :: "Values \<Rightarrow> string \<Rightarrow> string" where
  "Values_Get m k = (case map_of m k of Some (v # _) \<Rightarrow> v | _ \<Rightarrow> [])"

definition Values_Set :: "string \<Rightarrow> string \<Rightarrow> Values \<Rightarrow> Values" where
  "Values_Set k v m = (if k \<in> fst ` set m then map (\<lambda>(k', vs). if k' = k then (k', [v]) else (k', vs)) m else m @ [(k, [v])])"

text \<open>One piece of a query: the key and the value around the first \<open>=\<close>; pieces with \<open>;\<close> are errors.\<close>

definition parse_pair :: "string \<Rightarrow> (string \<times> string) option" where
  "parse_pair piece =
     (if CHR '';'' \<in> set piece then None
      else (case (QueryUnescape (takeWhile (\<lambda>c. c \<noteq> CHR ''='') piece), QueryUnescape (tl (dropWhile (\<lambda>c. c \<noteq> CHR ''='') piece))) of
              (Some k, Some v) \<Rightarrow> Some (k, v) | _ \<Rightarrow> None))"

text \<open>
  What could be read of a query, and whether all could. \<open>url.ParseQuery\<close> refuses a query with more
  than 10000 pieces.
\<close>

definition query_values :: "string \<Rightarrow> Values \<times> bool" where
  "query_values query =
     (let pieces = map parse_pair (filter (\<lambda>p. p \<noteq> []) (split_char (CHR ''&'') query)) in
      (fold (\<lambda>p m. case p of None \<Rightarrow> m | Some (k, v) \<Rightarrow> values_add k v m) pieces [], list_all (\<lambda>p. p \<noteq> None) pieces))"

definition ParseQuery :: "string \<Rightarrow> Values \<times> bool" where
  "ParseQuery query = (if 10000 < length (split_char (CHR ''&'') query) then ([], False) else query_values query)"

fun join_amp :: "string list \<Rightarrow> string" where
  "join_amp [] = []"
| "join_amp [x] = x"
| "join_amp (x # y # xs) = x @ CHR ''&'' # join_amp (y # xs)"

definition Values_Encode :: "Values \<Rightarrow> string" where
  "Values_Encode m = join_amp (concat (map (\<lambda>(k, vs). map (\<lambda>v. QueryEscape k @ CHR ''='' # QueryEscape v) vs) (sort_key fst m)))"

section \<open>Escaping\<close>

lemma QueryEscape_Nil [simp]: "QueryEscape [] = []"
  by (simp add: QueryEscape_def)

lemma QueryEscape_Cons: "QueryEscape (c # s) = (if unreserved c then [c] else if c = CHR '' '' then ''+''
     else [CHR ''%'', hex_digit (of_char c div 16), hex_digit (of_char c mod 16)]) @ QueryEscape s"
  by (simp add: QueryEscape_def)

lemma unreserved_query: "unreserved c \<Longrightarrow> c \<notin> set ''%+&=;''"
  by (auto simp: unreserved_def)

lemma hex_digit_query: "n < 16 \<Longrightarrow> hex_digit n \<notin> set ''%+&=;''"
  using hex_val_digit [of n] by (auto simp: hex_val_def)

lemma QueryUnescape_QueryEscape: "QueryUnescape (QueryEscape s) = Some s"
proof (induction s)
  case (Cons c s)
  have "hex_val (hex_digit (of_char c div 16)) = Some (of_char c div 16)"
    "hex_val (hex_digit (of_char c mod 16)) = Some (of_char c mod 16)"
    by (rule hex_val_digit, rule of_char_nibbles)+
  then show ?case using Cons unreserved_query [of c] by (auto simp: QueryEscape_Cons)
qed simp

lemma QueryEscape_plain: "set (QueryEscape s) \<inter> set ''&=;'' = {}"
proof (induction s)
  case (Cons c s)
  have "hex_digit (of_char c div 16) \<notin> set ''%+&=;''" "hex_digit (of_char c mod 16) \<notin> set ''%+&=;''"
    by (rule hex_digit_query, rule of_char_nibbles)+
  then show ?case using Cons unreserved_query [of c] by (auto simp: QueryEscape_Cons)
qed simp

section \<open>Reading what was written\<close>

text \<open>Every key once, with at least one value: what \<open>url.Values\<close> holds after a parse or a \<open>Set\<close>.\<close>

definition proper_values :: "Values \<Rightarrow> bool" where
  "proper_values m \<longleftrightarrow> distinct (map fst m) \<and> (\<forall>vs\<in>set (map snd m). vs \<noteq> [])"

lemma split_char_plain: "x \<notin> set s \<Longrightarrow> split_char x s = [s]"
  by (induction s) auto

lemma split_char_append: "x \<notin> set s \<Longrightarrow> split_char x (s @ x # t) = s # split_char x t"
  by (induction s) auto

lemma split_join: "xs \<noteq> [] \<Longrightarrow> (\<And>x. x \<in> set xs \<Longrightarrow> CHR ''&'' \<notin> set x) \<Longrightarrow> split_char (CHR ''&'') (join_amp xs) = xs"
  by (induction xs rule: join_amp.induct) (simp_all add: split_char_plain split_char_append)

definition pair_text :: "string \<times> string \<Rightarrow> string" where
  "pair_text kv = QueryEscape (fst kv) @ CHR ''='' # QueryEscape (snd kv)"

definition all_pairs :: "Values \<Rightarrow> (string \<times> string) list" where
  "all_pairs m = concat (map (\<lambda>(k, vs). map (Pair k) vs) m)"

lemma Values_Encode_pairs: "Values_Encode m = join_amp (map pair_text (all_pairs (sort_key fst m)))"
  by (simp add: Values_Encode_def all_pairs_def pair_text_def map_concat comp_def case_prod_unfold)

lemma parse_pair_text: "parse_pair (pair_text kv) = Some kv"
proof -
  have k: "CHR ''='' \<notin> set (QueryEscape x)" "CHR '';'' \<notin> set (QueryEscape x)" for x
    using QueryEscape_plain [of x] by auto
  have "takeWhile (\<lambda>c. c \<noteq> CHR ''='') (pair_text kv) = QueryEscape (fst kv)"
    "dropWhile (\<lambda>c. c \<noteq> CHR ''='') (pair_text kv) = CHR ''='' # QueryEscape (snd kv)"
    using k(1) [of "fst kv"] by (auto simp: pair_text_def takeWhile_append dropWhile_append)
  then show ?thesis using k(2) by (simp add: parse_pair_def QueryUnescape_QueryEscape) (simp add: pair_text_def)
qed

lemma query_values_pairs:
  "query_values (join_amp (map pair_text kvs)) = (fold (\<lambda>(k, v). values_add k v) kvs [], True)"
proof (cases "kvs = []")
  case True
  then show ?thesis by (simp add: query_values_def)
next
  case False
  have "CHR ''&'' \<notin> set (pair_text kv)" for kv
    using QueryEscape_plain [of "fst kv"] QueryEscape_plain [of "snd kv"] by (auto simp: pair_text_def)
  then have s: "split_char (CHR ''&'') (join_amp (map pair_text kvs)) = map pair_text kvs"
    by (intro split_join) (use False in auto)
  have f: "filter (\<lambda>p. p \<noteq> []) (map pair_text kvs) = map pair_text kvs" by (auto simp: pair_text_def intro!: filter_True)
  have "fold (\<lambda>p m. case p of None \<Rightarrow> m | Some (k, v) \<Rightarrow> values_add k v m) (map Some kvs) m = fold (\<lambda>(k, v). values_add k v) kvs m" for m
    by (induction kvs arbitrary: m) auto
  moreover have "map parse_pair (map pair_text kvs) = map Some kvs" by (simp add: parse_pair_text)
  ultimately show ?thesis by (simp only: query_values_def s f Let_def) (simp add: list_all_iff)
qed

lemma values_add_known: "k \<notin> fst ` set m \<Longrightarrow> values_add k v (m @ [(k, vs)]) = m @ [(k, vs @ [v])]"
  by (induction m) auto

lemma values_add_new: "k \<notin> fst ` set m \<Longrightarrow> values_add k v m = m @ [(k, [v])]"
  by (induction m) auto

lemma fold_values_add_key:
  assumes "k \<notin> fst ` set m" and "vs \<noteq> []"
  shows "fold (\<lambda>(k, v). values_add k v) (map (Pair k) vs) m = m @ [(k, vs)]"
proof -
  have *: "fold (\<lambda>(k, v). values_add k v) (map (Pair k) vs) (m @ [(k, us)]) = m @ [(k, us @ vs)]" for us vs
    using assms(1) by (induction vs arbitrary: us) (simp_all add: values_add_known)
  show ?thesis
  proof (cases vs)
    case (Cons v us)
    then show ?thesis using assms(1) * [where us = "[v]" and vs = us] by (simp add: values_add_new)
  qed (use assms(2) in simp)
qed

lemma fold_values_add_all: "proper_values (m' @ m) \<Longrightarrow> fold (\<lambda>(k, v). values_add k v) (all_pairs m) m' = m' @ m"
proof (induction m arbitrary: m')
  case (Cons kvs m)
  obtain k vs where kvs: "kvs = (k, vs)" by fastforce
  have "fold (\<lambda>(k, v). values_add k v) (map (Pair k) vs) m' = m' @ [(k, vs)]"
    by (rule fold_values_add_key) (use Cons.prems in \<open>auto simp: kvs proper_values_def\<close>)
  then show ?case using Cons.IH [of "m' @ [(k, vs)]"] Cons.prems by (simp add: kvs all_pairs_def)
qed (simp add: all_pairs_def)

lemma proper_sort: "proper_values m \<Longrightarrow> proper_values (sort_key f m)"
  unfolding proper_values_def
  by (metis (no_types, lifting) distinct_map distinct_sort set_map set_sort)

lemma query_values_Encode: "proper_values m \<Longrightarrow> query_values (Values_Encode m) = (sort_key fst m, True)"
  using fold_values_add_all [of "[]" "sort_key fst m"] proper_sort [of m fst] by (simp add: Values_Encode_pairs query_values_pairs)

lemma proper_add: "proper_values m \<Longrightarrow> proper_values (values_add k v m) \<and> fst ` set (values_add k v m) = insert k (fst ` set m)"
  by (induction k v m rule: values_add.induct) (auto simp: proper_values_def)

lemma proper_fold: "proper_values m \<Longrightarrow> proper_values (fold (\<lambda>p m. case p of None \<Rightarrow> m | Some (k, v) \<Rightarrow> values_add k v m) ps m)"
  by (induction ps arbitrary: m) (auto simp: proper_add split: option.splits)

lemma proper_ParseQuery: "proper_values (fst (ParseQuery query))"
  using proper_fold [of "[]"] by (simp add: ParseQuery_def query_values_def Let_def) (simp add: proper_values_def)

lemma map_of_replace:
  "map_of (map (\<lambda>(k', vs). if k' = k then (k', [v]) else (k', vs)) m) x =
     (if x = k \<and> k \<in> fst ` set m then Some [v] else map_of m x)"
proof (induction m)
  case (Cons p m)
  obtain a b where p: "p = (a, b)" by fastforce
  show ?case by (cases "a = k"; cases "x = a") (simp_all add: p Cons.IH)
qed simp

lemma map_of_Set: "map_of (Values_Set k v m) = (map_of m)(k \<mapsto> [v])"
proof (cases "k \<in> fst ` set m")
  case True
  then show ?thesis by (intro ext) (simp add: Values_Set_def map_of_replace)
next
  case False
  then have "map_of m k = None" by (simp add: map_of_eq_None_iff)
  with False show ?thesis by (auto simp: Values_Set_def map_add_def split: option.split)
qed

lemma proper_Set: "proper_values m \<Longrightarrow> proper_values (Values_Set k v m)"
proof -
  have "map fst (map (\<lambda>(k', vs). if k' = k then (k', [v]) else (k', vs)) m) = map fst m" by (induction m) auto
  then show "proper_values m \<Longrightarrow> proper_values (Values_Set k v m)"
    by (auto simp: proper_values_def Values_Set_def simp del: map_map split: if_splits)
qed

lemma map_of_sort: "distinct (map fst m) \<Longrightarrow> map_of (sort_key f m) = map_of m"
  by (rule map_of_inject_set [THEN iffD2]) (auto simp: distinct_map)

text \<open>The parameters that are read from the text of changed values: the changed one, and all others as they were.\<close>

lemma query_values_Set:
  "map_of (fst (query_values (Values_Encode (Values_Set k v (fst (ParseQuery query)))))) = (map_of (fst (ParseQuery query)))(k \<mapsto> [v])"
  using proper_Set [OF proper_ParseQuery]
  by (simp add: query_values_Encode map_of_sort proper_values_def map_of_Set)

end
