(* ===== verification/AnchorService.thy ===== *)
theory AnchorService
  imports AnchorRepo Query ChainService Middleware Money
begin

text \<open>
  \<open>backend/services/anchor\<close>: the proxy to one operator-configured anchor (SEP-1, 6, 10, 12, 24, 38),
  its transaction ledger and the trustline cache (client.go, service.go, handler.go, endpoint.go, the
  router of \<open>cmd/anchorsvc\<close>). Parameters: the SDK's stellar.toml client and transaction builder, the
  TOML decoder, reading and writing of JSON text, the parsing of URLs.
\<close>

section \<open>Configuration and environment\<close>

record anchor_Config =
  AnchorID :: string
  AnchorDomain :: string
  an_AssetCode :: string
  an_AssetIssuer :: string
  an_Decimals :: u8

record TomlResponse =
  toml_SigningKey :: string
  toml_WebAuthEndpoint :: string
  toml_TransferServer :: string
  toml_KycServer :: string
  toml_TransferServer0024 :: string

datatype anchor_asset = NativeAsset | CreditAsset string string

datatype memo = MemoID u64 | MemoText string

datatype anchor_op =
    ChangeTrust anchor_asset string \<comment> \<open>line, source account\<close>
  | Payment string string anchor_asset string \<comment> \<open>destination, amount, asset, source account\<close>

record anchor_tx =
  atx_AccountID :: string
  atx_Sequence :: i64
  atx_IncrementSequenceNum :: bool
  atx_Operations :: "anchor_op list"
  atx_Memo :: "memo option"
  atx_Timeout :: int

record 'tx anchor_env =
  env_net :: internet
  GetStellarToml :: "out_request list \<Rightarrow> string \<Rightarrow> TomlResponse res"
  WellKnownPath :: string
  StellarTomlMaxSize :: nat
  toml_QuoteServer :: "string \<Rightarrow> string res" \<comment> \<open>decode \<open>ANCHOR_QUOTE_SERVER\<close>\<close>
  json_first :: "string \<Rightarrow> http_body" \<comment> \<open>the first value of a text\<close>
  json_whole :: "string \<Rightarrow> json option" \<comment> \<open>the value of a valid document\<close>
  json_text :: "json \<Rightarrow> string"
  go_Quote :: "string \<Rightarrow> string"
  env_numeric :: numeric_cast
  newAnchorTx :: "anchor_tx \<Rightarrow> 'tx res"
  changeTrustOk :: "anchor_asset \<Rightarrow> bool" \<comment> \<open>\<open>MustToChangeTrustAsset\<close> does not panic\<close>
  anchorTx_Base64 :: "'tx \<Rightarrow> string res"

record 'tx anchor_Service =
  an_cfg :: anchor_Config
  an_ready :: bool \<comment> \<open>\<open>pool.Get()\<close> has a pool\<close>
  an_pool_ready :: bool \<comment> \<open>\<open>pool.Ready()\<close>\<close>
  an_chain :: ChainGateway
  an_sdk :: "'tx sdk"
  an_env :: "'tx anchor_env"

text \<open>What changes: the client's allow-list, the cached info, the requests sent, the database.\<close>

record anchor_world =
  aw_hc :: http_client
  aw_cachedInfo :: "Info option"
  aw_sent :: "out_request list"
  aw_db :: pay_db

text \<open>An anchor that rejects the caller's token is an error type of its own.\<close>

datatype anchor_error = AnchorAuthError nat string | AnchorErr go_error

fun anchor_err_text :: "anchor_error \<Rightarrow> string" where
  "anchor_err_text (AnchorAuthError st body) = ''anchor.upstream_failed: anchor returned '' @ string_of_nat st @ '': '' @ body"
| "anchor_err_text (AnchorErr e) = err_text e"

definition AnchorErrDBNotReadyErr :: go_error where "AnchorErrDBNotReadyErr = Sentinel ''anchor.db_not_ready''"
definition errNotAllowed :: go_error where "errNotAllowed = Sentinel ''anchor.not_allowed''"
definition errAuthRequired :: go_error where "errAuthRequired = Sentinel ''anchor.auth_required''"
definition anErrChainUnavailable :: go_error where "anErrChainUnavailable = Sentinel ''chain.rpc_unavailable''"
definition errTrustlineMissing :: go_error where "errTrustlineMissing = Sentinel ''anchor.trustline_missing''"
definition errBadRequest :: go_error where "errBadRequest = Sentinel ''anchor.bad_request''"
definition anErrAccountNotFunded :: go_error where "anErrAccountNotFunded = Sentinel ''anchor.account_not_funded''"

section \<open>Client\<close>

definition AllowHost :: "string \<Rightarrow> anchor_world \<Rightarrow> anchor_world" where
  "AllowHost host w = w\<lparr>aw_hc := AddAllowedHost (aw_hc w) host\<rparr>"

definition requireHTTPS :: "url \<Rightarrow> bool" where
  "requireHTTPS u \<longleftrightarrow> url_Scheme u = ''https'' \<and> Hostname u \<noteq> [] \<and> \<not> url_User u"

definition errNotHTTPS :: go_error where
  "errNotHTTPS = Opaque ''anchor.upstream_failed: anchor endpoint must use HTTPS and contain no credentials''"

definition client_send :: "'tx anchor_Service \<Rightarrow> out_request \<Rightarrow> anchor_world \<Rightarrow> out_response res \<times> anchor_world" where
  "client_send s req w =
     (let net = env_net (an_env s) in
      case Client_Do (net_resolve net) (aw_hc w) (net_send net) req (aw_sent w) of
        (r, sent) \<Rightarrow> (r, w\<lparr>aw_sent := sent\<rparr>))"

definition FetchTOML :: "'tx anchor_Service \<Rightarrow> string \<Rightarrow> anchor_world \<Rightarrow> TomlResponse res" where
  "FetchTOML s domain w =
     (case GetStellarToml (an_env s) (aw_sent w) domain of
        Inl e \<Rightarrow> Inl (Wrap ''anchor.toml_unavailable'' e) | Inr resp \<Rightarrow> Inr resp)"

definition FetchQuoteServer :: "'tx anchor_Service \<Rightarrow> string \<Rightarrow> anchor_world \<Rightarrow> string res \<times> anchor_world" where
  "FetchQuoteServer s domain w =
     (case net_parse (env_net (an_env s)) (''https://'' @ domain @ WellKnownPath (an_env s)) of
        Inl e \<Rightarrow> (Inl e, w)
      | Inr u \<Rightarrow>
          (case client_send s \<lparr>or_Method = ''GET'', or_URL = u, or_Header = [], or_Body = []\<rparr> w of
             (Inl e, w1) \<Rightarrow> (Inl (Wrap ''anchor.toml_unavailable'' e), w1)
           | (Inr resp, w1) \<Rightarrow>
               if 400 \<le> os_StatusCode resp
               then (Inl (Opaque (''anchor.toml_unavailable: stellar.toml returned '' @ string_of_nat (os_StatusCode resp))), w1)
               else (case toml_QuoteServer (an_env s) (take (StellarTomlMaxSize (an_env s)) (os_Body resp)) of
                       Inl e \<Rightarrow> (Inl (Wrap ''anchor.toml_unavailable: parse ANCHOR_QUOTE_SERVER'' e), w1)
                     | Inr q \<Rightarrow> (Inr q, w1))))"

definition getJSON :: "'tx anchor_Service \<Rightarrow> url \<Rightarrow> 'a fields \<Rightarrow> 'a \<Rightarrow> anchor_world \<Rightarrow> 'a res \<times> anchor_world" where
  "getJSON s u fs zero w =
     (case client_send s \<lparr>or_Method = ''GET'', or_URL = u, or_Header = [], or_Body = []\<rparr> w of
        (Inl e, w1) \<Rightarrow> (Inl (Wrap ''anchor.upstream_failed'' e), w1)
      | (Inr resp, w1) \<Rightarrow>
          if 400 \<le> os_StatusCode resp
          then (Inl (Opaque (''anchor.upstream_failed: anchor returned '' @ string_of_nat (os_StatusCode resp))), w1)
          else (case Decode fs (json_first (an_env s) (os_Body resp)) zero of
                  (Some _, _) \<Rightarrow> (Inl (Opaque ''json''), w1) | (None, v) \<Rightarrow> (Inr v, w1)))"

definition bearer_header :: "string \<Rightarrow> (string \<times> string) list" where
  "bearer_header bearer = (if bearer = [] then [] else [(''Authorization'', ''Bearer '' @ bearer)])"

definition postJSON ::
  "'tx anchor_Service \<Rightarrow> string \<Rightarrow> string \<Rightarrow> string \<Rightarrow> 'a fields \<Rightarrow> 'a \<Rightarrow> anchor_world \<Rightarrow> 'a res \<times> anchor_world" where
  "postJSON s rawURL bearer payload fs zero w =
     (case net_parse (env_net (an_env s)) rawURL of
        Inl e \<Rightarrow> (Inl e, w)
      | Inr u \<Rightarrow>
          if \<not> requireHTTPS u then (Inl errNotHTTPS, w)
          else (case client_send s \<lparr>or_Method = ''POST'', or_URL = u,
                       or_Header = (''Content-Type'', ''application/json'') # bearer_header bearer, or_Body = payload\<rparr> w of
                  (Inl e, w1) \<Rightarrow> (Inl (Wrap ''anchor.upstream_failed'' e), w1)
                | (Inr resp, w1) \<Rightarrow>
                    if 400 \<le> os_StatusCode resp
                    then (Inl (Opaque (''anchor.upstream_failed: anchor returned '' @ string_of_nat (os_StatusCode resp) @ '': '' @ os_Body resp)), w1)
                    else (case json_whole (an_env s) (os_Body resp) of
                            None \<Rightarrow> (Inl (Opaque ''json''), w1)
                          | Some v \<Rightarrow> (case unmarshal_struct fs zero v of None \<Rightarrow> (Inl (Opaque ''json''), w1) | Some x \<Rightarrow> (Inr x, w1)))))"

definition SEP10Challenge :: "'tx anchor_Service \<Rightarrow> string \<Rightarrow> string \<Rightarrow> anchor_world \<Rightarrow> (string \<times> string) res \<times> anchor_world" where
  "SEP10Challenge s webAuthEndpoint acct w =
     (case net_parse (env_net (an_env s)) webAuthEndpoint of
        Inl e \<Rightarrow> (Inl (Wrap ''anchor.upstream_failed: bad WEB_AUTH_ENDPOINT'' e), w)
      | Inr u \<Rightarrow>
          if \<not> requireHTTPS u then (Inl errNotHTTPS, w)
          else getJSON s (u\<lparr>url_RawQuery := Values_Encode (Values_Set ''account'' acct (fst (ParseQuery (url_RawQuery u))))\<rparr>)
                 [(''transaction'', put_string (\<lambda>x (_, p). (x, p))), (''network_passphrase'', put_string (\<lambda>x (t, _). (t, x)))]
                 ([], []) w)"

definition SEP10Token :: "'tx anchor_Service \<Rightarrow> string \<Rightarrow> string \<Rightarrow> anchor_world \<Rightarrow> string res \<times> anchor_world" where
  "SEP10Token s webAuthEndpoint signedTransaction w =
     postJSON s webAuthEndpoint [] (json_text (an_env s) (JObj [(''transaction'', jstr signedTransaction)]))
       [(''token'', put_string (\<lambda>x _. x))] [] w"

definition SEP24Interactive ::
  "'tx anchor_Service \<Rightarrow> string \<Rightarrow> string \<Rightarrow> string \<Rightarrow> string \<Rightarrow> string \<Rightarrow> anchor_world \<Rightarrow> (string \<times> string) res \<times> anchor_world" where
  "SEP24Interactive s transferServer kind anchorToken assetCode acct w =
     postJSON s (TrimRight transferServer ''/'' @ ''/transactions/'' @ kind @ ''/interactive'') anchorToken
       (json_text (an_env s) (JObj [(''account'', jstr acct), (''asset_code'', jstr assetCode)]))
       [(''type'', put_string (\<lambda>_ x. x)), (''url'', put_string (\<lambda>x (i, _). (i, x))), (''id'', put_string (\<lambda>x (_, u). (x, u)))] ([], []) w"

definition SEP24Transactions :: "'tx anchor_Service \<Rightarrow> string \<Rightarrow> string \<Rightarrow> string \<Rightarrow> anchor_world \<Rightarrow> string res \<times> anchor_world" where
  "SEP24Transactions s transferServer anchorToken assetCode w =
     (case net_parse (env_net (an_env s)) (TrimRight transferServer ''/'' @ ''/transactions?asset_code='' @ QueryEscape assetCode) of
        Inl e \<Rightarrow> (Inl e, w)
      | Inr u \<Rightarrow>
          (case client_send s \<lparr>or_Method = ''GET'', or_URL = u, or_Header = [(''Authorization'', ''Bearer '' @ anchorToken)], or_Body = []\<rparr> w of
             (Inl e, w1) \<Rightarrow> (Inl (Wrap ''anchor.upstream_failed'' e), w1)
           | (Inr resp, w1) \<Rightarrow>
               if 400 \<le> os_StatusCode resp
               then (Inl (Opaque (''anchor.upstream_failed: anchor returned '' @ string_of_nat (os_StatusCode resp) @ '': '' @ os_Body resp)), w1)
               else (Inr (os_Body resp), w1)))"

definition TrimLeft :: "string \<Rightarrow> string \<Rightarrow> string" where
  "TrimLeft s cutset = dropWhile (\<lambda>c. c \<in> set cutset) s"

definition ProxyJSON ::
  "'tx anchor_Service \<Rightarrow> string \<Rightarrow> string \<Rightarrow> string \<Rightarrow> string \<Rightarrow> string \<Rightarrow> string \<Rightarrow> string option \<Rightarrow> anchor_world \<Rightarrow>
     (anchor_error + string) \<times> anchor_world" where
  "ProxyJSON s meth base path rawQuery bearer contentType payload w =
     (case net_parse (env_net (an_env s)) (TrimRight base ''/'' @ ''/'' @ TrimLeft path ''/'') of
        Inl e \<Rightarrow> (Inl (AnchorErr (Wrap ''anchor.upstream_failed: bad SEP endpoint'' e)), w)
      | Inr u \<Rightarrow>
          if \<not> requireHTTPS u then (Inl (AnchorErr errNotHTTPS), w)
          else
            (let ctype = (case payload of None \<Rightarrow> [] | Some _ \<Rightarrow>
                   [(''Content-Type'', if contentType = [] then ''application/json'' else contentType)]) in
             case client_send s \<lparr>or_Method = meth, or_URL = u\<lparr>url_RawQuery := rawQuery\<rparr>, or_Header = bearer_header bearer @ ctype,
                    or_Body = (case payload of None \<Rightarrow> [] | Some b \<Rightarrow> b)\<rparr> w of
               (Inl e, w1) \<Rightarrow> (Inl (AnchorErr (Wrap ''anchor.upstream_failed'' e)), w1)
             | (Inr resp, w1) \<Rightarrow>
                 (let responseBody = take 2097152 (os_Body resp) in
                  if os_StatusCode resp \<in> {401, 403} then (Inl (AnchorAuthError (os_StatusCode resp) responseBody), w1)
                  else if 400 \<le> os_StatusCode resp
                  then (Inl (AnchorErr (Opaque (''anchor.upstream_failed: anchor returned '' @ string_of_nat (os_StatusCode resp) @ '': '' @ responseBody))), w1)
                  else if json_whole (an_env s) responseBody = None
                  then (Inl (AnchorErr (Opaque ''anchor.upstream_failed: anchor returned invalid JSON'')), w1)
                  else (Inr responseBody, w1))))"

section \<open>Service\<close>

definition checkID :: "'tx anchor_Service \<Rightarrow> string \<Rightarrow> bool" where
  "checkID s i \<longleftrightarrow> i = AnchorID (an_cfg s)"

definition hostnameOf :: "(string \<Rightarrow> url res) \<Rightarrow> string \<Rightarrow> string" where
  "hostnameOf parse rawURL = (if rawURL = [] then [] else hostOf parse rawURL)"

definition anchor_Info :: "'tx anchor_Service \<Rightarrow> string \<Rightarrow> anchor_world \<Rightarrow> Info res \<times> anchor_world" where
  "anchor_Info s i w =
     (if \<not> checkID s i then (Inl errNotAllowed, w)
      else (case aw_cachedInfo w of
              Some info \<Rightarrow> (Inr info, w)
            | None \<Rightarrow>
                (case FetchTOML s (AnchorDomain (an_cfg s)) w of
                   Inl e \<Rightarrow> (Inl e, w)
                 | Inr t \<Rightarrow>
                     (case FetchQuoteServer s (AnchorDomain (an_cfg s)) w of
                        (r, w1) \<Rightarrow>
                          (let quoteServer = (case r of Inl _ \<Rightarrow> [] | Inr q \<Rightarrow> q);
                               endpoints = [toml_WebAuthEndpoint t, toml_TransferServer t, toml_KycServer t, quoteServer, toml_TransferServer0024 t];
                               w2 = fold (\<lambda>endpoint w. let host = hostnameOf (net_parse (env_net (an_env s))) endpoint in
                                      if host \<noteq> [] then AllowHost host w else w) endpoints w1;
                               info = \<lparr>inf_ID = AnchorID (an_cfg s), inf_Domain = AnchorDomain (an_cfg s),
                                       inf_SigningKey = toml_SigningKey t, inf_WebAuthEndpoint = toml_WebAuthEndpoint t,
                                       inf_TransferServer = toml_TransferServer t, inf_KYCServer = toml_KycServer t,
                                       inf_QuoteServer = quoteServer, inf_TransferServer24 = toml_TransferServer0024 t,
                                       inf_AssetCode = an_AssetCode (an_cfg s), inf_AssetIssuer = an_AssetIssuer (an_cfg s)\<rparr>
                           in (Inr info, w2\<lparr>aw_cachedInfo := Some info\<rparr>))))))"

text \<open>The three proxies differ in the server they use.\<close>

definition ProxySep ::
  "(Info \<Rightarrow> string) \<Rightarrow> string \<Rightarrow> 'tx anchor_Service \<Rightarrow> string \<Rightarrow> string \<Rightarrow> string \<Rightarrow> string \<Rightarrow> string \<Rightarrow> string \<Rightarrow> string option \<Rightarrow>
     anchor_world \<Rightarrow> (anchor_error + string) \<times> anchor_world" where
  "ProxySep server name s i meth path rawQuery token contentType body w =
     (case anchor_Info s i w of
        (Inl e, w1) \<Rightarrow> (Inl (AnchorErr e), w1)
      | (Inr info, w1) \<Rightarrow>
          if server info = [] then (Inl (AnchorErr (Opaque (''anchor.upstream_failed: anchor does not publish '' @ name))), w1)
          else ProxyJSON s meth (server info) path rawQuery token contentType body w1)"

definition ProxySep6 where "ProxySep6 = ProxySep inf_TransferServer ''TRANSFER_SERVER''"
definition ProxySep12 where "ProxySep12 = ProxySep inf_KYCServer ''KYC_SERVER''"
definition ProxySep38 where "ProxySep38 = ProxySep inf_QuoteServer ''ANCHOR_QUOTE_SERVER''"

definition anchor_Challenge :: "'tx anchor_Service \<Rightarrow> string \<Rightarrow> string \<Rightarrow> anchor_world \<Rightarrow> (string \<times> string) res \<times> anchor_world" where
  "anchor_Challenge s i acct w =
     (case anchor_Info s i w of
        (Inl e, w1) \<Rightarrow> (Inl e, w1)
      | (Inr info, w1) \<Rightarrow>
          if inf_WebAuthEndpoint info = []
          then (Inl (Opaque ''anchor.upstream_failed: anchor does not publish WEB_AUTH_ENDPOINT''), w1)
          else SEP10Challenge s (inf_WebAuthEndpoint info) acct w1)"

definition anchor_Token :: "'tx anchor_Service \<Rightarrow> string \<Rightarrow> string \<Rightarrow> anchor_world \<Rightarrow> string res \<times> anchor_world" where
  "anchor_Token s i signedTransaction w =
     (case anchor_Info s i w of
        (Inl e, w1) \<Rightarrow> (Inl e, w1)
      | (Inr info, w1) \<Rightarrow> SEP10Token s (inf_WebAuthEndpoint info) signedTransaction w1)"

text \<open>A database operation of the repository, in the world.\<close>

definition on_db :: "(pay_db \<Rightarrow> 'a res \<times> pay_db) \<Rightarrow> anchor_world \<Rightarrow> 'a res \<times> anchor_world" where
  "on_db f w = (case f (aw_db w) of (r, db) \<Rightarrow> (r, w\<lparr>aw_db := db\<rparr>))"

definition zero_tx :: Transaction where
  "zero_tx = \<lparr>tx_ID = [], tx_AnchorID = [], tx_StellarAddress = [], tx_Kind = [], tx_State = [], tx_AmountRaw = [], tx_Decimals = 0,
     tx_StellarTxHash = [], tx_StartedAt = - 62135596800000000000, tx_UpdatedAt = - 62135596800000000000\<rparr>"

text \<open>The flow after the look at the cached trustline: the anchor's SEP-24 server, then the record of the transaction.\<close>

definition interactiveFlow ::
  "'tx anchor_Service \<Rightarrow> string \<Rightarrow> string \<Rightarrow> string \<Rightarrow> string \<Rightarrow> anchor_world \<Rightarrow> (string \<times> string) res \<times> anchor_world" where
  "interactiveFlow s i kind anchorToken stellarAddress w1 =
     (case anchor_Info s i w1 of
        (Inl e, w2) \<Rightarrow> (Inl e, w2)
      | (Inr info, w2) \<Rightarrow>
          if inf_TransferServer24 info = []
          then (Inl (Opaque ''anchor.upstream_failed: anchor publishes no SEP-24 transfer server; use the SEP-6 endpoints''), w2)
          else (case SEP24Interactive s (inf_TransferServer24 info) kind anchorToken (inf_AssetCode info) stellarAddress w2 of
                  (Inl e, w3) \<Rightarrow> (Inl e, w3)
                | (Inr (txID, interactiveURL), w3) \<Rightarrow>
                    (case on_db (UpsertTransaction (env_numeric (an_env s)) (zero_tx\<lparr>tx_ID := txID, tx_AnchorID := i,
                             tx_StellarAddress := stellarAddress, tx_Kind := kind, tx_State := ''incomplete''\<rparr>)) w3 of
                       (Inl e, w4) \<Rightarrow> (Inl (Wrap ''anchor: record transaction'' e), w4)
                     | (Inr _, w4) \<Rightarrow> (Inr (txID, interactiveURL), w4))))"

definition startInteractive ::
  "'tx anchor_Service \<Rightarrow> string \<Rightarrow> string \<Rightarrow> string \<Rightarrow> string \<Rightarrow> anchor_world \<Rightarrow> (string \<times> string) res \<times> anchor_world" where
  "startInteractive s i kind anchorToken stellarAddress w =
     (if anchorToken = [] then (Inl errAuthRequired, w)
      else if \<not> an_ready s then (Inl AnchorErrDBNotReadyErr, w)
      else (case on_db (GetTrustlineState stellarAddress (an_AssetCode (an_cfg s)) (an_AssetIssuer (an_cfg s))) w of
              (t, w1) \<Rightarrow>
                if (case t of Inl _ \<Rightarrow> False | Inr (st, found) \<Rightarrow> \<not> found \<or> st \<noteq> ''active'') then (Inl errTrustlineMissing, w1)
                else interactiveFlow s i kind anchorToken stellarAddress w1))"

definition StartDeposit ::
  "'tx anchor_Service \<Rightarrow> string \<Rightarrow> string \<Rightarrow> string \<Rightarrow> anchor_world \<Rightarrow> (string \<times> string) res \<times> anchor_world" where
  "StartDeposit s i anchorToken stellarAddress = startInteractive s i ''deposit'' anchorToken stellarAddress"

definition StartWithdraw ::
  "'tx anchor_Service \<Rightarrow> string \<Rightarrow> string \<Rightarrow> string \<Rightarrow> anchor_world \<Rightarrow> (string \<times> string) res \<times> anchor_world" where
  "StartWithdraw s i anchorToken stellarAddress = startInteractive s i ''withdraw'' anchorToken stellarAddress"

definition anchor_ReportTransaction :: "'tx anchor_Service \<Rightarrow> string \<Rightarrow> string \<Rightarrow> Transaction \<Rightarrow> anchor_world \<Rightarrow> unit res \<times> anchor_world" where
  "anchor_ReportTransaction s i stellarAddress t w =
     (if \<not> checkID s i then (Inl errNotAllowed, w)
      else if \<not> an_ready s then (Inl AnchorErrDBNotReadyErr, w)
      else on_db (UpdateTransaction (env_numeric (an_env s)) (t\<lparr>tx_AnchorID := i, tx_StellarAddress := stellarAddress\<rparr>)) w)"

definition RecordSep6Transaction :: "'tx anchor_Service \<Rightarrow> string \<Rightarrow> string \<Rightarrow> Transaction \<Rightarrow> anchor_world \<Rightarrow> unit res \<times> anchor_world" where
  "RecordSep6Transaction s i stellarAddress t w =
     (if \<not> checkID s i then (Inl errNotAllowed, w)
      else if \<not> an_ready s then (Inl AnchorErrDBNotReadyErr, w)
      else on_db (CreateTransaction (t\<lparr>tx_AnchorID := i, tx_StellarAddress := stellarAddress\<rparr>)) w)"

definition ListTransactions :: "'tx anchor_Service \<Rightarrow> string \<Rightarrow> anchor_world \<Rightarrow> Transaction list res \<times> anchor_world" where
  "ListTransactions s stellarAddress w =
     (if \<not> an_ready s then (Inl AnchorErrDBNotReadyErr, w) else on_db (ListForAddress stellarAddress) w)"

definition anchor_account :: "'tx anchor_Service \<Rightarrow> string \<Rightarrow> AccountInfo res" where
  "anchor_account s owner =
     (case GetAccount (an_chain s) owner of
        Inl e \<Rightarrow> Inl (Annot anErrChainUnavailable (err_text e))
      | Inr acc \<Rightarrow> if \<not> acc_Exists acc then Inl anErrAccountNotFunded else Inr acc)"

text \<open>\<open>None\<close>: \<open>MustToChangeTrustAsset\<close> panics.\<close>

definition TrustlineXDR :: "'tx anchor_Service \<Rightarrow> string \<Rightarrow> string res option" where
  "TrustlineXDR s owner =
     (if an_AssetIssuer (an_cfg s) = [] then Some (Inl (Opaque ''anchor.upstream_failed: anchor asset issuer not configured''))
      else (case anchor_account s owner of
              Inl e \<Rightarrow> Some (Inl e)
            | Inr acc \<Rightarrow>
                (let asset = CreditAsset (an_AssetCode (an_cfg s)) (an_AssetIssuer (an_cfg s)) in
                 if \<not> changeTrustOk (an_env s) asset then None
                 else Some (case newAnchorTx (an_env s) \<lparr>atx_AccountID = owner, atx_Sequence = acc_Sequence acc,
                              atx_IncrementSequenceNum = True, atx_Operations = [ChangeTrust asset owner], atx_Memo = None, atx_Timeout = 300\<rparr> of
                              Inl e \<Rightarrow> Inl (Wrap ''anchor: build trustline tx'' e)
                            | Inr tx \<Rightarrow> anchorTx_Base64 (an_env s) tx))))"

definition withdrawMemo :: "(string \<Rightarrow> string) \<Rightarrow> string \<Rightarrow> string \<Rightarrow> memo option res" where
  "withdrawMemo quote memoType m =
     (if m = [] then Inr None
      else if memoType = ''id'' then
        (if all_digits m \<and> nat_of_digits m < 2 ^ 64 then Inr (Some (MemoID (of_nat (nat_of_digits m))))
         else Inl (Annot errBadRequest ''memo_type id needs an unsigned integer memo''))
      else if memoType = ''text'' then
        (if length m > 28 then Inl (Annot errBadRequest ''text memo exceeds 28 bytes'') else Inr (Some (MemoText m)))
      else Inl (Annot errBadRequest (''unsupported memo_type '' @ quote memoType)))"

definition WithdrawPaymentXDR :: "'tx anchor_Service \<Rightarrow> string \<Rightarrow> string \<Rightarrow> string \<Rightarrow> string \<Rightarrow> string \<Rightarrow> string res" where
  "WithdrawPaymentXDR s owner destination memoType m amountStr =
     (let c = an_cfg s in
      if \<not> IsValidAccountAddress (an_sdk s) destination
      then Inl (Annot errBadRequest ''destination is not a valid Stellar account'')
      else (case ParseAmount amountStr \<lparr>Code = an_AssetCode c, Issuer = an_AssetIssuer c, ContractID = []\<rparr> (an_Decimals c) of
              Inl e \<Rightarrow> Inl (Annot errBadRequest (err_text e))
            | Inr amount \<Rightarrow>
                if Raw amount \<le> 0 then Inl (Annot errBadRequest ''amount must be positive'')
                else (case withdrawMemo (go_Quote (an_env s)) memoType m of
                        Inl e \<Rightarrow> Inl e
                      | Inr txMemo \<Rightarrow>
                          (case anchor_account s owner of
                             Inl e \<Rightarrow> Inl e
                           | Inr acc \<Rightarrow>
                               (case newAnchorTx (an_env s) \<lparr>atx_AccountID = owner, atx_Sequence = acc_Sequence acc,
                                  atx_IncrementSequenceNum = True,
                                  atx_Operations = [Payment destination (Amount_String amount)
                                    (if an_AssetIssuer c \<noteq> [] then CreditAsset (an_AssetCode c) (an_AssetIssuer c) else NativeAsset) owner],
                                  atx_Memo = txMemo, atx_Timeout = 300\<rparr> of
                                  Inl e \<Rightarrow> Inl (Wrap ''anchor: build withdraw payment tx'' e)
                                | Inr tx \<Rightarrow> anchorTx_Base64 (an_env s) tx)))))"

definition ConfirmTrustline :: "'tx anchor_Service \<Rightarrow> string \<Rightarrow> anchor_world \<Rightarrow> unit res \<times> anchor_world" where
  "ConfirmTrustline s owner w =
     (let code = an_AssetCode (an_cfg s); issuer = an_AssetIssuer (an_cfg s) in
      if issuer = [] \<or> code = ''native'' then (Inr (), w)
      else if \<not> an_ready s then (Inl AnchorErrDBNotReadyErr, w)
      else (case GetTrustline (an_chain s) owner code issuer of
              Inl e \<Rightarrow> (Inl (Annot anErrChainUnavailable (err_text e)), w)
            | Inr trustline \<Rightarrow>
                if \<not> tl_Exists trustline
                then (case on_db (SetTrustline owner code issuer ''missing'' 0) w of
                        (Inl e, w1) \<Rightarrow> (Inl e, w1) | (Inr _, w1) \<Rightarrow> (Inl errTrustlineMissing, w1))
                else (case GetLedger (an_chain s) of
                        Inl e \<Rightarrow> (Inl (Annot anErrChainUnavailable (err_text e)), w)
                      | Inr ledger \<Rightarrow> on_db (SetTrustline owner code issuer ''active'' (ldg_Sequence ledger)) w)))"

end
