(* ===== verification/AnchorHttp.thy ===== *)
theory AnchorHttp
  imports AnchorService
begin

text \<open>
  The HTTP side of the anchor service (\<open>services/anchor/handler.go\<close>, \<open>endpoint.go\<close> and the router of
  \<open>cmd/anchorsvc\<close>). The SEP proxies read the raw query and the raw body of the request, which come as
  a further argument beside the request as the other handlers see it.
\<close>

section \<open>Requests and errors\<close>

record raw_request =
  raw_Query :: string \<comment> \<open>\<open>r.URL.RawQuery\<close>\<close>
  raw_Body :: string \<comment> \<open>what the client sends, before \<open>MaxBody\<close>\<close>

datatype anchor_payload =
    AInfos "Info list" | AStrings "(string \<times> string) list" | ARaw string | ATransactions "Transaction list"
  | AFlag string bool | AHealth bool

type_synonym anchor_handler = "(anchor_world, anchor_payload) handler"

definition an_callerAddress :: "http_request \<Rightarrow> string option" where
  "an_callerAddress r = map_option claims_StellarAccount (ClaimsFromContext r)"

definition anchorTokenFromHeader :: "http_request \<Rightarrow> string" where
  "anchorTokenFromHeader r = req_Header r ''X-Anchor-Token''"

text \<open>\<open>strings.Contains\<close>.\<close>

fun Contains :: "string \<Rightarrow> string \<Rightarrow> bool" where
  "Contains [] sub \<longleftrightarrow> sub = []"
| "Contains (c # cs) sub \<longleftrightarrow> take (length sub) (c # cs) = sub \<or> Contains cs sub"

definition anchorErrorTable :: "(go_error \<times> string \<times> nat) list" where
  "anchorErrorTable =
    [(AnchorErrDBNotReadyErr, ''anchor.db_not_ready'', 503), (errNotAllowed, ''anchor.not_allowed'', 404),
     (errAuthRequired, ''anchor.auth_required'', 401), (AnchorErrNotFoundInRepo, ''anchor.not_allowed'', 403),
     (anErrChainUnavailable, ''chain.rpc_unavailable'', 502), (errTrustlineMissing, ''anchor.trustline_missing'', 422),
     (errBadRequest, ''anchor.bad_request'', 400), (anErrAccountNotFunded, ''anchor.account_not_funded'', 422)]"

definition writeAnchorError :: "anchor_error \<Rightarrow> 'p http_response" where
  "writeAnchorError err =
     (let message = anchor_err_text err;
          fallback = (if Contains message ''anchor.toml_unavailable'' then WriteError 502 ''anchor.toml_unavailable'' message
                      else WriteError 502 ''anchor.upstream_failed'' message) in
      case err of
        AnchorAuthError _ _ \<Rightarrow> WriteError 403 ''anchor.token_rejected'' message
      | AnchorErr e \<Rightarrow>
          (case find (\<lambda>(target, _). errors_Is e target) anchorErrorTable of
             Some (_, code, status) \<Rightarrow> WriteError status code message
           | None \<Rightarrow> fallback))"

definition missingClaims :: "'p http_response" where
  "missingClaims = WriteError 401 ''auth.invalid_token'' ''missing bearer claims''"

section \<open>Handlers\<close>

text \<open>What the anchor answered to a SEP-6 deposit or withdraw: the id it gave the transaction.\<close>

definition started_fields :: "(string \<times> string) fields" where
  "started_fields = [(''id'', put_string (\<lambda>x (_, t). (x, t))), (''transaction_id'', put_string (\<lambda>x (i, _). (i, x)))]"

definition started_id :: "'tx anchor_Service \<Rightarrow> string \<Rightarrow> string" where
  "started_id s result =
     (case json_whole (an_env s) result of
        None \<Rightarrow> []
      | Some v \<Rightarrow> (case unmarshal_struct started_fields ([], []) v of
                    None \<Rightarrow> [] | Some (i, t) \<Rightarrow> if i = [] then t else i))"

text \<open>The body of a request that is not a \<open>GET\<close>, or the message it is refused with.\<close>

definition sepBody :: "'tx anchor_Service \<Rightarrow> http_request \<Rightarrow> raw_request \<Rightarrow> string + string option" where
  "sepBody s r raw =
     (let isMultipart = CutPrefix (req_Header r ''Content-Type'') ''multipart/'' \<noteq> None;
          bodyLimit = (if isMultipart then 8388608 else 1048576) in
      if req_Method r = ''GET'' then Inr None
      else (case MaxBody_ReadAll 1048576 bodyLimit (raw_Body raw) of
              None \<Rightarrow> Inl ''invalid request body''
            | Some body \<Rightarrow>
                if \<not> isMultipart \<and> body \<noteq> [] \<and> json_whole (an_env s) body = None then Inl ''body must be valid JSON''
                else Inr (Some body)))"

text \<open>The query sent on: a SEP-6 deposit or withdraw is checked against, a deposit bound to, the caller's account.\<close>

definition sepQuery :: "string \<Rightarrow> string \<Rightarrow> http_request \<Rightarrow> raw_request \<Rightarrow> string \<Rightarrow> anchor_payload http_response + string" where
  "sepQuery sep path r raw acct =
     (if sep = ''sep6'' \<and> path \<in> {''deposit'', ''withdraw''} \<and> req_Method r = ''GET'' then
        (case ParseQuery (raw_Query raw) of
           (values, ok) \<Rightarrow>
             if \<not> ok then Inl (WriteError 400 ''anchor.bad_request'' ''invalid query string'')
             else if Values_Get values ''account'' \<noteq> [] \<and> Values_Get values ''account'' \<noteq> acct
             then Inl (WriteError 403 ''anchor.not_allowed'' ''deposit account must match the authenticated Stellar account'')
             else Inr (Values_Encode (if path = ''deposit'' then Values_Set ''account'' acct values else values)))
      else Inr (raw_Query raw))"

definition sepProxy :: "'tx anchor_Service \<Rightarrow> raw_request \<Rightarrow> string \<Rightarrow> anchor_handler" where
  "sepProxy s raw sep r w =
     (let i = PathValue r ''id''; path = PathValue r ''path''; token = anchorTokenFromHeader r;
          contentType = req_Header r ''Content-Type'' in
      case an_callerAddress r of
        None \<Rightarrow> (missingClaims, w)
      | Some acct \<Rightarrow>
      (case sepBody s r raw of
         Inl message \<Rightarrow> (WriteError 400 ''anchor.bad_request'' message, w)
       | Inr body \<Rightarrow>
      (case sepQuery sep path r raw acct of
         Inl resp \<Rightarrow> (resp, w)
       | Inr query \<Rightarrow>
          if \<not> (sep = ''sep6'' \<and> path = ''info'') \<and> TrimSpace token = []
          then (WriteError 401 ''anchor.auth_required'' ''X-Anchor-Token is required'', w)
          else
            (case (if sep = ''sep6'' then ProxySep6 else if sep = ''sep12'' then ProxySep12 else ProxySep38)
                    s i (req_Method r) path query token contentType body w of
               (Inl e, w1) \<Rightarrow> (writeAnchorError e, w1)
             | (Inr result, w1) \<Rightarrow>
                 (let txID = started_id s result;
                      w2 = (if sep = ''sep6'' \<and> req_Method r = ''GET'' \<and> path \<in> {''deposit'', ''withdraw''} \<and> txID \<noteq> []
                            then snd (RecordSep6Transaction s i acct
                                   (zero_tx\<lparr>tx_ID := txID, tx_Kind := path, tx_State := ''pending_user_transfer_start''\<rparr>) w1)
                            else w1)
                  in (WriteData 200 (ARaw result), w2))))))"

definition an_List :: "'tx anchor_Service \<Rightarrow> anchor_handler" where
  "an_List s r w =
     (case anchor_Info s (AnchorID (an_cfg s)) w of
        (Inl e, w1) \<Rightarrow> (writeAnchorError (AnchorErr e), w1)
      | (Inr info, w1) \<Rightarrow> (WriteData 200 (AInfos [info]), w1))"

definition an_h_Challenge :: "'tx anchor_Service \<Rightarrow> anchor_handler" where
  "an_h_Challenge s r w =
     (case an_callerAddress r of
        None \<Rightarrow> (missingClaims, w)
      | Some acct \<Rightarrow>
          (case anchor_Challenge s (PathValue r ''id'') acct w of
             (Inl e, w1) \<Rightarrow> (writeAnchorError (AnchorErr e), w1)
           | (Inr (tx, passphrase), w1) \<Rightarrow> (WriteData 200 (AStrings [(''transaction'', tx), (''networkPassphrase'', passphrase)]), w1)))"

definition an_h_Token :: "'tx anchor_Service \<Rightarrow> anchor_handler" where
  "an_h_Token s r w =
     (case Decode [(''transaction'', put_string (\<lambda>x _. x))] (req_Body r) [] of
        (err, tx) \<Rightarrow>
          if err \<noteq> None \<or> tx = [] then (WriteError 400 ''anchor.bad_request'' ''transaction is required'', w)
          else (case anchor_Token s (PathValue r ''id'') tx w of
                  (Inl e, w1) \<Rightarrow> (writeAnchorError (AnchorErr e), w1)
                | (Inr token, w1) \<Rightarrow> (WriteData 200 (AStrings [(''token'', token)]), w1)))"

text \<open>\<open>Deposit\<close> and \<open>Withdraw\<close> differ in the operation they start.\<close>

definition an_h_Interactive ::
  "(string \<Rightarrow> string \<Rightarrow> string \<Rightarrow> anchor_world \<Rightarrow> (string \<times> string) res \<times> anchor_world) \<Rightarrow> anchor_handler" where
  "an_h_Interactive start r w =
     (case an_callerAddress r of
        None \<Rightarrow> (missingClaims, w)
      | Some acct \<Rightarrow>
          (case start (PathValue r ''id'') (anchorTokenFromHeader r) acct w of
             (Inl e, w1) \<Rightarrow> (writeAnchorError (AnchorErr e), w1)
           | (Inr (txID, u), w1) \<Rightarrow> (WriteData 200 (AStrings [(''id'', txID), (''url'', u)]), w1)))"

definition an_h_Deposit :: "'tx anchor_Service \<Rightarrow> anchor_handler" where
  "an_h_Deposit s = an_h_Interactive (StartDeposit s)"

definition an_h_Withdraw :: "'tx anchor_Service \<Rightarrow> anchor_handler" where
  "an_h_Withdraw s = an_h_Interactive (StartWithdraw s)"

definition report_fields :: "Transaction fields" where
  "report_fields =
    [(''kind'', put_string (\<lambda>x t. t\<lparr>tx_Kind := x\<rparr>)), (''state'', put_string (\<lambda>x t. t\<lparr>tx_State := x\<rparr>)),
     (''amount'', put_string (\<lambda>x t. t\<lparr>tx_AmountRaw := x\<rparr>)), (''decimals'', put_uint8 (\<lambda>x t. t\<lparr>tx_Decimals := x\<rparr>)),
     (''stellarTxHash'', put_string (\<lambda>x t. t\<lparr>tx_StellarTxHash := x\<rparr>))]"

definition an_h_ReportTransaction :: "'tx anchor_Service \<Rightarrow> anchor_handler" where
  "an_h_ReportTransaction s r w =
     (case an_callerAddress r of
        None \<Rightarrow> (missingClaims, w)
      | Some acct \<Rightarrow>
          (case Decode report_fields (req_Body r) zero_tx of
             (Some _, _) \<Rightarrow> (WriteError 400 ''anchor.bad_request'' ''invalid JSON body'', w)
           | (None, t) \<Rightarrow>
               (case anchor_ReportTransaction s (PathValue r ''id'') acct (t\<lparr>tx_ID := PathValue r ''txId''\<rparr>) w of
                  (Inl e, w1) \<Rightarrow> (writeAnchorError (AnchorErr e), w1)
                | (Inr _, w1) \<Rightarrow> (WriteData 200 (AFlag ''recorded'' True), w1))))"

definition an_h_Transactions :: "'tx anchor_Service \<Rightarrow> anchor_handler" where
  "an_h_Transactions s r w =
     (case an_callerAddress r of
        None \<Rightarrow> (missingClaims, w)
      | Some acct \<Rightarrow>
          (case ListTransactions s acct w of
             (Inl e, w1) \<Rightarrow> (writeAnchorError (AnchorErr e), w1)
           | (Inr ts, w1) \<Rightarrow> (WriteData 200 (ATransactions ts), w1)))"

text \<open>A panic of the transaction builder ends in the answer of \<open>httpx.Recover\<close>.\<close>

definition an_h_TrustlineXDR :: "'tx anchor_Service \<Rightarrow> anchor_handler" where
  "an_h_TrustlineXDR s r w =
     (case an_callerAddress r of
        None \<Rightarrow> (missingClaims, w)
      | Some acct \<Rightarrow>
          (case TrustlineXDR s acct of
             None \<Rightarrow> (WriteError 500 ''internal.panic'' ''internal server error'', w)
           | Some (Inl e) \<Rightarrow> (writeAnchorError (AnchorErr e), w)
           | Some (Inr x) \<Rightarrow> (WriteData 200 (AStrings [(''trustlineXdr'', x)]), w)))"

record withdrawPaymentRequest =
  wp_Destination :: string
  wp_MemoType :: string
  wp_Memo :: string
  wp_Amount :: string

definition withdrawPayment_fields :: "withdrawPaymentRequest fields" where
  "withdrawPayment_fields =
    [(''destination'', put_string (\<lambda>x b. b\<lparr>wp_Destination := x\<rparr>)), (''memoType'', put_string (\<lambda>x b. b\<lparr>wp_MemoType := x\<rparr>)),
     (''memo'', put_string (\<lambda>x b. b\<lparr>wp_Memo := x\<rparr>)), (''amount'', put_string (\<lambda>x b. b\<lparr>wp_Amount := x\<rparr>))]"

definition an_h_WithdrawPaymentXDR :: "'tx anchor_Service \<Rightarrow> raw_request \<Rightarrow> anchor_handler" where
  "an_h_WithdrawPaymentXDR s raw r w =
     (case an_callerAddress r of
        None \<Rightarrow> (missingClaims, w)
      | Some acct \<Rightarrow>
          if \<not> checkID s (PathValue r ''id'') then (writeAnchorError (AnchorErr errNotAllowed), w)
          else (case Decode withdrawPayment_fields (json_first (an_env s) (take 65536 (raw_Body raw)))
                       \<lparr>wp_Destination = [], wp_MemoType = [], wp_Memo = [], wp_Amount = []\<rparr> of
                  (Some _, _) \<Rightarrow> (WriteError 400 ''anchor.bad_request'' ''destination and amount are required'', w)
                | (None, b) \<Rightarrow>
                    (case WithdrawPaymentXDR s acct (wp_Destination b) (wp_MemoType b) (wp_Memo b) (wp_Amount b) of
                       Inl e \<Rightarrow> (writeAnchorError (AnchorErr e), w)
                     | Inr x \<Rightarrow> (WriteData 200 (AStrings [(''paymentXdr'', x)]), w))))"

definition an_h_ConfirmTrustline :: "'tx anchor_Service \<Rightarrow> anchor_handler" where
  "an_h_ConfirmTrustline s r w =
     (case an_callerAddress r of
        None \<Rightarrow> (missingClaims, w)
      | Some acct \<Rightarrow>
          (case ConfirmTrustline s acct w of
             (Inl e, w1) \<Rightarrow> (writeAnchorError (AnchorErr e), w1)
           | (Inr _, w1) \<Rightarrow> (WriteData 200 (AFlag ''confirmed'' True), w1)))"

section \<open>Routes\<close>

definition anchor_RegisterRoutes :: "'tx anchor_Service \<Rightarrow> raw_request \<Rightarrow> (string \<times> segment list \<times> anchor_handler) list" where
  "anchor_RegisterRoutes s raw =
    [(''GET'', [Lit ''anchors''], an_List s),
     (''GET'', [Lit ''anchors'', Wild ''id'', Lit ''auth'', Lit ''challenge''], an_h_Challenge s),
     (''POST'', [Lit ''anchors'', Wild ''id'', Lit ''auth'', Lit ''token''], an_h_Token s),
     (''POST'', [Lit ''anchors'', Wild ''id'', Lit ''deposit''], an_h_Deposit s),
     (''POST'', [Lit ''anchors'', Wild ''id'', Lit ''withdraw''], an_h_Withdraw s),
     (''GET'', [Lit ''anchors'', Wild ''id'', Lit ''sep6'', WildRest ''path''], sepProxy s raw ''sep6''),
     (''POST'', [Lit ''anchors'', Wild ''id'', Lit ''sep6'', WildRest ''path''], sepProxy s raw ''sep6''),
     (''GET'', [Lit ''anchors'', Wild ''id'', Lit ''sep12'', WildRest ''path''], sepProxy s raw ''sep12''),
     (''PUT'', [Lit ''anchors'', Wild ''id'', Lit ''sep12'', WildRest ''path''], sepProxy s raw ''sep12''),
     (''POST'', [Lit ''anchors'', Wild ''id'', Lit ''sep12'', WildRest ''path''], sepProxy s raw ''sep12''),
     (''GET'', [Lit ''anchors'', Wild ''id'', Lit ''sep38'', WildRest ''path''], sepProxy s raw ''sep38''),
     (''POST'', [Lit ''anchors'', Wild ''id'', Lit ''sep38'', WildRest ''path''], sepProxy s raw ''sep38''),
     (''POST'', [Lit ''anchors'', Wild ''id'', Lit ''transactions'', Wild ''txId'', Lit ''report''], an_h_ReportTransaction s),
     (''GET'', [Lit ''anchors'', Wild ''id'', Lit ''transactions''], an_h_Transactions s),
     (''POST'', [Lit ''anchors'', Wild ''id'', Lit ''trustline-xdr''], an_h_TrustlineXDR s),
     (''POST'', [Lit ''anchors'', Wild ''id'', Lit ''trustline-confirm''], an_h_ConfirmTrustline s),
     (''POST'', [Lit ''anchors'', Wild ''id'', Lit ''withdraw-payment-xdr''], an_h_WithdrawPaymentXDR s raw)]"

text \<open>
  The mux of these routes: \<open>/anchors/{id}/sepN\<close> without the slash is redirected for the methods that
  are registered with it, and refused for the others.
\<close>

definition anchor_mux :: "'tx anchor_Service \<Rightarrow> raw_request \<Rightarrow> anchor_handler" where
  "anchor_mux s raw r w =
     (case req_Path r of
        [a, i, sep] \<Rightarrow>
          if a = ''anchors'' \<and> i \<noteq> [] \<and> sep \<in> {''sep6'', ''sep12'', ''sep38''} then
            (if req_Method r \<in> {''GET'', ''HEAD'', ''POST''} \<or> sep = ''sep12'' \<and> req_Method r = ''PUT'' then (Response 307 NoBody, w)
             else (Response 405 NoBody, w))
          else ServeMux (anchor_RegisterRoutes s raw) False r w
      | _ \<Rightarrow> ServeMux (anchor_RegisterRoutes s raw) False r w)"

definition anchorsvc :: "'key jwt_parser \<Rightarrow> 'key \<Rightarrow> string \<Rightarrow> 'tx anchor_Service \<Rightarrow> raw_request \<Rightarrow> anchor_handler" where
  "anchorsvc jwt publicKey webAuthDomain s raw r w =
     (if req_Path r = [''health''] \<and> method_matches ''GET'' (req_Method r) then HealthHandler AHealth (an_pool_ready s) r w
      else RequireReady (an_pool_ready s) ''anchor.db_not_ready''
             (RequireBearer jwt publicKey webAuthDomain
               (WriteError 401 ''auth.invalid_token'' ''missing or invalid bearer token'')
               (anchor_mux s raw)) r w)"

text \<open>The process at its start: only the configured domain is on the client's allow-list, nothing is cached.\<close>

definition anchor_start :: "'tx anchor_Service \<Rightarrow> pay_db \<Rightarrow> anchor_world" where
  "anchor_start s db = \<lparr>aw_hc = Client [(AnchorDomain (an_cfg s), True)], aw_cachedInfo = None, aw_sent = [], aw_db = db\<rparr>"

end
