(* ===== verification/AnchorProps.thy ===== *)
theory AnchorProps
  imports AnchorHttp Systems
begin

text \<open>
  What the anchor service guarantees: where its requests go, whose rows they change, what a deposit
  tells the anchor, when a trustline counts as active and what a withdrawal payment pays. The
  interface \<open>anchor_relation\<close> says what a relation between the world before and after needs so that
  every request keeps it.
\<close>

section \<open>Relations kept by every request\<close>

locale anchor_relation =
  fixes s :: "'tx anchor_Service" and acct :: string and R :: "anchor_world \<Rightarrow> anchor_world \<Rightarrow> bool"
  assumes R_refl: "R w w"
    and R_trans: "R w v \<Longrightarrow> R v u \<Longrightarrow> R w u"
    and R_send: "client_send s q w = (x, w') \<Longrightarrow> R w w'"
    and R_info: "anchor_Info s i w = (y, w') \<Longrightarrow> R w w'"
    and R_db: "own_call acct (f :: pay_db \<Rightarrow> unit \<times> pay_db) \<Longrightarrow> snd (f (aw_db w)) = d \<Longrightarrow> R w (w\<lparr>aw_db := d\<rparr>)"
begin

lemma on_db_R: "own_call acct f \<Longrightarrow> on_db f w = (r, w') \<Longrightarrow> R w w'"
  using R_db [OF own_call_post [of acct f "\<lambda>(_, d). ((), d)"], of w "snd (f (aw_db w))"]
  by (auto simp: on_db_def split: prod.splits)

lemma getJSON_R: "getJSON s u fs z w = (r, w') \<Longrightarrow> R w w'"
  by (auto simp: getJSON_def split: prod.splits sum.splits if_splits option.splits dest: R_send)

lemma postJSON_R: "postJSON s u b p fs z w = (r, w') \<Longrightarrow> R w w'"
  by (auto simp: postJSON_def R_refl split: prod.splits sum.splits if_splits option.splits dest: R_send)

lemma ProxyJSON_R: "ProxyJSON s m b p q t c d w = (r, w') \<Longrightarrow> R w w'"
  by (auto simp: ProxyJSON_def Let_def R_refl split: prod.splits sum.splits if_splits dest: R_send)

lemma ProxySep_R: "ProxySep server name s i m p q t c d w = (r, w') \<Longrightarrow> R w w'"
  by (auto simp: ProxySep_def split: prod.splits sum.splits if_splits dest: R_info ProxyJSON_R intro: R_trans)

lemma Challenge_R: "anchor_Challenge s i a w = (r, w') \<Longrightarrow> R w w'"
  by (auto simp: anchor_Challenge_def SEP10Challenge_def split: prod.splits sum.splits if_splits dest: R_info getJSON_R intro: R_trans)

lemma Token_R: "anchor_Token s i a w = (r, w') \<Longrightarrow> R w w'"
  by (auto simp: anchor_Token_def SEP10Token_def split: prod.splits sum.splits dest: R_info postJSON_R intro: R_trans)

lemma SEP24Interactive_R: "SEP24Interactive s t k a c b w = (r, w') \<Longrightarrow> R w w'"
  unfolding SEP24Interactive_def by (rule postJSON_R)

lemma startInteractive_R:
  assumes "startInteractive s i kind token acct w = (r, w')"
  shows "R w w'"
proof -
  let ?c = "an_cfg s"
  let ?t = "\<lambda>txID. zero_tx\<lparr>tx_ID := txID, tx_AnchorID := i, tx_StellarAddress := acct, tx_Kind := kind, tx_State := ''incomplete''\<rparr>"
  obtain t w1 where w1: "on_db (GetTrustlineState acct (an_AssetCode ?c) (an_AssetIssuer ?c)) w = (t, w1)" by fastforce
  obtain y w2 where w2: "anchor_Info s i w1 = (y, w2)" by fastforce
  have r1: "R w w1" and r2: "R w w2"
    using on_db_R [OF own_call_GetTrustlineState w1] R_info [OF w2] by (auto intro: R_trans)
  have up: "R v v'" if "on_db (UpsertTransaction n (?t txID)) v = (z, v')" for n txID v z v'
    using that by (rule on_db_R [rotated]) (simp add: own_call_UpsertTransaction)
  from assms r1 r2 show ?thesis
    by (auto simp: startInteractive_def interactiveFlow_def w1 w2 R_refl split: prod.splits if_splits sum.splits
        dest!: SEP24Interactive_R up intro: R_trans)
qed

lemma Report_R: "anchor_ReportTransaction s i acct t w = (r, w') \<Longrightarrow> R w w'"
  by (auto simp: anchor_ReportTransaction_def R_refl split: if_splits dest!: on_db_R [rotated] intro: own_calls)

lemma Record_R: "RecordSep6Transaction s i acct t w = (r, w') \<Longrightarrow> R w w'"
  by (auto simp: RecordSep6Transaction_def R_refl split: if_splits dest!: on_db_R [rotated] intro: own_calls)

lemma List_R: "ListTransactions s a w = (r, w') \<Longrightarrow> R w w'"
  by (auto simp: ListTransactions_def R_refl split: if_splits dest!: on_db_R [rotated] intro: own_calls)

lemma ConfirmTrustline_R: "ConfirmTrustline s acct w = (r, w') \<Longrightarrow> R w w'"
  by (auto simp: ConfirmTrustline_def Let_def R_refl split: if_splits sum.splits prod.splits dest!: on_db_R [rotated] intro: own_calls)

lemma sepProxy_R:
  assumes "sepProxy s raw sep r w = (resp, w')" and "an_callerAddress r = Some acct"
  shows "R w w'"
proof -
  define proxy where "proxy = (if sep = ''sep6'' then ProxySep6 else if sep = ''sep12'' then ProxySep12 else ProxySep38 ::
    'tx anchor_Service \<Rightarrow> string \<Rightarrow> string \<Rightarrow> string \<Rightarrow> string \<Rightarrow> string \<Rightarrow> string \<Rightarrow> string option \<Rightarrow> anchor_world \<Rightarrow> (anchor_error + string) \<times> anchor_world)"
  have proxy: "proxy s i m p q t c d v = (x, v') \<Longrightarrow> R v v'" for i m p q t c d v x v'
    by (auto simp: proxy_def ProxySep6_def ProxySep12_def ProxySep38_def split: if_splits dest: ProxySep_R)
  consider "w' = w" | i m p q t c d x w1 where "proxy s i m p q t c d w = (x, w1)" "w' = w1 \<or> (\<exists>i t. w' = snd (RecordSep6Transaction s i acct t w1))"
    using assms(1) unfolding sepProxy_def proxy_def [symmetric] assms(2)
    by (simp add: Let_def split: sum.splits prod.splits if_splits) blast+
  then show ?thesis
  proof cases
    case 2
    then show ?thesis using proxy [OF 2(1)] Record_R R_trans by (metis prod.collapse)
  qed (simp add: R_refl)
qed

lemma mux_R:
  assumes "anchor_mux s raw r w = (resp, w')" and "an_callerAddress r = Some acct"
  shows "R w w'"
proof -
  consider "w' = w" | "ServeMux (anchor_RegisterRoutes s raw) False r w = (resp, w')"
    using assms(1) by (auto simp: anchor_mux_def split: list.splits if_splits)
  then show ?thesis
  proof cases
    case 2
    from ServeMux_cases [OF 2] show ?thesis
    proof (elim disjE conjE exE)
      fix m ps h vs
      assume h: "(m, ps, h) \<in> set (anchor_RegisterRoutes s raw)" and run: "h (r\<lparr>req_PathValues := vs\<rparr>) w = (resp, w')"
      have c: "an_callerAddress (r\<lparr>req_PathValues := vs\<rparr>) = Some acct" using assms(2) by (simp add: an_callerAddress_def ClaimsFromContext_def)
      have "h \<in> {an_List s, an_h_Challenge s, an_h_Token s, an_h_Deposit s, an_h_Withdraw s, sepProxy s raw ''sep6'', sepProxy s raw ''sep12'',
          sepProxy s raw ''sep38'', an_h_ReportTransaction s, an_h_Transactions s, an_h_TrustlineXDR s, an_h_ConfirmTrustline s,
          an_h_WithdrawPaymentXDR s raw}"
        using h by (auto simp: anchor_RegisterRoutes_def)
      then show ?thesis
        using run c
        by (elim insertE emptyE)
          (auto simp: an_List_def an_h_Challenge_def an_h_Token_def an_h_Deposit_def an_h_Withdraw_def an_h_Interactive_def
            StartDeposit_def StartWithdraw_def
            an_h_ReportTransaction_def an_h_Transactions_def an_h_TrustlineXDR_def an_h_ConfirmTrustline_def an_h_WithdrawPaymentXDR_def R_refl
            split: prod.splits sum.splits option.splits if_splits
            dest: sepProxy_R R_info Challenge_R Token_R startInteractive_R Report_R List_R ConfirmTrustline_R)
    qed (simp_all add: R_refl)
  qed (simp add: R_refl)
qed

end

text \<open>The process, whose gates change nothing.\<close>

lemma anchorsvc_cases:
  assumes "anchorsvc jwt key aud s raw r w = (resp, w')"
  shows "w' = w \<or> (\<exists>claims. bearer_account jwt key aud r = Some (claims_StellarAccount claims) \<and>
    anchor_mux s raw (r\<lparr>req_Claims := Some claims\<rparr>) w = (resp, w'))"
  using assms RequireBearer_split [of jwt key aud _ "anchor_mux s raw" r w resp w']
  by (fastforce simp: anchorsvc_def RequireReady_def split: if_splits)

lemma caller_of_claims [simp]: "an_callerAddress (r\<lparr>req_Claims := Some claims\<rparr>) = Some (claims_StellarAccount claims)"
  by (simp add: an_callerAddress_def ClaimsFromContext_def)

section \<open>Where requests go\<close>

text \<open>The endpoints of the cached stellar.toml, and the hosts the service may talk to.\<close>

definition endpoint_hosts :: "'tx anchor_Service \<Rightarrow> Info \<Rightarrow> string set" where
  "endpoint_hosts s info = hostnameOf (net_parse (env_net (an_env s))) `
     {inf_WebAuthEndpoint info, inf_TransferServer info, inf_KYCServer info, inf_QuoteServer info, inf_TransferServer24 info} - {[]}"

definition permitted_hosts :: "'tx anchor_Service \<Rightarrow> anchor_world \<Rightarrow> string set" where
  "permitted_hosts s w = insert (AnchorDomain (an_cfg s)) (case aw_cachedInfo w of None \<Rightarrow> {} | Some info \<Rightarrow> endpoint_hosts s info)"

definition egress_inv :: "'tx anchor_Service \<Rightarrow> anchor_world \<Rightarrow> bool" where
  "egress_inv s w \<longleftrightarrow> (\<exists>g. aw_hc w = Some g \<and> set (gt_allow g) = permitted_hosts s w) \<and>
     (\<forall>q\<in>set (aw_sent w). Hostname (or_URL q) \<in> permitted_hosts s w)"

lemma client_send_new:
  assumes "client_send s req w = (x, w')" and "aw_hc w = Some g"
  shows "\<exists>new. w' = w\<lparr>aw_sent := aw_sent w @ new\<rparr> \<and> (\<forall>q\<in>set new. Hostname (or_URL q) \<in> set (gt_allow g)) \<and>
    (\<forall>q\<in>set (take 1 new). q = req)"
  using assms client_loop_sent
  by (fastforce simp: client_send_def Let_def Client_Do_def split: prod.splits)

lemma client_send_frame: "client_send s q w = (x, w') \<Longrightarrow> aw_hc w' = aw_hc w \<and> aw_cachedInfo w' = aw_cachedInfo w \<and> aw_db w' = aw_db w"
  by (auto simp: client_send_def Let_def split: prod.splits)

lemma egress_send:
  assumes "client_send s q w = (x, w')" and "egress_inv s w"
  shows "egress_inv s w'"
proof -
  obtain g where g: "aw_hc w = Some g" "set (gt_allow g) = permitted_hosts s w" using assms(2) by (auto simp: egress_inv_def)
  from client_send_new [OF assms(1) g(1)] assms(2) g show ?thesis by (auto simp: egress_inv_def permitted_hosts_def)
qed

lemma allow_endpoints:
  "fold (\<lambda>endpoint w. let host = hostnameOf p endpoint in if host \<noteq> [] then AllowHost host w else w) es w =
     w\<lparr>aw_hc := fold (\<lambda>h hc. AddAllowedHost hc h) (filter (\<lambda>h. h \<noteq> []) (map (hostnameOf p) es)) (aw_hc w)\<rparr>"
  by (induction es arbitrary: w) (simp_all add: AllowHost_def Let_def)

text \<open>\<open>Info\<close>: what it returns is cached from then on, and the allow-list follows it.\<close>

lemma anchor_Info_cases:
  assumes "anchor_Info s i w = (y, w')"
  shows "w' = w \<and> (\<forall>info. y = Inr info \<longrightarrow> aw_cachedInfo w = Some info) \<or>
    (\<exists>w1 info. aw_cachedInfo w = None \<and> (w1 = w \<or> (\<exists>q x. client_send s q w = (x, w1))) \<and> y = Inr info \<and>
       w' = w1\<lparr>aw_hc := fold (\<lambda>h hc. AddAllowedHost hc h) (filter (\<lambda>h. h \<noteq> []) (map (hostnameOf (net_parse (env_net (an_env s))))
              [inf_WebAuthEndpoint info, inf_TransferServer info, inf_KYCServer info, inf_QuoteServer info, inf_TransferServer24 info])) (aw_hc w1),
            aw_cachedInfo := Some info\<rparr>)"
proof -
  consider "w' = w" "\<forall>info. y = Inr info \<longrightarrow> aw_cachedInfo w = Some info"
    | t where "checkID s i" "aw_cachedInfo w = None" "FetchTOML s (AnchorDomain (an_cfg s)) w = Inr t"
    using assms by (auto simp: anchor_Info_def split: if_splits option.splits sum.splits)
  then show ?thesis
  proof cases
    case 2
    obtain r w1 where f: "FetchQuoteServer s (AnchorDomain (an_cfg s)) w = (r, w1)" by fastforce
    then have "w1 = w \<or> (\<exists>q x. client_send s q w = (x, w1))"
      by (auto simp: FetchQuoteServer_def split: sum.splits prod.splits if_splits)
    moreover define info where "info = \<lparr>inf_ID = AnchorID (an_cfg s), inf_Domain = AnchorDomain (an_cfg s), inf_SigningKey = toml_SigningKey t,
      inf_WebAuthEndpoint = toml_WebAuthEndpoint t, inf_TransferServer = toml_TransferServer t, inf_KYCServer = toml_KycServer t,
      inf_QuoteServer = (case r of Inl _ \<Rightarrow> [] | Inr q \<Rightarrow> q), inf_TransferServer24 = toml_TransferServer0024 t,
      inf_AssetCode = an_AssetCode (an_cfg s), inf_AssetIssuer = an_AssetIssuer (an_cfg s)\<rparr>"
    moreover have "(y, w') = (Inr info, w1\<lparr>aw_hc := fold (\<lambda>h hc. AddAllowedHost hc h) (filter (\<lambda>h. h \<noteq> [])
        (map (hostnameOf (net_parse (env_net (an_env s)))) [inf_WebAuthEndpoint info, inf_TransferServer info, inf_KYCServer info,
          inf_QuoteServer info, inf_TransferServer24 info])) (aw_hc w1), aw_cachedInfo := Some info\<rparr>)"
      unfolding assms [symmetric] anchor_Info_def f 2(3)
      by (simp only: 2(1,2) option.case sum.case prod.case if_False not_True_eq_False allow_endpoints [unfolded Let_def] Let_def info_def Info.simps)
    ultimately show ?thesis using 2(2) by blast
  qed simp
qed

definition info_hosts :: "'tx anchor_Service \<Rightarrow> Info \<Rightarrow> string list" where
  "info_hosts s info = filter (\<lambda>h. h \<noteq> []) (map (hostnameOf (net_parse (env_net (an_env s))))
    [inf_WebAuthEndpoint info, inf_TransferServer info, inf_KYCServer info, inf_QuoteServer info, inf_TransferServer24 info])"

lemma anchor_Info_learns:
  assumes "anchor_Info s i w = (y, w')"
  obtains (same) "w' = w" "\<forall>info. y = Inr info \<longrightarrow> aw_cachedInfo w = Some info"
  | (learned) w1 info where "aw_cachedInfo w = None" "w1 = w \<or> (\<exists>q x. client_send s q w = (x, w1))" "y = Inr info"
      "w' = w1\<lparr>aw_hc := fold (\<lambda>h hc. AddAllowedHost hc h) (info_hosts s info) (aw_hc w1), aw_cachedInfo := Some info\<rparr>"
  using anchor_Info_cases [OF assms] unfolding info_hosts_def by blast

lemma egress_info:
  assumes "anchor_Info s i w = (y, w')" and "egress_inv s w"
  shows "egress_inv s w'"
  using assms(1)
proof (cases rule: anchor_Info_learns)
  case same
  then show ?thesis using assms(2) by simp
next
  case (learned w1 info)
  note none = learned(1) and w1 = learned(2) and w' = learned(4)
  let ?hosts = "info_hosts s info"
  have i1: "egress_inv s w1" using w1 egress_send assms(2) by blast
  moreover have "aw_cachedInfo w1 = None" using w1 none client_send_frame by fastforce
  ultimately obtain g where g: "aw_hc w1 = Some g" "set (gt_allow g) = {AnchorDomain (an_cfg s)}"
    by (auto simp: egress_inv_def permitted_hosts_def)
  obtain g' where g': "fold (\<lambda>h hc. AddAllowedHost hc h) ?hosts (Some g) = Some g'" "set (gt_allow g') = set (gt_allow g) \<union> (set ?hosts - {[]})"
    using added_hosts [of ?hosts g] by blast
  have "set ?hosts - {[]} = endpoint_hosts s info" by (auto simp: endpoint_hosts_def info_hosts_def)
  with g' g have "aw_hc w' = Some g'" "set (gt_allow g') = permitted_hosts s w'" by (simp_all add: w' permitted_hosts_def)
  moreover have "\<forall>q\<in>set (aw_sent w'). Hostname (or_URL q) \<in> permitted_hosts s w'"
    using i1 \<open>aw_cachedInfo w1 = None\<close> by (simp add: egress_inv_def permitted_hosts_def w')
  ultimately show ?thesis by (simp add: egress_inv_def)
qed

lemma egress_db [simp]: "egress_inv s (w\<lparr>aw_db := d\<rparr>) = egress_inv s w"
  by (simp add: egress_inv_def permitted_hosts_def)

lemma anchor_Info_db: "anchor_Info s i w = (y, w') \<Longrightarrow> aw_db w' = aw_db w"
  by (erule anchor_Info_learns) (auto dest: client_send_frame)

lemma own_call_snd: "own_call a f \<Longrightarrow> anchor_inv db \<Longrightarrow> anchor_confined a db (snd (f db)) \<and> anchor_inv (snd (f db))"
  by (metis own_callD prod.collapse)

lemma anchor_confined_refl [simp]: "anchor_confined a db db"
  by (simp add: anchor_confined_def anchor_frame_def)

interpretation egress: anchor_relation s acct "\<lambda>w w'. egress_inv s w \<longrightarrow> egress_inv s w'" for s acct
  by unfold_locales (auto dest: egress_send egress_info)

interpretation own_rows: anchor_relation s acct
    "\<lambda>w w'. anchor_inv (aw_db w) \<longrightarrow> anchor_confined acct (aw_db w) (aw_db w') \<and> anchor_inv (aw_db w')" for s acct
  by unfold_locales (auto dest: anchor_Info_db client_send_frame own_call_snd intro: anchor_confined_trans)

section \<open>Deposits\<close>

lemma strip_prefixes_Nil: "strip_prefixes ps [] = []"
  by (subst strip_prefixes.simps) (auto simp: find_None_iff split: option.split dest: find_SomeD)

lemma TrimSpace_Nil: "TrimSpace [] = []"
  by (simp add: TrimSpace_def strip_prefixes_Nil)

lemma sent_on_db: "on_db f w = (r, w') \<Longrightarrow> aw_sent w' = aw_sent w"
  by (auto simp: on_db_def split: prod.splits)

lemma RecordSep6_sent: "aw_sent (snd (RecordSep6Transaction s i a t w)) = aw_sent w"
  by (auto simp: RecordSep6Transaction_def on_db_def split: prod.split)

text \<open>What the proxy puts on the wire: at most the one request, and what follows redirects.\<close>

lemma ProxyJSON_sent:
  assumes "ProxyJSON s m base path query bearer ctype payload w = (r, w')" and "aw_hc w = Some g"
  shows "\<exists>new. aw_sent w' = aw_sent w @ new \<and> (case new of [] \<Rightarrow> True | q # _ \<Rightarrow>
    or_Method q = m \<and> url_RawQuery (or_URL q) = query \<and> requireHTTPS (or_URL q) \<and> Hostname (or_URL q) \<in> set (gt_allow g) \<and>
    set (bearer_header bearer) \<subseteq> set (or_Header q))"
proof (cases "net_parse (env_net (an_env s)) (TrimRight base ''/'' @ ''/'' @ TrimLeft path ''/'')")
  case (Inl e)
  then show ?thesis using assms(1) by (auto simp: ProxyJSON_def)
next
  case (Inr u)
  show ?thesis
  proof (cases "requireHTTPS u")
    case False
    then show ?thesis using assms(1) Inr by (auto simp: ProxyJSON_def)
  next
    case True
    let ?q = "\<lparr>or_Method = m, or_URL = u\<lparr>url_RawQuery := query\<rparr>, or_Header = bearer_header bearer @
        (case payload of None \<Rightarrow> [] | Some _ \<Rightarrow> [(''Content-Type'', if ctype = [] then ''application/json'' else ctype)]),
      or_Body = (case payload of None \<Rightarrow> [] | Some b \<Rightarrow> b)\<rparr>"
    obtain x w1 where x: "client_send s ?q w = (x, w1)" by fastforce
    then have "w' = w1" using assms(1) True Inr x by (auto simp: ProxyJSON_def Let_def split: sum.splits if_splits)
    moreover from client_send_new [OF x assms(2)] obtain new where n: "w1 = w\<lparr>aw_sent := aw_sent w @ new\<rparr>"
      "\<forall>q\<in>set new. Hostname (or_URL q) \<in> set (gt_allow g)" "\<forall>q\<in>set (take 1 new). q = ?q" by blast
    moreover have "requireHTTPS (u\<lparr>url_RawQuery := query\<rparr>)" using True by (simp add: requireHTTPS_def Hostname_def)
    ultimately show ?thesis by (intro exI [of _ new]) (auto split: list.split)
  qed
qed

lemma anchor_Info_cached: "aw_cachedInfo w = Some info \<Longrightarrow> anchor_Info s i w = (if checkID s i then Inr info else Inl errNotAllowed, w)"
  by (simp add: anchor_Info_def)

section \<open>A concrete anchor\<close>

definition ex_anchor_env :: "string anchor_env" where
  "ex_anchor_env = \<lparr>
     env_net = \<lparr>net_parse = (\<lambda>u. case CutPrefix u ''https://'' of None \<Rightarrow> Inl (Opaque ''url'') | Some h \<Rightarrow> Inr (ex_url (takeWhile (\<lambda>c. c \<noteq> CHR ''/'') h))),
       net_resolve = (\<lambda>_ l. Inr (ex_url l)), net_send = (\<lambda>_ _. Inr \<lparr>os_StatusCode = 200, os_Location = [], os_Body = ''b''\<rparr>)\<rparr>,
     GetStellarToml = (\<lambda>_ _. Inr \<lparr>toml_SigningKey = ''GS'', toml_WebAuthEndpoint = ''https://w/a'', toml_TransferServer = ''https://t/6'',
       toml_KycServer = [], toml_TransferServer0024 = ''https://t/24''\<rparr>),
     WellKnownPath = ''/s'', StellarTomlMaxSize = 100, toml_QuoteServer = (\<lambda>_. Inr []),
     json_first = (\<lambda>_. BodyDoc (JObj [(''id'', JStr ''7'')])), json_whole = (\<lambda>_. Some (JObj [(''id'', JStr ''7'')])),
     json_text = (\<lambda>_. ''j''), go_Quote = (\<lambda>x. x), env_numeric = Inr, newAnchorTx = (\<lambda>_. Inr ''tx''),
     changeTrustOk = (\<lambda>_. True), anchorTx_Base64 = Inr\<rparr>"

definition ex_anchor :: "string anchor_Service" where
  "ex_anchor = \<lparr>an_cfg = \<lparr>AnchorID = ''tr'', AnchorDomain = ''dom'', an_AssetCode = ''USDC'', an_AssetIssuer = ''GI'', an_Decimals = 7\<rparr>,
     an_ready = True, an_pool_ready = True,
     an_chain = \<lparr>GetAccount = (\<lambda>a. Inl (Opaque ''down'')), GetTrustline = (\<lambda>a c i. Inr \<lparr>tl_Exists = True, tl_Balance = [], tl_Limit = []\<rparr>),
       GetLedger = Inr \<lparr>ldg_Sequence = 1000, ldg_CloseTime = 0\<rparr>, SimulateTransaction = (\<lambda>x. Inl (Opaque ''down'')),
       SubmitClassic = (\<lambda>x. Inl (Opaque ''down'')), SubmitSoroban = (\<lambda>x. Inl (Opaque ''down'')), Fund = (\<lambda>a. Inr ())\<rparr>,
     an_sdk = ex_sdk ex_entry ScvVoid, an_env = ex_anchor_env\<rparr>"

definition ex_deposit :: http_request where
  "ex_deposit = (ex_request ''t1'' ''GET'' [''anchors'', ''tr'', ''sep6'', ''deposit''] JNull)
     \<lparr>req_Header := (\<lambda>h. if h = ''Authorization'' then ''Bearer t1'' else if h = ''X-Anchor-Token'' then ''a'' else [])\<rparr>"

definition ex_anchor_run :: "anchor_payload http_response \<times> anchor_world" where
  "ex_anchor_run = anchorsvc ex_jwt ''key'' ''pay'' ex_anchor \<lparr>raw_Query = [], raw_Body = []\<rparr>
     (ex_request ''t1'' ''GET'' [''anchors''] JNull) (anchor_start ex_anchor ex_db0)"

lemma ex_anchor_run_eval:
  "map (Hostname \<circ> or_URL) (aw_sent (snd ex_anchor_run)) = [''dom'']"
  "map_option (\<lambda>i. [inf_WebAuthEndpoint i, inf_TransferServer i, inf_KYCServer i, inf_QuoteServer i, inf_TransferServer24 i])
     (aw_cachedInfo (snd ex_anchor_run)) = Some [''https://w/a'', ''https://t/6'', [], [], ''https://t/24'']"
  by code_simp+

section \<open>Trustlines\<close>

text \<open>The state and ledger the cache holds for an account and the anchor's asset.\<close>

definition stored_trustline :: "'tx anchor_Service \<Rightarrow> string \<Rightarrow> anchor_world \<Rightarrow> (string \<times> i64) option" where
  "stored_trustline s owner w = map_option (\<lambda>r. (tr_state r, tr_ledger_seq r))
     (find (trustline_key owner (an_AssetCode (an_cfg s)) (an_AssetIssuer (an_cfg s))) (trustlines (aw_db w)))"

lemma upsert_trustline_stored:
  assumes "length a \<le> 56" and "length i \<le> 56"
  shows "\<exists>db'. upsert_trustline a c i st l db = Inr ((), db') \<and>
    map_option (\<lambda>r. (tr_state r, tr_ledger_seq r)) (find (trustline_key a c i) (trustlines db')) = Some (st, l) \<and> faults db' = faults db"
proof (cases "list_ex (trustline_key a c i) (trustlines db)")
  case True
  let ?f = "\<lambda>r. if trustline_key a c i r then r\<lparr>tr_state := st, tr_ledger_seq := l, tr_updated_at := db_clock db\<rparr> else r"
  have "map_option (\<lambda>r. (tr_state r, tr_ledger_seq r)) (find (trustline_key a c i) (map ?f xs)) = Some (st, l)"
    if "list_ex (trustline_key a c i) xs" for xs
    using that by (induction xs) (auto simp: trustline_key_def)
  then show ?thesis using True assms by (auto simp: upsert_trustline_def)
next
  case False
  have "find P (xs @ [x]) = Some x" if "\<not> list_ex P xs" "P x" for P xs and x :: trustline_row
    using that by (induction xs) auto
  with False assms show ?thesis by (auto simp: upsert_trustline_def trustline_key_def)
qed

lemma SetTrustline_stored:
  assumes "faults (aw_db w) = []" and "length owner \<le> 56" and "length (an_AssetIssuer (an_cfg s)) \<le> 56"
  shows "\<exists>w'. on_db (SetTrustline owner (an_AssetCode (an_cfg s)) (an_AssetIssuer (an_cfg s)) st l) w = (Inr (), w') \<and>
    stored_trustline s owner w' = Some (st, l) \<and> faults (aw_db w') = []"
  using upsert_trustline_stored [OF assms(2,3), of "an_AssetCode (an_cfg s)" st l "aw_db w"] assms(1)
  by (auto simp: on_db_def SetTrustline_def exec_no_faults stored_trustline_def)

text \<open>Under any connection failures a confirmation leaves the stored trustline or sets it to the named state.\<close>

lemma SetTrustline_only:
  assumes "on_db (SetTrustline owner (an_AssetCode (an_cfg s)) (an_AssetIssuer (an_cfg s)) st l) w = (r, w')"
  shows "stored_trustline s owner w' \<in> {stored_trustline s owner w, Some (st, l)}"
proof -
  let ?f = "upsert_trustline owner (an_AssetCode (an_cfg s)) (an_AssetIssuer (an_cfg s)) st l"
  obtain u d where e: "exec ?f (aw_db w) = (u, d)" by fastforce
  have w': "aw_db w' = d" using assms e by (auto simp: on_db_def SetTrustline_def split: sum.splits)
  have same: "trustlines b = trustlines a" if "same_tables a b" for a b using that same_tables_proj by blast
  have "trustlines d = trustlines (aw_db w) \<or> (\<exists>x b. ?f (aw_db w) = Inr (x, b) \<and> trustlines d = trustlines b)"
    using exec_pure_cases [OF pure_upsert_trustline e] same by metis
  moreover have "stored_trustline s owner w' = Some (st, l)" if "?f (aw_db w) = Inr (x, b)" "trustlines d = trustlines b" for x b
  proof -
    have "length owner \<le> 56" "length (an_AssetIssuer (an_cfg s)) \<le> 56"
      using that(1) by (auto simp: upsert_trustline_def split: if_splits)
    then show ?thesis using upsert_trustline_stored [of owner "an_AssetIssuer (an_cfg s)" "an_AssetCode (an_cfg s)" st l "aw_db w"] that
      by (auto simp: stored_trustline_def w')
  qed
  ultimately show ?thesis by (auto simp: stored_trustline_def w')
qed

text \<open>An interactive flow looks at the cache only; a cache that cannot be read does not stop it.\<close>

lemma interactive_by_cache:
  assumes "an_ready s" and "token \<noteq> []"
    and "on_db (GetTrustlineState owner (an_AssetCode (an_cfg s)) (an_AssetIssuer (an_cfg s))) w = (t, w1)"
  shows "startInteractive s i kind token owner w =
    (if isl t \<or> map_option fst (stored_trustline s owner w) = Some ''active'' then interactiveFlow s i kind token owner w1
     else (Inl errTrustlineMissing, w1))"
proof (cases t)
  case (Inr x)
  have "x = (case stored_trustline s owner w of None \<Rightarrow> ([], False) | Some (st, _) \<Rightarrow> (st, True))"
    using assms(3) Inr exec_pure_cases [of "\<lambda>db. Inr (find (trustline_key owner (an_AssetCode (an_cfg s)) (an_AssetIssuer (an_cfg s))) (trustlines db), db)" "aw_db w"]
    by (auto simp: on_db_def GetTrustlineState_def stored_trustline_def pure_stmt_def split: prod.splits sum.splits option.splits)
  then show ?thesis using assms Inr by (auto simp: startInteractive_def split: option.splits prod.splits)
qed (use assms in \<open>simp add: startInteractive_def\<close>)

section \<open>Properties\<close>

definition anchor_step :: "'key jwt_parser \<Rightarrow> 'key \<Rightarrow> string \<Rightarrow> 'tx anchor_Service \<Rightarrow> anchor_world \<Rightarrow> anchor_world \<Rightarrow> bool" where
  "anchor_step jwt key aud s w w' \<longleftrightarrow>
     (\<exists>ready up g raw r. w' = snd (anchorsvc jwt key aud (s\<lparr>an_ready := ready, an_pool_ready := up, an_chain := g\<rparr>) raw r w)) \<or> (\<exists>db. w' = w\<lparr>aw_db := db\<rparr>)"

lemma egress_inv_cong [simp]: "egress_inv (s\<lparr>an_ready := ready, an_pool_ready := up, an_chain := g\<rparr>) w = egress_inv s w"
proof -
  have "endpoint_hosts (s\<lparr>an_ready := ready, an_pool_ready := up, an_chain := g\<rparr>) info = endpoint_hosts s info" for info by (simp add: endpoint_hosts_def)
  then show ?thesis by (cases "aw_cachedInfo w") (simp_all add: egress_inv_def permitted_hosts_def)
qed

interpretation egress_system: invariant_system "\<lambda>w. \<exists>db. w = anchor_start s db" "anchor_step jwt key aud s" "egress_inv s" for jwt key aud s
proof unfold_locales
  fix w
  assume "\<exists>db. w = anchor_start s db"
  then show "egress_inv s w" by (auto simp: anchor_start_def egress_inv_def permitted_hosts_def Client_def Guard_allow)
next
  fix w w'
  assume i: "egress_inv s w" and "anchor_step jwt key aud s w w'"
  then consider db where "w' = w\<lparr>aw_db := db\<rparr>" | ready up g raw r resp where "anchorsvc jwt key aud (s\<lparr>an_ready := ready, an_pool_ready := up, an_chain := g\<rparr>) raw r w = (resp, w')"
    unfolding anchor_step_def by (metis prod.collapse)
  then show "egress_inv s w'"
  proof cases
    case 2
    from anchorsvc_cases [OF 2] show ?thesis using egress.mux_R [OF _ caller_of_claims] i egress_inv_cong by metis
  qed (simp add: i)
qed

text \<open>
  The anchor service talks to its anchor only: after any sequence of requests from any
  callers, whatever the network and the chain answer, every request the service has sent went to the
  configured domain or to the host of an endpoint in the stellar.toml it has cached from that domain
  (nothing a caller sends can add a host), and the allow-list of its HTTP client holds exactly these.
\<close>

theorem anchor_egress:
  assumes "reach (\<lambda>w. \<exists>db. w = anchor_start s db) (anchor_step jwt key aud s) w"
  shows "(\<forall>q\<in>set (aw_sent w). Hostname (or_URL q) = AnchorDomain (an_cfg s) \<or>
      (\<exists>info. aw_cachedInfo w = Some info \<and> Hostname (or_URL q) \<in> endpoint_hosts s info)) \<and>
    (\<exists>g. aw_hc w = Some g \<and> set (gt_allow g) = permitted_hosts s w)"
  using egress_system.inv_reach [OF assms] by (auto simp: egress_inv_def permitted_hosts_def split: option.splits)

theorem anchor_egress_witness:
  "aw_sent (snd ex_anchor_run) \<noteq> [] \<and> list_all (\<lambda>q. Hostname (or_URL q) \<in> {''dom'', ''w'', ''t''}) (aw_sent (snd ex_anchor_run))"
proof -
  let ?w = "snd ex_anchor_run"
  have "anchor_step ex_jwt ''key'' ''pay'' ex_anchor (anchor_start ex_anchor ex_db0) ?w"
    unfolding anchor_step_def ex_anchor_run_def
    by (rule disjI1, rule exI [of _ True], rule exI [of _ True], rule exI [of _ "an_chain ex_anchor"], intro exI) (simp add: ex_anchor_def)
  then have r: "reach (\<lambda>w. \<exists>db. w = anchor_start ex_anchor db) (anchor_step ex_jwt ''key'' ''pay'' ex_anchor) ?w"
    by (blast intro: reach.intros)
  have h: "hostnameOf (net_parse (env_net (an_env ex_anchor))) [] = []" "hostnameOf (net_parse (env_net (an_env ex_anchor))) ''https://w/a'' = ''w''"
    "hostnameOf (net_parse (env_net (an_env ex_anchor))) ''https://t/6'' = ''t''" "hostnameOf (net_parse (env_net (an_env ex_anchor))) ''https://t/24'' = ''t''"
    by code_simp+
  have "endpoint_hosts ex_anchor info \<subseteq> {''w'', ''t''}" if "aw_cachedInfo ?w = Some info" for info
    using ex_anchor_run_eval(2) that by (auto simp: endpoint_hosts_def h)
  with anchor_egress [OF r] have "\<forall>q\<in>set (aw_sent ?w). Hostname (or_URL q) \<in> {''dom'', ''w'', ''t''}"
    by (fastforce simp: ex_anchor_def)
  then show ?thesis using ex_anchor_run_eval(1) by (auto simp: list_all_iff)
qed

text \<open>
  C38. A caller of the anchor service touches their own rows only: a request without a valid access token
  changes nothing, and one for an account leaves every anchor transaction and trustline of other
  accounts, and every other table, as they are, under all routes, anchor answers and connection
  failures; ids and trustline keys stay unique.
\<close>

theorem anchor_request_confined:
  assumes "anchorsvc jwt key aud s raw r w = (resp, w')" and "anchor_inv (aw_db w)"
  shows "case bearer_account jwt key aud r of
      None \<Rightarrow> w' = w
    | Some a \<Rightarrow> anchor_confined a (aw_db w) (aw_db w') \<and> anchor_inv (aw_db w')"
  using anchorsvc_cases [OF assms(1)]
proof (elim disjE exE conjE)
  assume "w' = w"
  then show ?thesis using assms(2) by (simp split: option.split)
next
  fix claims
  assume a: "bearer_account jwt key aud r = Some (claims_StellarAccount claims)"
    and m: "anchor_mux s raw (r\<lparr>req_Claims := Some claims\<rparr>) w = (resp, w')"
  from own_rows.mux_R [OF m caller_of_claims] assms(2) a show ?thesis by simp
qed

theorem anchor_request_confined_witness:
  "anchor_confined ''GA'' ex_db0 (aw_db (snd ex_anchor_run)) \<and> anchor_inv (aw_db (snd ex_anchor_run))"
proof -
  let ?r = "ex_request ''t1'' ''GET'' [''anchors''] JNull"
  have run: "anchorsvc ex_jwt ''key'' ''pay'' ex_anchor \<lparr>raw_Query = [], raw_Body = []\<rparr> ?r (anchor_start ex_anchor ex_db0) =
      (fst ex_anchor_run, snd ex_anchor_run)" by (simp add: ex_anchor_run_def)
  have "anchor_inv (aw_db (anchor_start ex_anchor ex_db0))" by (simp add: anchor_start_def anchor_inv_def ex_db0_def)
  moreover have "bearer_account ex_jwt ''key'' ''pay'' ?r = Some ''GA''"
    by (simp add: bearer_account_def ex_request_def CutPrefix_def VerifyAccessToken_def VerifyJWT_def ex_jwt_def ex_claims_def accessTokenSubject_def)
  ultimately show ?thesis using anchor_request_confined [OF run] by (simp add: anchor_start_def)
qed

text \<open>
  C39. Which SEP-6 requests are bound to the caller's account. Exactly a \<open>GET\<close> whose path value is \<open>deposit\<close> is: what the
  service sends to the anchor for it carries the caller's anchor token, goes over HTTPS to an allow-listed host, and the
  query it carries reads as the caller's query with \<open>account\<close> set to exactly the authenticated account; a query that
  names another account is refused and nothing is sent. A \<open>GET\<close> of \<open>withdraw\<close> is sent only when the first account it names,
  if any, is the caller's. Every other request goes out, over HTTPS and to an allow-listed host, with its method and
  with the query as the caller wrote it, whatever account that names. That includes two ways to ask for a deposit: \<open>HEAD\<close>,
  and the path value \<open>/deposit\<close> (an encoded slash, \<open>sep6/%2Fdeposit\<close>), which the check does not recognise and the
  proxy sends exactly where it sends \<open>deposit\<close>.
\<close>

theorem deposit_account_bound:
  assumes "sepProxy s raw ''sep6'' r w = (resp, w')" and "an_callerAddress r = Some acct"
    and "aw_cachedInfo w = Some info" and "aw_hc w = Some g"
  shows "\<exists>new. aw_sent w' = aw_sent w @ new \<and>
    (case new of [] \<Rightarrow> True | q # _ \<Rightarrow>
       or_Method q = req_Method r \<and> requireHTTPS (or_URL q) \<and> Hostname (or_URL q) \<in> set (gt_allow g) \<and>
       (if req_Method r = ''GET'' \<and> PathValue r ''path'' = ''deposit''
        then (''Authorization'', ''Bearer '' @ anchorTokenFromHeader r) \<in> set (or_Header q) \<and>
          map_of (fst (query_values (url_RawQuery (or_URL q)))) = (map_of (fst (ParseQuery (raw_Query raw))))(''account'' \<mapsto> [acct])
        else if req_Method r = ''GET'' \<and> PathValue r ''path'' = ''withdraw''
        then Values_Get (fst (ParseQuery (raw_Query raw))) ''account'' \<in> {[], acct}
        else url_RawQuery (or_URL q) = raw_Query raw)) \<and>
    (req_Method r = ''GET'' \<and> PathValue r ''path'' \<in> {''deposit'', ''withdraw''} \<and>
       Values_Get (fst (ParseQuery (raw_Query raw))) ''account'' \<notin> {[], acct} \<longrightarrow> new = [] \<and> resp_Status resp \<in> {400, 403}) \<and>
    ProxyJSON s (req_Method r) base ''/deposit'' = ProxyJSON s (req_Method r) base ''deposit''"
proof -
  obtain vals ok where q: "ParseQuery (raw_Query raw) = (vals, ok)" by fastforce
  let ?path = "PathValue r ''path''" and ?token = "anchorTokenFromHeader r"
  have slash: "ProxyJSON s (req_Method r) base ''/deposit'' = ProxyJSON s (req_Method r) base ''deposit''"
    by (intro ext) (simp add: ProxyJSON_def TrimLeft_def)
  have refused: "w' = w \<and> resp_Status resp \<in> {400, 403}"
    if "req_Method r = ''GET''" "?path \<in> {''deposit'', ''withdraw''}" "Values_Get vals ''account'' \<notin> {[], acct}"
    using assms(1) that by (auto simp: sepProxy_def assms(2) sepBody_def sepQuery_def q WriteError_def Let_def split: if_splits)
  consider (silent) "aw_sent w' = aw_sent w"
    | (proxied) query body x w1 where "sepQuery ''sep6'' ?path r raw acct = Inr query" "?path \<noteq> ''info'' \<Longrightarrow> TrimSpace ?token \<noteq> []"
        "ProxySep6 s (PathValue r ''id'') (req_Method r) ?path query ?token (req_Header r ''Content-Type'') body w = (x, w1)"
        "aw_sent w' = aw_sent w1"
    using assms(1) unfolding sepProxy_def assms(2) Let_def
    by (auto simp: RecordSep6_sent split: if_splits prod.splits sum.splits)
  then show ?thesis
  proof cases
    case silent
    then show ?thesis using refused slash by (auto simp: q intro!: exI [of _ "[]"])
  next
    case proxied
    consider "w1 = w" | base where "ProxyJSON s (req_Method r) base ?path query ?token (req_Header r ''Content-Type'') body w = (x, w1)"
      using proxied(3) by (auto simp: ProxySep6_def ProxySep_def anchor_Info_cached [OF assms(3)] split: if_splits)
    then show ?thesis
    proof cases
      case 1
      then show ?thesis using refused slash proxied(4) by (auto simp: q intro!: exI [of _ "[]"])
    next
      case 2
      from ProxyJSON_sent [OF 2 assms(4)] proxied(4) obtain new where new: "aw_sent w' = aw_sent w @ new"
        "case new of [] \<Rightarrow> True | q # _ \<Rightarrow> or_Method q = req_Method r \<and> url_RawQuery (or_URL q) = query \<and> requireHTTPS (or_URL q) \<and>
           Hostname (or_URL q) \<in> set (gt_allow g) \<and> set (bearer_header ?token) \<subseteq> set (or_Header q)" by auto
      have auth: "set (bearer_header ?token) = {(''Authorization'', ''Bearer '' @ ?token)}" if "?path = ''deposit''"
        using proxied(2) that TrimSpace_Nil by (auto simp: bearer_header_def)
      have query: "if req_Method r = ''GET'' \<and> ?path = ''deposit'' then map_of (fst (query_values query)) = (map_of vals)(''account'' \<mapsto> [acct])
          else if req_Method r = ''GET'' \<and> ?path = ''withdraw'' then Values_Get vals ''account'' \<in> {[], acct} else query = raw_Query raw"
        using proxied(1) query_values_Set [of "''account''" acct "raw_Query raw"] by (auto simp: sepQuery_def q split: if_splits)
      show ?thesis
        using new auth query refused slash by (intro exI [of _ new]) (auto simp: q split: list.splits if_splits)
    qed
  qed
qed

definition ex_sep6 :: "string \<Rightarrow> anchor_payload http_response \<times> anchor_world" where
  "ex_sep6 query = sepProxy ex_anchor \<lparr>raw_Query = query, raw_Body = []\<rparr> ''sep6''
     (ex_deposit\<lparr>req_PathValues := [(''id'', ''tr''), (''path'', ''deposit'')], req_Claims := Some (ex_claims ''access'' ''GA'')\<rparr>) (snd ex_anchor_run)"

theorem deposit_account_bound_witness:
  "resp_Status (fst (ex_sep6 ''account=GB'')) \<in> {400, 403} \<and> aw_sent (snd (ex_sep6 ''account=GB'')) = aw_sent (snd ex_anchor_run)"
proof -
  let ?r = "ex_deposit\<lparr>req_PathValues := [(''id'', ''tr''), (''path'', ''deposit'')], req_Claims := Some (ex_claims ''access'' ''GA'')\<rparr>"
  obtain resp w' where run: "ex_sep6 ''account=GB'' = (resp, w')" by fastforce
  obtain info where info: "aw_cachedInfo (snd ex_anchor_run) = Some info" using ex_anchor_run_eval(2) by auto
  have "aw_hc (snd ex_anchor_run) \<noteq> None" by code_simp
  then obtain g where g: "aw_hc (snd ex_anchor_run) = Some g" by auto
  have r: "PathValue ?r ''path'' = ''deposit''" "req_Method ?r = ''GET''" "an_callerAddress ?r = Some ''GA''"
    by (simp_all add: PathValue_def ex_deposit_def ex_request_def an_callerAddress_def ClaimsFromContext_def ex_claims_def)
  have "Values_Get (fst (ParseQuery (raw_Query \<lparr>raw_Query = ''account=GB'', raw_Body = []\<rparr>))) ''account'' = ''GB''" by code_simp
  then show ?thesis
    using deposit_account_bound [OF run [unfolded ex_sep6_def] r(3) info g] r(1,2) run by auto
qed

text \<open>
  C40. What the cached trustline says, and what it decides. Whatever fails, a confirmation leaves the stored trustline as
  it was or sets it to what the chain said: \<open>active\<close> with the ledger it was seen at when the trustline exists, \<open>missing\<close>
  when it does not. With a healthy database it stores exactly that, and reports a missing one; when the chain
  cannot be asked for the trustline, or, for one that exists, for the ledger, nothing is stored. For a native asset nothing is
  asked or stored. An interactive deposit or withdrawal, at any later moment, never asks the chain: it goes on exactly when
  the cache has \<open>active\<close>, however old, or when the cache cannot be read, and is refused otherwise, with nothing sent.
\<close>

theorem trustline_truthful:
  assumes "ConfirmTrustline s owner w = (r, w')" and "an_ready s"
  shows "(if an_AssetIssuer (an_cfg s) = [] \<or> an_AssetCode (an_cfg s) = ''native'' then r = Inr () \<and> w' = w
     else (case GetTrustline (an_chain s) owner (an_AssetCode (an_cfg s)) (an_AssetIssuer (an_cfg s)) of
      Inl _ \<Rightarrow> w' = w \<and> r \<noteq> Inr ()
    | Inr t \<Rightarrow> if \<not> tl_Exists t then r \<noteq> Inr () \<and> stored_trustline s owner w' \<in> {stored_trustline s owner w, Some (''missing'', 0)} \<and>
          (faults (aw_db w) = [] \<and> length owner \<le> 56 \<and> length (an_AssetIssuer (an_cfg s)) \<le> 56 \<longrightarrow>
             r = Inl errTrustlineMissing \<and> stored_trustline s owner w' = Some (''missing'', 0))
        else (case GetLedger (an_chain s) of
                Inl _ \<Rightarrow> w' = w \<and> r \<noteq> Inr ()
              | Inr l \<Rightarrow> stored_trustline s owner w' \<in> {stored_trustline s owner w, Some (''active'', ldg_Sequence l)} \<and>
                  (faults (aw_db w) = [] \<and> length owner \<le> 56 \<and> length (an_AssetIssuer (an_cfg s)) \<le> 56 \<longrightarrow>
                     r = Inr () \<and> stored_trustline s owner w' = Some (''active'', ldg_Sequence l))))) \<and>
    (\<forall>w2 i kind token t w3. token \<noteq> [] \<and>
       on_db (GetTrustlineState owner (an_AssetCode (an_cfg s)) (an_AssetIssuer (an_cfg s))) w2 = (t, w3) \<longrightarrow>
       aw_sent w3 = aw_sent w2 \<and> startInteractive s i kind token owner w2 =
         (if isl t \<or> map_option fst (stored_trustline s owner w2) = Some ''active'' then interactiveFlow s i kind token owner w3
          else (Inl errTrustlineMissing, w3)))"
proof -
  let ?set = "\<lambda>st l. on_db (SetTrustline owner (an_AssetCode (an_cfg s)) (an_AssetIssuer (an_cfg s)) st l) w"
  note only = SetTrustline_only [of owner s _ _ w]
  have exact: "\<exists>w1. ?set st l = (Inr (), w1) \<and> stored_trustline s owner w1 = Some (st, l)"
    if "faults (aw_db w) = [] \<and> length owner \<le> 56 \<and> length (an_AssetIssuer (an_cfg s)) \<le> 56" for st l
    using SetTrustline_stored that by blast
  show ?thesis
  proof (rule conjI, goal_cases)
    case 1
    show ?case
    proof (cases "GetTrustline (an_chain s) owner (an_AssetCode (an_cfg s)) (an_AssetIssuer (an_cfg s))")
      case (Inl e)
      then show ?thesis using assms by (auto simp: ConfirmTrustline_def Let_def split: if_splits)
    next
      case (Inr t)
      obtain r1 w1 where miss: "?set ''missing'' 0 = (r1, w1)" by fastforce
      obtain r2 w2 where act: "?set ''active'' (case GetLedger (an_chain s) of Inl _ \<Rightarrow> 0 | Inr l \<Rightarrow> ldg_Sequence l) = (r2, w2)" by fastforce
      show ?thesis
        using assms Inr only [OF miss] only [OF act] exact [of "''missing''" 0] miss
          exact [of "''active''" "case GetLedger (an_chain s) of Inl _ \<Rightarrow> 0 | Inr l \<Rightarrow> ldg_Sequence l"] act
        by (cases "GetLedger (an_chain s)"; cases "tl_Exists t"; cases r1) (auto simp: ConfirmTrustline_def Let_def split: if_splits)
    qed
  next
    case 2
    show ?case using interactive_by_cache [OF assms(2)] sent_on_db by blast
  qed
qed

theorem trustline_truthful_witness:
  "\<exists>w'. ConfirmTrustline ex_anchor ''GA'' (anchor_start ex_anchor ex_db0) = (Inr (), w') \<and>
     stored_trustline ex_anchor ''GA'' w' = Some (''active'', 1000)"
proof -
  obtain r w' where c: "ConfirmTrustline ex_anchor ''GA'' (anchor_start ex_anchor ex_db0) = (r, w')" by fastforce
  have "faults (aw_db (anchor_start ex_anchor ex_db0)) = []" by (simp add: anchor_start_def ex_db0_def)
  then show ?thesis using trustline_truthful [OF c] c by (simp add: ex_anchor_def)
qed

end
