(* ===== verification/Sharing.thy ===== *)
theory Sharing
  imports TxHttp AuthProps AnchorProps Scheduler
begin

text \<open>
  The services share one database, and each writes its own tables: the operations of the tx, auth
  and anchor services leave the cheque tables alone, and the scheduler changes them through the
  cheque service only.
\<close>

definition same_ledger :: "pay_db \<Rightarrow> pay_db \<Rightarrow> bool" where
  "same_ledger db db' \<longleftrightarrow> cheques db' = cheques db \<and> cheque_transitions db' = cheque_transitions db \<and>
     reservations db' = reservations db \<and> pool_deposits db' = pool_deposits db"

named_theorems ledger_kept \<open>operations that leave the cheque tables alone\<close>

lemma same_ledger_refl [simp]: "same_ledger db db"
  by (simp add: same_ledger_def)

lemma same_ledger_trans [trans]: "same_ledger a b \<Longrightarrow> same_ledger b c \<Longrightarrow> same_ledger a c"
  by (simp add: same_ledger_def)

lemma same_ledger_tables: "same_tables a b \<Longrightarrow> same_ledger a b"
  by (auto simp: same_ledger_def dest: same_tables_proj)

lemma same_ledger_inv: "same_ledger db db' \<Longrightarrow> ledger_inv db \<Longrightarrow> ledger_inv db'"
  by (simp add: same_ledger_def ledger_inv_def)

text \<open>A statement on other tables, run with whatever happens to the connection.\<close>

lemma exec_ledger:
  assumes "exec f db = (r, db')" and "\<And>a x b. f a = Inr (x, b) \<Longrightarrow> same_ledger a b"
  shows "same_ledger db db'"
proof -
  obtain flt d where n: "next_fault db = (flt, d)" by fastforce
  have d: "same_ledger db d" by (rule same_ledger_tables [OF next_fault_same [OF n]])
  have "same_ledger d b" if "f d = Inr (x, b)" for x b by (rule assms(2) [OF that])
  with d assms(1) show ?thesis
    by (auto simp: exec_def n split: option.splits fault.splits sum.splits intro: same_ledger_trans)
qed

lemma commit_ledger: "tx_commit db0 db = (r, db') \<Longrightarrow> same_ledger db0 db \<Longrightarrow> same_ledger db0 db'"
  using next_fault_same
  by (fastforce simp: tx_commit_def split: prod.splits option.splits fault.splits
      intro: same_ledger_trans same_ledger_tables)

lemma rollback_ledger [simp]: "same_ledger db (rollback db d)"
  by (rule same_ledger_tables) simp

section \<open>The tx service\<close>

lemma tx_statements_ledger:
  "insert_key s a = Inr (x, b) \<Longrightarrow> same_ledger a b" "upsert_submission s a = Inr (x, b) \<Longrightarrow> same_ledger a b"
  "update_submission k f a = Inr (x, b) \<Longrightarrow> same_ledger a b" "finish_key k resp a = Inr (x, b) \<Longrightarrow> same_ledger a b"
  "delete_pending k a = Inr (x, b) \<Longrightarrow> same_ledger a b"
  by (auto simp: same_ledger_def insert_key_def upsert_submission_def update_submission_def finish_key_def delete_pending_def split: if_splits)

lemma InsertAudit_ledger [ledger_kept]: "same_ledger db (snd (InsertAudit a b c db))"
  by (auto simp: InsertAudit_def split: prod.splits sum.splits elim!: exec_ledger) (auto simp: same_ledger_def)

lemma BeginSubmission_ledger:
  assumes "BeginSubmission s db = (r, db')"
  shows "same_ledger db db'"
proof -
  obtain u d where u: "tx_begin db = (u, d)" by fastforce
  obtain v d1 where v: "exec (insert_key s) d = (v, d1)" by fastforce
  obtain z d2 where z: "exec (upsert_submission s) d1 = (z, d2)" by fastforce
  have "same_ledger db d" using u unfolding tx_begin_def by (rule exec_ledger) simp
  moreover have "same_ledger d d1" using v by (rule exec_ledger) (rule tx_statements_ledger)
  moreover have "same_ledger d1 d2" using z by (rule exec_ledger) (rule tx_statements_ledger)
  ultimately have "same_ledger db d" "same_ledger db d2" by (blast intro: same_ledger_trans)+
  then show ?thesis using assms by (auto simp: BeginSubmission_def u v z split: sum.splits dest: commit_ledger)
qed

lemma two_statements_ledger:
  assumes "exec f db = (u, d)" and "exec g d = (v, d')" and "\<And>a x b. f a = Inr (x, b) \<Longrightarrow> same_ledger a b"
    and "\<And>a x b. g a = Inr (x, b) \<Longrightarrow> same_ledger a b"
  shows "same_ledger db d" and "same_ledger db d'"
proof -
  show 1: "same_ledger db d" using assms(1) by (rule exec_ledger) (rule assms(3))
  have "same_ledger d d'" using assms(2) by (rule exec_ledger) (rule assms(4))
  with 1 show "same_ledger db d'" by (rule same_ledger_trans)
qed

lemma CompleteSubmission_ledger: "CompleteSubmission key h st c resp db = (r, db') \<Longrightarrow> same_ledger db db'"
proof -
  let ?f = "update_submission key (\<lambda>r. r\<lparr>sb_tx_hash := Some h, sb_state := st, sb_result_code := Some c\<rparr>)"
  obtain u d where u: "exec ?f db = (u, d)" by fastforce
  obtain v d' where v: "exec (finish_key key resp) d = (v, d')" by fastforce
  note two_statements_ledger [OF u v tx_statements_ledger(3,4)]
  then show "CompleteSubmission key h st c resp db = (r, db') \<Longrightarrow> same_ledger db db'"
    by (auto simp: CompleteSubmission_def u v split: sum.splits)
qed

lemma ReleaseSubmission_ledger: "ReleaseSubmission key c db = (r, db') \<Longrightarrow> same_ledger db db'"
proof -
  let ?f = "update_submission key (\<lambda>r. r\<lparr>sb_state := ''failed'', sb_result_code := Some c\<rparr>)"
  obtain u d where u: "exec ?f db = (u, d)" by fastforce
  obtain v d' where v: "exec (delete_pending key) d = (v, d')" by fastforce
  note two_statements_ledger [OF u v tx_statements_ledger(3,5)]
  then show "ReleaseSubmission key c db = (r, db') \<Longrightarrow> same_ledger db db'"
    by (auto simp: ReleaseSubmission_def u v split: sum.splits)
qed

lemma submit_stages_ledger:
  "submitCheck req db = (st, db') \<Longrightarrow> same_ledger db db'"
  "submitClaim req db = (st, db') \<Longrightarrow> same_ledger db db'"
  "same_ledger db (snd (submitRecord req res db))"
proof -
  show "same_ledger db db'" if "submitCheck req db = (st, db')"
    using that by (auto simp: submitCheck_def GetIdempotentResponse_def split: prod.splits sum.splits option.splits if_splits
        dest!: exec_read_same(1) intro: same_ledger_tables)
  show "same_ledger db db'" if "submitClaim req db = (st, db')"
    using that by (auto simp: submitClaim_def split: prod.splits sum.splits dest: BeginSubmission_ledger)
  show "same_ledger db (snd (submitRecord req res db))"
    by (auto simp: submitRecord_def Let_def split: sum.split prod.split
        dest!: CompleteSubmission_ledger ReleaseSubmission_ledger intro: same_ledger_trans InsertAudit_ledger)
qed

lemma Submit_ledger: "Submit s req db = (r, db') \<Longrightarrow> same_ledger db db'"
  using submit_stages_ledger(3)
  by (auto simp: Submit_def split: if_splits prod.splits tx_stage.splits dest!: submit_stages_ledger(1,2)
      intro: same_ledger_trans) (metis same_ledger_trans snd_conv)+

lemma tx_handlers_ledger:
  "same_ledger db (snd (tx_h_Submit s r db))" "same_ledger db (snd (tx_h_GetSubmission s r db))"
  by (auto simp: tx_h_Submit_def tx_h_GetSubmission_def Let_def split: option.split prod.split sum.split
      dest: Submit_ledger GetSubmission_same intro: same_ledger_tables)

text \<open>Gates and routers add no writes of their own.\<close>

lemma gates_ledger:
  assumes "\<And>r db. same_ledger db (snd (h r db))"
  shows "same_ledger db (snd (RequireReady b code h r db))" and "same_ledger db (snd (RequireBearer jwt key aud onError h r db))"
  using assms by (auto simp: RequireReady_def RequireBearer_def split: option.split sum.split)

lemma ServeMux_ledger:
  assumes "\<And>m ps h r db. (m, ps, h) \<in> set rs \<Longrightarrow> same_ledger db (snd (h r db))"
  shows "same_ledger db (snd (ServeMux rs b r db))"
proof -
  obtain resp db' where run: "ServeMux rs b r db = (resp, db')" by fastforce
  from ServeMux_cases [OF run] show ?thesis using assms run by (metis same_ledger_refl snd_conv)
qed

lemma tx_mux_ledger: "same_ledger db (snd (ServeMux (tx_RegisterRoutes s) b r db))"
  by (rule ServeMux_ledger) (auto simp: tx_RegisterRoutes_def tx_handlers_ledger)

lemma txsvc_ledger: "same_ledger db (snd (txsvc jwt key aud s r db))"
  by (simp add: txsvc_def gates_ledger tx_mux_ledger)

section \<open>The auth service\<close>

lemma UpsertUser_ledger: "UpsertUser acct n db = (r, db') \<Longrightarrow> same_ledger db db'"
  by (auto simp: UpsertUser_def split: prod.splits sum.splits elim!: exec_ledger)
    (auto simp: same_ledger_def upsert_user_def Let_def split: if_splits option.splits)

lemma fundIfNeeded_ledger: "same_ledger db (fundIfNeeded s a db)"
  by (auto simp: fundIfNeeded_def InsertAudit_ledger split: option.split sum.split)

lemma VerifyAndMint_ledger: "VerifyAndMint s now n x db = (r, db') \<Longrightarrow> same_ledger db db'"
proof -
  have "same_ledger a d \<Longrightarrow> same_ledger a (snd (InsertAudit b c e (fundIfNeeded s x d)))" for a b c d e x
    by (meson InsertAudit_ledger fundIfNeeded_ledger same_ledger_trans)
  then show "VerifyAndMint s now n x db = (r, db') \<Longrightarrow> same_ledger db db'"
    by (auto simp: VerifyAndMint_def Let_def split: sum.splits prod.splits if_splits dest!: UpsertUser_ledger
        intro: same_ledger_trans fundIfNeeded_ledger)
qed

lemma auth_handlers_ledger:
  "same_ledger db (snd (h_Challenge s r db))" "same_ledger db (snd (h_Token s now n r db))"
  "same_ledger db (snd (h_Refresh s v m r db))" "same_ledger db (snd (h_Me s r db))" "same_ledger db (snd (h_Fund s r db))"
  by (auto simp: h_Challenge_def h_Token_def h_Refresh_def h_Me_def h_Fund_def Let_def GetProfile_def GetUserByAddress_def
      split: option.split prod.split sum.split option.splits prod.splits sum.splits if_splits
      dest: VerifyAndMint_ledger exec_read_same(1) intro: same_ledger_tables)

lemma auth_mux_ledger:
  "same_ledger db (snd (ServeMux (auth_RegisterRoutes s am) b r db))" "same_ledger db (snd (ServeMux (RegisterProtectedRoutes s) b r db))"
  by (rule ServeMux_ledger, force simp: auth_RegisterRoutes_def RegisterProtectedRoutes_def auth_handlers_ledger)+

lemma authsvc_ledger: "same_ledger db (snd (authsvc s am r db))"
  by (simp add: authsvc_def RequireReady_def gates_ledger auth_mux_ledger)

section \<open>The anchor service\<close>

interpretation anchor_ledger: anchor_relation s acct "\<lambda>w w'. same_ledger (aw_db w) (aw_db w')" for s acct
proof unfold_locales
  show "own_call acct f \<Longrightarrow> snd (f (aw_db w)) = d \<Longrightarrow> same_ledger (aw_db w) (aw_db (w\<lparr>aw_db := d\<rparr>))"
    for f :: "pay_db \<Rightarrow> unit \<times> pay_db" and w d
    using own_call_frame [of acct f "aw_db w"] by (auto simp: anchor_frame_def same_ledger_def)
qed (auto dest: anchor_Info_db client_send_frame intro: same_ledger_trans)

lemma anchorsvc_ledger: "same_ledger (aw_db w) (aw_db (snd (anchorsvc jwt key aud s raw r w)))"
proof -
  obtain resp w' where run: "anchorsvc jwt key aud s raw r w = (resp, w')" by fastforce
  from anchorsvc_cases [OF run] show ?thesis using anchor_ledger.mux_R [OF _ caller_of_claims] run by (metis same_ledger_refl snd_conv)
qed

end
