(* ===== verification/Monolith.thy ===== *)
theory Monolith
  imports ChequeHttp SchedulerHttp ChainProps Boot Sharing
begin

text \<open>
  \<open>backend/cmd/monolith\<close>: every service in one process, over one pool and with in-process gateways.
  The configurations it reads from the environment, its HTTP surface, and that this surface is the
  one of the separate processes.
\<close>

section \<open>Configuration\<close>

definition config_decimals :: "environment \<Rightarrow> string \<Rightarrow> u8" where
  "config_decimals env key = word_of_int (envx_GetInt env key 7)"

definition network_passphrase :: "environment \<Rightarrow> string" where
  "network_passphrase env = envx_Get env ''NETWORK_PASSPHRASE'' TestNetworkPassphrase"

definition chain_config :: "environment \<Rightarrow> chain_Config" where
  "chain_config env = \<lparr>HorizonURL = envx_Get env ''HORIZON_URL'' ''https://horizon-testnet.stellar.org'',
     SorobanRPCURL = envx_Get env ''SOROBAN_RPC_URL'' ''https://soroban-testnet.stellar.org'',
     FriendbotURL = envx_Get env ''FRIENDBOT_URL'' ''https://friendbot.stellar.org''\<rparr>"

text \<open>A configuration with required variables takes their values; theory Processes reads them.\<close>

definition auth_config :: "environment \<Rightarrow> string \<Rightarrow> 'priv \<Rightarrow> 'pub \<Rightarrow> ('priv, 'pub) auth_Config" where
  "auth_config env seed priv pub =
     \<lparr>ServerSigningSeed = seed, HomeDomain = envx_Get env ''HOME_DOMAIN'' ''localhost'',
      WebAuthDomain = envx_Get env ''WEB_AUTH_DOMAIN'' ''localhost'', auth_NetworkPassphrase = network_passphrase env,
      JWTPrivateKey = priv, JWTPublicKey = pub,
      FundNewAccounts = shouldFundNewAccounts (envx_Get env ''FUND_NEW_ACCOUNTS'' []) (network_passphrase env)\<rparr>"

definition cheque_config :: "environment \<Rightarrow> string \<Rightarrow> string \<Rightarrow> Config" where
  "cheque_config env escrow token =
     \<lparr>EscrowContractID = escrow, TokenContractID = token, cfg_AssetCode = envx_Get env ''ASSET_CODE'' ''native'',
      cfg_AssetIssuer = envx_Get env ''ASSET_ISSUER'' [], cfg_Decimals = config_decimals env ''ASSET_DECIMALS'',
      NetworkPassphrase = network_passphrase env\<rparr>"

definition anchor_config :: "environment \<Rightarrow> anchor_Config" where
  "anchor_config env = \<lparr>AnchorID = envx_Get env ''ANCHOR_ID'' ''default'',
     AnchorDomain = envx_Get env ''ANCHOR_DOMAIN'' ''tr-mock-anchor.fly.dev'',
     an_AssetCode = envx_Get env ''ANCHOR_ASSET_CODE'' ''USDC'',
     an_AssetIssuer = envx_Get env ''ANCHOR_ASSET_ISSUER'' ''GBBD47IF6LWK7P7MDEVSCWR7DPUWV3NY3DTQEVFL4NAT4AQH3ZLLFLA5'',
     an_Decimals = config_decimals env ''ANCHOR_ASSET_DECIMALS''\<rparr>"

definition scheduler_config :: "environment \<Rightarrow> string \<Rightarrow> string \<Rightarrow> sched_Config" where
  "scheduler_config env escrow keeper =
     \<lparr>sch_EscrowContractID = escrow, sch_NetworkPassphrase = network_passphrase env, sch_KeeperSeed = keeper\<rparr>"

definition sweep_interval :: "environment \<Rightarrow> time" where
  "sweep_interval env = seconds (envx_GetInt env ''SWEEP_INTERVAL_SECONDS'' 60)"

definition bump_interval :: "environment \<Rightarrow> time" where
  "bump_interval env = seconds (envx_GetInt env ''BUMP_INTERVAL_SECONDS'' (6 * 3600))"

definition readKey :: "environment \<Rightarrow> (string \<Rightarrow> string res) \<Rightarrow> string \<Rightarrow> string \<Rightarrow> string \<Rightarrow> string res" where
  "readKey env readFile envName pathEnv defaultPath =
     (if env envName \<noteq> [] then Inr (env envName) else readFile (envx_Get env pathEnv defaultPath))"

section \<open>The HTTP surface\<close>

datatype mono_payload =
    MHealth bool | MAuth auth_payload | MCheque cheque_payload | MTx tx_payload | MAnchor anchor_payload

record ('tx, 'priv, 'key) mono =
  mono_server :: "'key server"
  mono_ready :: bool
  mono_auth :: "('tx, 'priv, 'key) auth_Service"
  mono_cheque :: "'tx Service"
  mono_tx :: TxSvc
  mono_anchor :: "'tx anchor_Service"

text \<open>A handler on the database, run in the process's state; and a handler's payloads as the process's.\<close>

definition in_mono :: "('p \<Rightarrow> mono_payload) \<Rightarrow> (anchor_world, 'p) handler \<Rightarrow> (anchor_world, mono_payload) handler" where
  "in_mono c h r w = (case h r w of (resp, w') \<Rightarrow> (map_http_response c resp, w'))"

definition over_db :: "(pay_db, 'p) handler \<Rightarrow> (anchor_world, 'p) handler" where
  "over_db h r w = (case h r (aw_db w) of (resp, db) \<Rightarrow> (resp, w\<lparr>aw_db := db\<rparr>))"

definition protected :: "'key server \<Rightarrow> ('d, 'p) handler \<Rightarrow> ('d, 'p) handler" where
  "protected srv = RequireBearer (srv_jwt srv) (srv_publicKey srv) (srv_webAuthDomain srv) unauthorized"

definition authAPI :: "('tx, 'priv, 'key) mono \<Rightarrow> auth_moment \<Rightarrow> (pay_db, auth_payload) handler" where
  "authAPI m am r =
     (if req_Path r \<in> set ProtectedPaths
      then protected (mono_server m) (ServeMux (RegisterProtectedRoutes (mono_auth m)) False) r
      else ServeMux (auth_RegisterRoutes (mono_auth m) am) False r)"

definition monolith ::
  "('tx, 'priv, 'key) mono \<Rightarrow> outside \<Rightarrow> auth_moment \<Rightarrow> raw_request \<Rightarrow> (anchor_world, mono_payload) handler" where
  "monolith m out am raw r w =
     (let srv = mono_server m; ready = mono_ready m; top = take 1 (req_Path r) in
      if req_Path r = [''health''] \<and> method_matches ''GET'' (req_Method r) then HealthHandler MHealth ready r w
      else if req_Path r = [''auth''] \<or> req_Path r = [''tx''] then (Response 307 NoBody, w)
      else if top = [''auth''] then in_mono MAuth (over_db (RequireReady ready ''auth.db_not_ready'' (authAPI m am))) r w
      else if top = [''tx'']
      then in_mono MTx (over_db (RequireReady ready ''tx.db_not_ready'' (protected srv (ServeMux (tx_RegisterRoutes (mono_tx m)) False)))) r w
      else if top = [''anchors'']
      then in_mono MAnchor (RequireReady ready ''anchor.db_not_ready'' (protected srv (anchor_mux (mono_anchor m) raw))) r w
      else in_mono MCheque (over_db (RequireReady ready ''cheque.db_not_ready''
             (protected srv (ServeMux (RegisterRoutes (mono_cheque m) out) False)))) r w)"

text \<open>
  The wiring: the services share the pool and its readiness, and the token settings; a request is
  verified at one time.
\<close>

definition wired :: "('tx, 'priv, 'key) mono \<Rightarrow> auth_moment \<Rightarrow> bool" where
  "wired m am \<longleftrightarrow> auth_pool_ready (mono_auth m) = mono_ready m \<and> pool_ready (mono_cheque m) = mono_ready m \<and>
     tx_pool_ready (mono_tx m) = mono_ready m \<and> an_pool_ready (mono_anchor m) = mono_ready m \<and>
     jwt_parse (mono_auth m) (am_verified am) = srv_jwt (mono_server m) \<and>
     JWTPublicKey (auth_cfg (mono_auth m)) = srv_publicKey (mono_server m) \<and>
     WebAuthDomain (auth_cfg (mono_auth m)) = srv_webAuthDomain (mono_server m)"

section \<open>The surface of each service\<close>

lemmas mono_api = monolith_def authAPI_def protected_def unauthorized_def RequireReady_def Let_def in_mono_def over_db_def

lemma monolith_health:
  "req_Path r = [''health''] \<Longrightarrow> method_matches ''GET'' (req_Method r) \<Longrightarrow> snd (monolith m out am raw r w) = w"
  by (simp add: monolith_def Let_def)

lemma monolith_auth:
  assumes "wired m am" and "take 1 (req_Path r) = [''auth'']"
  shows "monolith m out am raw r w = in_mono MAuth (over_db (authsvc (mono_auth m) am)) r w"
  using assms by (cases "req_Path r") (auto simp: mono_api authsvc_def wired_def)

lemma monolith_tx:
  assumes "wired m am" and "take 1 (req_Path r) = [''tx'']"
  shows "monolith m out am raw r w = in_mono MTx (over_db (txsvc (srv_jwt (mono_server m)) (srv_publicKey (mono_server m))
    (srv_webAuthDomain (mono_server m)) (mono_tx m))) r w"
  using assms by (cases "req_Path r") (auto simp: mono_api txsvc_def wired_def)

lemma monolith_anchors:
  assumes "wired m am" and "take 1 (req_Path r) = [''anchors'']"
  shows "monolith m out am raw r w = in_mono MAnchor (anchorsvc (srv_jwt (mono_server m)) (srv_publicKey (mono_server m))
    (srv_webAuthDomain (mono_server m)) (mono_anchor m) raw) r w"
  using assms by (cases "req_Path r") (auto simp: mono_api anchorsvc_def wired_def)

lemma monolith_cheques:
  assumes "wired m am" and "take 1 (req_Path r) \<notin> {[''auth''], [''tx''], [''anchors''], [''internal'']}"
    and "\<not> (req_Path r = [''health''] \<and> method_matches ''GET'' (req_Method r))"
  shows "monolith m out am raw r w = in_mono MCheque (over_db (chequesvc (mono_server m) (mono_cheque m) out)) r w"
proof -
  have "req_Path r \<noteq> [''internal'']" "req_Path r \<noteq> [''auth'']" "req_Path r \<noteq> [''tx'']" using assms(2) by auto
  then show ?thesis using assms by (auto simp: mono_api chequesvc_def wired_def)
qed

lemma monolith_rest:
  assumes "take 1 (req_Path r) \<notin> {[''auth''], [''tx''], [''anchors'']}"
    and "\<not> (req_Path r = [''health''] \<and> method_matches ''GET'' (req_Method r))"
  shows "monolith m out am raw r w = in_mono MCheque (over_db (RequireReady (mono_ready m) ''cheque.db_not_ready''
      (protected (mono_server m) (ServeMux (RegisterRoutes (mono_cheque m) out) False)))) r w"
proof -
  have "req_Path r \<noteq> [''auth'']" "req_Path r \<noteq> [''tx'']" using assms(1) by auto
  then show ?thesis using assms unfolding monolith_def Let_def by auto
qed

lemma monolith_internal:
  assumes "take 1 (req_Path r) = [''internal'']"
  shows "snd (monolith m out am raw r w) = w \<and> resp_Status (fst (monolith m out am raw r w)) \<in> {401, 404, 503}"
proof -
  let ?h = "protected (mono_server m) (ServeMux (RegisterRoutes (mono_cheque m) out) False)"
  obtain ps where ps: "req_Path r = ''internal'' # ps" using assms by (cases "req_Path r") auto
  have m: "monolith m out am raw r w = in_mono MCheque (over_db (RequireReady (mono_ready m) ''cheque.db_not_ready'' ?h)) r w"
    by (rule monolith_rest) (simp_all add: ps)
  have none: "ServeMux (RegisterRoutes (mono_cheque m) out) False (r\<lparr>req_Claims := x\<rparr>) db = (Response 404 NoBody, db)" for x db
    by (simp add: RegisterRoutes_def ps)
  have "snd (?h r db) = db \<and> resp_Status (fst (?h r db)) \<in> {401, 404}" for db
    by (auto simp: protected_def RequireBearer_def none unauthorized_def WriteError_def split: option.split sum.split)
  then obtain resp where run: "?h r (aw_db w) = (resp, aw_db w)" "resp_Status resp \<in> {401, 404}"
    by (metis prod.collapse)
  have "resp_Status (map_http_response MCheque resp) = resp_Status resp" by (cases resp) simp
  then show ?thesis
    using run unfolding m by (auto simp: in_mono_def over_db_def RequireReady_def WriteError_def)
qed

section \<open>The running process\<close>

text \<open>
  What happens to the state of the process: a request, with the readiness and the chain as they are
  at that moment; a turn of the sweep; time passing and connections failing. The bump of the
  contract instance touches no table.
\<close>

inductive mono_step :: "('tx, 'priv, 'key) mono \<Rightarrow> anchor_world \<Rightarrow> anchor_world \<Rightarrow> bool" for m where
  mono_request: "wired (m' :: ('tx, 'priv, 'key) mono) am \<Longrightarrow> mono_server m' = mono_server m \<Longrightarrow>
    mono_anchor m' = (mono_anchor m)\<lparr>an_ready := ready, an_pool_ready := up, an_chain := g\<rparr> \<Longrightarrow> mono_step m w (snd (monolith m' out am raw r w))"
| mono_sweep: "mono_step m w (w\<lparr>aw_db := snd (SweepExpiredCheques (sch :: 'tx SchedService)
    (SchedulerChequeGateway ((mono_cheque m)\<lparr>chain := g, db_ready := ready\<rparr>) out') mo now (aw_db w))\<rparr>)"
| mono_env: "mono_step m w (w\<lparr>aw_db := (aw_db w)\<lparr>db_clock := t, faults := fs\<rparr>\<rparr>)"

definition mono_boot :: "('tx, 'priv, 'key) mono \<Rightarrow> anchor_world \<Rightarrow> bool" where
  "mono_boot m w \<longleftrightarrow> (\<exists>db. empty_db db \<and> w = anchor_start (mono_anchor m) db)"

lemma in_mono_snd [simp]: "snd (in_mono c h r w) = snd (h r w)"
  by (simp add: in_mono_def split: prod.split)

lemma over_db_snd [simp]: "snd (over_db h r w) = w\<lparr>aw_db := snd (h r (aw_db w))\<rparr>"
  by (simp add: over_db_def split: prod.split)

text \<open>A request ends as one of the anchor service, or it changes the database only and the cheque tables through the cheque service.\<close>

lemma monolith_effect:
  assumes "wired m am"
  obtains (anchor) "snd (monolith m out am raw r w) = snd (anchorsvc (srv_jwt (mono_server m)) (srv_publicKey (mono_server m))
      (srv_webAuthDomain (mono_server m)) (mono_anchor m) raw r w)"
  | (kept) db where "snd (monolith m out am raw r w) = w\<lparr>aw_db := db\<rparr>" "same_ledger (aw_db w) db"
  | (cheque) db where "snd (monolith m out am raw r w) = w\<lparr>aw_db := db\<rparr>" "repo_step\<^sup>*\<^sup>* (aw_db w) db"
proof -
  consider (a) "take 1 (req_Path r) = [''auth'']" | (t) "take 1 (req_Path r) = [''tx'']" | (n) "take 1 (req_Path r) = [''anchors'']"
    | (h) "req_Path r = [''health'']" "method_matches ''GET'' (req_Method r)"
    | (c) "take 1 (req_Path r) \<notin> {[''auth''], [''tx''], [''anchors'']}" "\<not> (req_Path r = [''health''] \<and> method_matches ''GET'' (req_Method r))"
    by blast
  then show thesis
  proof cases
    case a
    show ?thesis by (rule kept, simp add: monolith_auth [OF assms a], rule authsvc_ledger)
  next
    case t
    show ?thesis by (rule kept, simp add: monolith_tx [OF assms t], rule txsvc_ledger)
  next
    case n
    then show ?thesis by (intro anchor) (simp add: monolith_anchors assms)
  next
    case h
    then show ?thesis by (intro kept [of "aw_db w"]) (simp_all add: monolith_health)
  next
    case c
    have "repo_step\<^sup>*\<^sup>* db (snd (protected (mono_server m) (ServeMux (RegisterRoutes (mono_cheque m) out) False) r db))" for db
      using bearer_api [where srv = "mono_server m" and r = r and s = "mono_cheque m" and out = out and db = db]
      by (auto simp: protected_def Let_def split: option.splits dest: svc_call_steps)
    then show ?thesis by (intro cheque) (auto simp: monolith_rest [OF c] RequireReady_def)
  qed
qed

interpretation mono_system: invariant_system "mono_boot m" "mono_step m" "\<lambda>w. ledger_inv (aw_db w) \<and> egress_inv (mono_anchor m) w" for m
proof unfold_locales
  fix w
  assume "mono_boot m w"
  then obtain db where db: "empty_db db" "w = anchor_start (mono_anchor m) db" by (auto simp: mono_boot_def)
  then have "ledger_inv (aw_db w)" using ChequeLedger.ledger.inv_init by (simp add: anchor_start_def)
  moreover have "egress_inv (mono_anchor m) w" by (rule egress_system.inv_init) (use db(2) in blast)
  ultimately show "ledger_inv (aw_db w) \<and> egress_inv (mono_anchor m) w" ..
next
  fix w w'
  assume inv: "ledger_inv (aw_db w) \<and> egress_inv (mono_anchor m) w" and "mono_step m w w'"
  from this(2) show "ledger_inv (aw_db w') \<and> egress_inv (mono_anchor m) w'"
  proof cases
    case (mono_request m' am ready up g out raw r)
    note w' = mono_request(1)
    show ?thesis
    proof (rule monolith_effect [OF mono_request(2), of out raw r w])
      let ?srv = "mono_server m'"
      assume a: "snd (monolith m' out am raw r w) = snd (anchorsvc (srv_jwt ?srv) (srv_publicKey ?srv) (srv_webAuthDomain ?srv) (mono_anchor m') raw r w)"
      have "anchor_step (srv_jwt ?srv) (srv_publicKey ?srv) (srv_webAuthDomain ?srv) (mono_anchor m) w w'"
        unfolding anchor_step_def w' a mono_request(4) by blast
      moreover have "same_ledger (aw_db w) (aw_db w')" unfolding w' a by (rule anchorsvc_ledger)
      ultimately show ?thesis using inv by (meson egress_system.inv_step same_ledger_inv)
    next
      fix db
      assume "snd (monolith m' out am raw r w) = w\<lparr>aw_db := db\<rparr>" "same_ledger (aw_db w) db"
      then show ?thesis using inv w' by (simp add: same_ledger_inv [of "aw_db w"])
    next
      fix db
      assume "snd (monolith m' out am raw r w) = w\<lparr>aw_db := db\<rparr>" "repo_step\<^sup>*\<^sup>* (aw_db w) db"
      then show ?thesis using inv w' by (simp add: ChequeLedger.ledger.inv_steps [of "aw_db w"])
    qed
  next
    case mono_sweep
    then show ?thesis using inv by (simp add: ChequeLedger.ledger.inv_steps [OF _ SweepExpiredCheques_runs])
  next
    case mono_env
    then show ?thesis using inv ledger_inv_step [OF _ env_step] by simp
  qed
qed

section \<open>Properties\<close>

definition ex_mono :: "(string, string, string) mono" where
  "ex_mono = \<lparr>mono_server = \<lparr>srv_jwt = jwt_parse ex_auth 0, srv_publicKey = ''key'', srv_webAuthDomain = ''pay'', srv_internalKey = ''k''\<rparr>,
     mono_ready = True, mono_auth = ex_auth, mono_cheque = ex_service ScvVoid, mono_tx = ex_tx (Inr ex_result), mono_anchor = ex_anchor\<rparr>"

definition ex_auth_moment :: auth_moment where
  "ex_auth_moment = \<lparr>am_verified = 0, am_minted = 0, am_nextval = 1\<rparr>"

lemma ex_mono_wired: "wired ex_mono ex_auth_moment"
  by (simp add: wired_def ex_mono_def ex_auth_moment_def ex_auth_def ex_service_def ex_tx_def ex_anchor_def)

text \<open>
  C23. The whole process in operation: from an empty database, after any sequence of requests to any of the
  services by any callers, sweeps of the scheduler, clock ticks and connection failures, whatever the
  chain, the anchor and the network answer, the cheque ledger is consistent and every request the
  process sent to an anchor went to the configured domain or to an endpoint that domain published.
\<close>

theorem monolith_invariants:
  assumes "reach (mono_boot m) (mono_step m) w"
  shows "ledger_inv (aw_db w) \<and> (\<forall>q\<in>set (aw_sent w). Hostname (or_URL q) = AnchorDomain (an_cfg (mono_anchor m)) \<or>
    (\<exists>info. aw_cachedInfo w = Some info \<and> Hostname (or_URL q) \<in> endpoint_hosts (mono_anchor m) info))"
  using mono_system.inv_reach [OF assms] by (auto simp: egress_inv_def permitted_hosts_def split: option.splits)

definition ex_mono_run :: "mono_payload http_response \<times> anchor_world" where
  "ex_mono_run = monolith ex_mono ex_outside ex_auth_moment \<lparr>raw_Query = [], raw_Body = []\<rparr>
     (ex_request ''aGA'' ''GET'' [''anchors''] JNull) (anchor_start ex_anchor ex_db0)"

theorem monolith_invariants_witness:
  "aw_sent (snd ex_mono_run) \<noteq> [] \<and> ledger_inv (aw_db (snd ex_mono_run))"
proof -
  have "wired ex_mono ex_auth_moment" "mono_server ex_mono = mono_server ex_mono"
    "mono_anchor ex_mono = (mono_anchor ex_mono)\<lparr>an_ready := True, an_pool_ready := True, an_chain := an_chain ex_anchor\<rparr>"
    by (rule ex_mono_wired, simp, simp add: ex_mono_def ex_anchor_def)
  then have "mono_step ex_mono (anchor_start ex_anchor ex_db0) (snd ex_mono_run)"
    unfolding ex_mono_run_def by (rule mono_step.mono_request)
  moreover have "mono_boot ex_mono (anchor_start ex_anchor ex_db0)"
    unfolding mono_boot_def by (intro exI [of _ ex_db0]) (simp add: empty_db_def ex_db0_def ex_mono_def)
  ultimately have "reach (mono_boot ex_mono) (mono_step ex_mono) (snd ex_mono_run)" by (blast intro: reach.intros)
  moreover have "aw_sent (snd ex_mono_run) \<noteq> []" by code_simp
  ultimately show ?thesis using monolith_invariants by blast
qed

text \<open>
  The numbers of the configuration: the decimals of an asset are the number set in the environment
  whenever it fits a byte, and that number modulo 256 otherwise; a sweep interval from one second up to
  the longest duration starts the loop and runs the job once per tick, and an interval of zero or less
  stops the process.
\<close>

theorem config_numbers:
  assumes "- (2 ^ 63) \<le> n" and "n < 2 ^ 63"
  shows "uint (config_decimals (env(key := bigint_String n)) key) = n mod 256 \<and>
    (1 \<le> n \<and> n \<le> 9223372036 \<longrightarrow>
       runLoop (sweep_interval (env(''SWEEP_INTERVAL_SECONDS'' := bigint_String n))) (map Tick xs @ Done # es) f s = Some (fold f xs s)) \<and>
    (- 9223372036 \<le> n \<and> n \<le> 0 \<longrightarrow>
       runLoop (sweep_interval (env(''SWEEP_INTERVAL_SECONDS'' := bigint_String n))) es f s = None)"
proof -
  have "envx_GetInt (env(x := bigint_String n)) x d = n" for x d
    by (rule GetInt_written) (use assms in auto)
  then show ?thesis
    by (auto simp: config_decimals_def sweep_interval_def runLoop_def run_ticks_map seconds_exact uint_word_of_int)
qed

theorem config_numbers_witness:
  "uint (config_decimals ((\<lambda>_. [])(''D'' := bigint_String 262)) ''D'') = 6 \<and>
   runLoop (sweep_interval ((\<lambda>_. [])(''SWEEP_INTERVAL_SECONDS'' := bigint_String 60))) [Tick 4, Tick 3, Done] (+) 0 = Some (7 :: int) \<and>
   runLoop (sweep_interval ((\<lambda>_. [])(''SWEEP_INTERVAL_SECONDS'' := bigint_String 0))) [Tick 4] (+) 0 = (None :: int option)"
  using config_numbers [of 262 "\<lambda>_. []" "''D''" "[]" "[]" "(+)" "0 :: int"]
    config_numbers [of 60 "\<lambda>_. []" "[]" "[4, 3]" "[]" "(+)" "0 :: int"]
    config_numbers [of 0 "\<lambda>_. []" "[]" "[]" "[Tick 4]" "(+)" "0 :: int"]
  by simp

end
