(* ===== verification/ReapFlight.thy ===== *)
theory ReapFlight
  imports Reaper ChequeHttp
begin

text \<open>
  Single flight with crashes, time and the reaper. The machine of TxFlight is run against the clock: a submission
  knows when it claimed its key, it may crash at any point, recording its verdict may fail, time passes, and the reaper
  may run at any moment and takes whatever has expired, the keys of crashed submissions included. What is asked of a
  submission is that it acts within the life of its key (a day). Then a key whose response is stored gets no verdict
  any more, and two verdicts under one key are more than the life of a key apart.
\<close>

section \<open>The machine\<close>

text \<open>Each submission with the time of its claim, and what went to the network: the key, when it was claimed, the answer.\<close>

record live_world =
  ldb :: pay_db
  live :: "nat \<Rightarrow> (tx_stage \<times> time) option"
  went :: "(string \<times> time \<times> SubmitResult res) list"

definition live_start :: "live_world \<Rightarrow> bool" where
  "live_start w \<longleftrightarrow> live w = (\<lambda>_. None) \<and> went w = []"

inductive live_step :: "live_world \<Rightarrow> live_world \<Rightarrow> bool" where
  live_begin: "live w t = None \<Longrightarrow> live_step w (w\<lparr>live := (live w)(t \<mapsto> (Checking req, db_clock (ldb w)))\<rparr>)"
| live_check: "live w t = Some (Checking req, c) \<Longrightarrow> submitCheck req (ldb w) = (st, d) \<Longrightarrow>
     live_step w (w\<lparr>ldb := d, live := (live w)(t \<mapsto> (st, db_clock (ldb w)))\<rparr>)"
| live_claim: "live w t = Some (Claiming req, c) \<Longrightarrow> submitClaim req (ldb w) = (st, d) \<Longrightarrow>
     live_step w (w\<lparr>ldb := d, live := (live w)(t \<mapsto> (st, db_clock (ldb w)))\<rparr>)"
| live_send: "live w t = Some (Sending req, c) \<Longrightarrow> db_clock (ldb w) \<le> c + keyTTL \<Longrightarrow>
     live_step w (w\<lparr>live := (live w)(t \<mapsto> (Recording req r, c)), went := went w @ [(req_IdempotencyKey req, c, r)]\<rparr>)"
| live_record: "live w t = Some (Recording req r, c) \<Longrightarrow> db_clock (ldb w) \<le> c + keyTTL \<Longrightarrow> submitRecord req r (ldb w) = (x, d) \<Longrightarrow>
     live_step w (w\<lparr>ldb := d, live := (live w)(t \<mapsto> (Finished x, c))\<rparr>)"
| live_crash: "live_step w (w\<lparr>live := (live w)(t := None)\<rparr>)"
| live_reap: "now \<le> db_clock (ldb w) \<Longrightarrow> live_step w (w\<lparr>ldb := snd (ReapExpiredKeys s now (ldb w))\<rparr>)"
| live_other: "idempotency_keys d = idempotency_keys (ldb w) \<Longrightarrow> db_clock (ldb w) \<le> db_clock d \<Longrightarrow>
     live_step w (w\<lparr>ldb := d\<rparr>)"

text \<open>A submission that holds the key and is still within its life.\<close>

definition in_flight :: "live_world \<Rightarrow> nat \<Rightarrow> string \<Rightarrow> bool" where
  "in_flight w t k \<longleftrightarrow> (case live w t of None \<Rightarrow> False
     | Some (st, c) \<Rightarrow> holds k (Some st) \<and> db_clock (ldb w) \<le> c + keyTTL)"

text \<open>When the claims were made under which the key got its verdicts, in the order of the verdicts.\<close>

definition verdict_claims :: "string \<Rightarrow> live_world \<Rightarrow> time list" where
  "verdict_claims k w = map (\<lambda>(_, c, _). c) (filter (\<lambda>(k', _, r). k' = k \<and> verdict r) (went w))"

section \<open>The idempotency table\<close>

definition done_keys :: "pay_db \<Rightarrow> string set" where
  "done_keys db = ik_key ` {r \<in> set (idempotency_keys db). ik_status r = ''done''}"

interpretation done_kept: db_relation "\<lambda>a b. done_keys a \<subseteq> done_keys b"
  by unfold_locales (auto simp: done_keys_def dest: same_tables_proj)

lemma tx_statements_done:
  "insert_key s a = Inr (x, b) \<Longrightarrow> done_keys a \<subseteq> done_keys b" "upsert_submission s a = Inr (x, b) \<Longrightarrow> done_keys a \<subseteq> done_keys b"
  "update_submission k f a = Inr (x, b) \<Longrightarrow> done_keys a \<subseteq> done_keys b" "delete_pending k a = Inr (x, b) \<Longrightarrow> done_keys a \<subseteq> done_keys b"
  by (auto simp: done_keys_def insert_key_def upsert_submission_def update_submission_def delete_pending_def split: if_splits)

lemma finish_key_done:
  assumes "finish_key k resp a = Inr (x, b)"
  shows "done_keys a \<subseteq> done_keys b" and "k \<in> claimed_keys a \<Longrightarrow> k \<in> done_keys b"
proof -
  let ?g = "\<lambda>r. if ik_key r = k then r\<lparr>ik_status := ''done'', ik_response_json := Some resp\<rparr> else r"
  have "ik_key r \<in> done_keys b" if "r \<in> set (idempotency_keys a)" "ik_status r = ''done'' \<or> ik_key r = k" for r
    unfolding done_keys_def using assms that
    by (intro image_eqI [of _ _ "?g r"]) (auto simp: finish_key_def)
  then show "done_keys a \<subseteq> done_keys b" "k \<in> claimed_keys a \<Longrightarrow> k \<in> done_keys b"
    by (auto simp: done_keys_def claimed_keys_def)
qed

lemma exec_done:
  "pure_stmt f \<Longrightarrow> (\<And>x d. f db = Inr (x, d) \<Longrightarrow> done_keys db \<subseteq> done_keys d) \<Longrightarrow> exec f db = (r, d') \<Longrightarrow> done_keys db \<subseteq> done_keys d'"
  using done_kept.executed [of f db] by simp

lemma InsertAudit_done: "done_keys db \<subseteq> done_keys (snd (InsertAudit a b c db))"
  unfolding InsertAudit_def
  by (rule done_kept.on_error, rule done_kept.executed [OF pure_audit]) (auto simp: done_keys_def)

lemma submitClaim_done: "submitClaim req db = (st, d) \<Longrightarrow> done_keys db \<subseteq> done_keys d"
proof -
  assume c: "submitClaim req db = (st, d)"
  obtain s r where b: "BeginSubmission s db = (r, d)"
    using c by (auto simp: submitClaim_def split: prod.splits sum.splits)
  from BeginSubmission_cases [OF b] show ?thesis
    using tx_statements_done(1,2) done_kept.rel_same by (meson subset_trans)
qed

lemma CompleteSubmission_done:
  assumes "CompleteSubmission key h st code resp db = (r, d)"
  shows "done_keys db \<subseteq> done_keys d" and "r = Inr () \<Longrightarrow> key \<in> claimed_keys db \<Longrightarrow> key \<in> done_keys d"
proof -
  let ?f = "update_submission key (\<lambda>r. r\<lparr>sb_tx_hash := Some h, sb_state := st, sb_result_code := Some code\<rparr>)"
  obtain u d1 where u: "exec ?f db = (u, d1)" by fastforce
  obtain v d2 where v: "exec (finish_key key resp) d1 = (v, d2)" by fastforce
  have k1: "done_keys db \<subseteq> done_keys d1" using pure_tx(3) tx_statements_done(3) u by (rule exec_done)
  moreover have k2: "done_keys d1 \<subseteq> done_keys d2" using pure_tx(4) finish_key_done(1) v by (rule exec_done)
  ultimately show "done_keys db \<subseteq> done_keys d" using assms u v by (auto simp: CompleteSubmission_def split: sum.splits)
  show "key \<in> done_keys d" if "r = Inr ()" "key \<in> claimed_keys db"
  proof -
    have "v = Inr ()" "d = d2" using assms that(1) u v by (auto simp: CompleteSubmission_def split: sum.splits)
    moreover obtain d3 where "finish_key key resp d1 = Inr ((), d3)" "same_tables d3 d2"
      using exec_pure_cases [OF pure_tx(4) v] \<open>v = Inr ()\<close> by auto
    moreover have "key \<in> claimed_keys d1" using that(2) update_submission_keys [OF u] by simp
    ultimately show ?thesis using finish_key_done(2) done_kept.rel_same by blast
  qed
qed

lemma ReleaseSubmission_done: "ReleaseSubmission key code db = (r, d) \<Longrightarrow> done_keys db \<subseteq> done_keys d"
proof -
  let ?f = "update_submission key (\<lambda>r. r\<lparr>sb_state := ''failed'', sb_result_code := Some code\<rparr>)"
  obtain u d1 where u: "exec ?f db = (u, d1)" by fastforce
  obtain v d2 where v: "exec (delete_pending key) d1 = (v, d2)" by fastforce
  have "done_keys db \<subseteq> done_keys d1" using pure_tx(3) tx_statements_done(3) u by (rule exec_done)
  moreover have "done_keys d1 \<subseteq> done_keys d2" using pure_tx(5) tx_statements_done(4) v by (rule exec_done)
  ultimately show "ReleaseSubmission key code db = (r, d) \<Longrightarrow> done_keys db \<subseteq> done_keys d"
    using u v by (auto simp: ReleaseSubmission_def split: sum.splits)
qed

lemma submitRecord_done: "submitRecord req r db = (x, d) \<Longrightarrow> done_keys db \<subseteq> done_keys d"
  by (auto simp: submitRecord_def Let_def split: sum.splits prod.splits if_splits
      dest!: CompleteSubmission_done(1) ReleaseSubmission_done intro: subset_trans InsertAudit_done)
    (meson InsertAudit_done subsetD)+

lemma submitRecord_settles:
  assumes "submitRecord req r db = (Inr y, d)" and "verdict r" and "req_IdempotencyKey req \<in> claimed_keys db"
  shows "req_IdempotencyKey req \<in> done_keys d"
proof -
  obtain result where r: "r = Inr result"
      and v: "(\<not> sub_Successful result \<and> sub_ResultCode result = resultCodeBadSeq) = False"
    using assms(2) by (auto simp: verdict_def split: sum.splits)
  let ?resp = "\<lparr>resp_Hash = sub_Hash result, resp_Successful = sub_Successful result,
     resp_ResultCode = sub_ResultCode result, resp_Replayed = False\<rparr>"
  obtain q d' where c: "CompleteSubmission (req_IdempotencyKey req) (sub_Hash result) (submissionState result)
      (sub_ResultCode result) ?resp db = (q, d')" by fastforce
  have "q = Inr () \<and> done_keys d' \<subseteq> done_keys d"
    using assms(1) unfolding submitRecord_def Let_def r sum.case v if_False c by (cases q) (auto intro: subsetD [OF InsertAudit_done])
  then show ?thesis using CompleteSubmission_done(2) [OF c] assms(3) by blast
qed

text \<open>The key is taken at least until the given time.\<close>

definition lasting :: "pay_db \<Rightarrow> string \<Rightarrow> time \<Rightarrow> bool" where
  "lasting db k e \<longleftrightarrow> (\<exists>r\<in>set (idempotency_keys db). ik_key r = k \<and> e \<le> ik_expires_at r)"

lemma lasting_claimed: "lasting db k e \<Longrightarrow> k \<in> claimed_keys db"
  by (auto simp: lasting_def claimed_keys_def)

text \<open>The rows and the clock are all that counts.\<close>

lemma key_views:
  assumes "idempotency_keys b = idempotency_keys a"
  shows "lasting b = lasting a" and "done_keys b = done_keys a"
  using assms by (simp_all add: lasting_def done_keys_def fun_eq_iff)

lemma same_keys: "same_tables a b \<Longrightarrow> idempotency_keys b = idempotency_keys a \<and> db_clock b = db_clock a"
  unfolding same_tables_def by (erule ssubst) simp

text \<open>What one statement, the claim, the recording and the reaper do to the rows.\<close>

lemma exec_rows:
  assumes "pure_stmt f" and "exec f db = (r, d)"
    and "\<And>x b. f db = Inr (x, b) \<Longrightarrow> db_clock b = db_clock db \<and> idempotency_keys b = g (idempotency_keys db)"
  shows "db_clock d = db_clock db \<and> (idempotency_keys d = idempotency_keys db \<or> idempotency_keys d = g (idempotency_keys db))"
  using exec_pure_cases [OF assms(1,2)] assms(3) same_keys by metis

lemma submitClaim_rows:
  assumes "submitClaim req db = (st, d)"
  shows "db_clock d = db_clock db" and "done_keys d = done_keys db" and "lasting db k e \<Longrightarrow> lasting d k e"
    and "st = Sending req \<and> req_IdempotencyKey req \<notin> claimed_keys db \<and> lasting d (req_IdempotencyKey req) (db_clock db + keyTTL) \<or>
      (\<exists>x. st = Finished x)"
proof -
  let ?k = "req_IdempotencyKey req"
  obtain s r where b: "BeginSubmission s db = (r, d)" and k: "IdempotencyKey s = ?k"
    and ok: "st = Sending req \<longleftrightarrow> r = Inr ()"
    using assms by (auto simp: submitClaim_def split: prod.splits sum.splits)
  from BeginSubmission_cases [OF b]
  have "idempotency_keys d = idempotency_keys db \<and> db_clock d = db_clock db \<and> st \<noteq> Sending req \<or>
    db_clock d = db_clock db \<and> (\<exists>row. idempotency_keys d = idempotency_keys db @ [row] \<and> ik_key row = ?k \<and> ik_status row = ''pending'' \<and>
       ik_expires_at row = db_clock db + keyTTL)"
    using same_keys ok k
    by (auto simp: insert_key_def upsert_submission_def split: if_splits)
  then consider "idempotency_keys d = idempotency_keys db" "db_clock d = db_clock db" "st \<noteq> Sending req"
    | row where "db_clock d = db_clock db" "idempotency_keys d = idempotency_keys db @ [row]" "ik_key row = ?k"
      "ik_status row = ''pending''" "ik_expires_at row = db_clock db + keyTTL" by blast
  then have all: "db_clock d = db_clock db \<and> done_keys d = done_keys db \<and> (\<forall>k e. lasting db k e \<longrightarrow> lasting d k e) \<and>
    (st = Sending req \<longrightarrow> lasting d ?k (db_clock db + keyTTL))"
  proof cases
    case 1
    then show ?thesis using key_views by metis
  next
    case 2
    then show ?thesis by (auto simp: done_keys_def lasting_def)
  qed
  then show "db_clock d = db_clock db" "done_keys d = done_keys db" "lasting db k e \<Longrightarrow> lasting d k e" by blast+
  show "st = Sending req \<and> ?k \<notin> claimed_keys db \<and> lasting d ?k (db_clock db + keyTTL) \<or> (\<exists>x. st = Finished x)"
    using submitClaim_stage [OF assms] all by blast
qed

text \<open>Recording touches the rows of one key only, and after a verdict keeps them.\<close>

definition rows_kept :: "string \<Rightarrow> bool \<Rightarrow> pay_db \<Rightarrow> pay_db \<Rightarrow> bool" where
  "rows_kept k v a b \<longleftrightarrow> db_clock b = db_clock a \<and> done_keys a \<subseteq> done_keys b \<and> done_keys b \<subseteq> insert k (done_keys a) \<and>
     (\<forall>k' e. (v \<or> k' \<noteq> k) \<and> lasting a k' e \<longrightarrow> lasting b k' e)"

interpretation kept: db_relation "rows_kept k v" for k v
proof unfold_locales
  show "rows_kept k v a b" if "same_tables a b" for a b
    using same_keys [OF that] key_views [of b a] by (auto simp: rows_kept_def)
qed (auto simp: rows_kept_def)

lemma finish_key_kept: "finish_key k resp a = Inr (x, b) \<Longrightarrow> rows_kept k v a b"
proof -
  assume f: "finish_key k resp a = Inr (x, b)"
  let ?g = "\<lambda>r. if ik_key r = k then r\<lparr>ik_status := ''done'', ik_response_json := Some resp\<rparr> else r"
  have b: "idempotency_keys b = map ?g (idempotency_keys a)" "db_clock b = db_clock a" using f by (auto simp: finish_key_def)
  have "lasting b k' e" if "lasting a k' e" for k' e
  proof -
    from that obtain r where r: "r \<in> set (idempotency_keys a)" "ik_key r = k'" "e \<le> ik_expires_at r" by (auto simp: lasting_def)
    then show ?thesis unfolding lasting_def b(1) by (intro bexI [of _ "?g r"]) auto
  qed
  moreover have "done_keys b \<subseteq> insert k (done_keys a)" by (auto simp: done_keys_def b(1) split: if_splits)
  ultimately show ?thesis using b(2) finish_key_done(1) [OF f] by (simp add: rows_kept_def)
qed

lemma tx_statements_kept:
  "update_submission k' f a = Inr (x, b) \<Longrightarrow> rows_kept k v a b" "delete_pending k a = Inr (x, b) \<Longrightarrow> rows_kept k False a b"
  by (auto simp: update_submission_def delete_pending_def rows_kept_def done_keys_def lasting_def)

lemma records_kept:
  "rows_kept k v db (snd (CompleteSubmission k h st code resp db))" "rows_kept k False db (snd (ReleaseSubmission k code db))"
  "rows_kept k v db (snd (InsertAudit a b c db))"
proof -
  have e: "rows_kept k v a (snd (exec (update_submission k' f) a))" "rows_kept k v a (snd (exec (finish_key k resp) a))"
    "rows_kept k False a (snd (exec (delete_pending k) a))" for v k' f resp a
    by (rule kept.executed [OF pure_tx(3)], erule tx_statements_kept) (rule kept.executed [OF pure_tx(4)], erule finish_key_kept,
      rule kept.executed [OF pure_tx(5)], erule tx_statements_kept)
  show "rows_kept k v db (snd (CompleteSubmission k h st code resp db))"
    unfolding CompleteSubmission_def by (intro kept.on_error kept.ret e)
  show "rows_kept k False db (snd (ReleaseSubmission k code db))"
    unfolding ReleaseSubmission_def by (intro kept.on_error kept.ret e)
  show "rows_kept k v db (snd (InsertAudit a b c db))"
    unfolding InsertAudit_def
    by (intro kept.on_error kept.ret kept.executed pure_audit) (auto simp: rows_kept_def done_keys_def lasting_def)
qed

lemma submitRecord_kept:
  assumes "submitRecord req r db = (x, d)"
  shows "rows_kept (req_IdempotencyKey req) (verdict r) db d"
proof -
  let ?k = "req_IdempotencyKey req"
  have audit: "rows_kept ?k v a (snd (InsertAudit x y z b))" if "rows_kept ?k v a b" for v a b x y z
    using that records_kept(3) kept.rel_trans by blast
  have complete: "rows_kept ?k v db d'" if "CompleteSubmission ?k h st code resp db = (q, d')" for v h st code resp q d'
    using records_kept(1) [of ?k v db h st code resp] that by simp
  have release: "rows_kept ?k False db d'" if "ReleaseSubmission ?k code db = (q, d')" for code q d'
    using records_kept(2) [of ?k db code] that by simp
  show ?thesis
  proof (cases r)
    case (Inl e)
    then show ?thesis using assms release audit by (auto simp: submitRecord_def Let_def verdict_def split: prod.splits sum.splits)
  next
    case (Inr result)
    show ?thesis
    proof (cases "\<not> sub_Successful result \<and> sub_ResultCode result = resultCodeBadSeq")
      case True
      then have "verdict r = False" by (simp add: Inr verdict_def)
      then show ?thesis using assms release audit True Inr by (auto simp: submitRecord_def Let_def split: prod.splits sum.splits)
    next
      case False
      then show ?thesis using assms complete audit Inr
        by (simp add: submitRecord_def Let_def del: de_Morgan_conj split: prod.splits sum.splits) blast+
    qed
  qed
qed

lemma ReapExpiredKeys_rows:
  "db_clock (snd (ReapExpiredKeys s now db)) = db_clock db" "done_keys (snd (ReapExpiredKeys s now db)) = done_keys db"
  "lasting db k e \<Longrightarrow> now \<le> e \<Longrightarrow> lasting (snd (ReapExpiredKeys s now db)) k e"
proof -
  let ?dead = "\<lambda>r. ik_status r = ''pending'' \<and> ik_expires_at r < pg_timestamp now"
  let ?del = "\<lambda>db. Inr (length (filter ?dead (idempotency_keys db)),
      db\<lparr>idempotency_keys := filter (\<lambda>r. \<not> ?dead r) (idempotency_keys db)\<rparr>) :: pg_error + nat \<times> pay_db"
  obtain r d where x: "exec ?del db = (r, d)" by fastforce
  have "pure_stmt ?del" by (simp add: pure_stmt_def)
  from exec_rows [OF this x, of "filter (\<lambda>r. \<not> ?dead r)"]
  have d: "db_clock d = db_clock db" "idempotency_keys d = idempotency_keys db \<or> idempotency_keys d = filter (\<lambda>r. \<not> ?dead r) (idempotency_keys db)"
    by auto
  have either: "snd (ReapExpiredKeys s now db) = db \<or> snd (ReapExpiredKeys s now db) = d"
    unfolding ReapExpiredKeys_def ReapExpiredPendingKeys_def Let_def x by (cases r) simp_all
  have same: "done_keys d = done_keys db" using d(2) by (auto simp: done_keys_def)
  have last: "lasting d k e" if "lasting db k e" "now \<le> e"
  proof -
    have "pg_timestamp now \<le> now" by (simp add: pg_timestamp_def minus_mod_eq_div_mult [symmetric])
    then have "pg_timestamp now \<le> e" using that(2) by linarith
    with that(1) obtain r where "r \<in> set (idempotency_keys db)" "ik_key r = k" "e \<le> ik_expires_at r" "\<not> ?dead r"
      by (auto simp: lasting_def)
    then show ?thesis using d(2) unfolding lasting_def by (intro bexI [of _ r]) auto
  qed
  show "db_clock (snd (ReapExpiredKeys s now db)) = db_clock db" using either d(1) by (elim disjE) (simp_all only:)
  show "done_keys (snd (ReapExpiredKeys s now db)) = done_keys db" using either same by (elim disjE) (simp_all only:)
  show "lasting (snd (ReapExpiredKeys s now db)) k e" if "lasting db k e" "now \<le> e"
    using either last [OF that] that(1) by (elim disjE) (simp_all only:)
qed

section \<open>The invariant\<close>

definition live_inv :: "live_world \<Rightarrow> bool" where
  "live_inv w \<longleftrightarrow>
     (\<forall>t k st c. live w t = Some (st, c) \<and> in_flight w t k \<longrightarrow>
        c \<le> db_clock (ldb w) \<and> lasting (ldb w) k (c + keyTTL) \<and> k \<notin> done_keys (ldb w) \<and>
        (\<forall>c'\<in>set (verdict_claims k w). c' + keyTTL < c \<or> judged k (Some st))) \<and>
     (\<forall>t u k. in_flight w t k \<and> in_flight w u k \<longrightarrow> t = u) \<and>
     (\<forall>k. \<forall>c\<in>set (verdict_claims k w). k \<in> done_keys (ldb w) \<or> c + keyTTL < db_clock (ldb w) \<or> lasting (ldb w) k (c + keyTTL)) \<and>
     (\<forall>k. sorted_wrt (\<lambda>a b. a + keyTTL < b) (verdict_claims k w))"

lemma live_invI:
  assumes "\<And>t k st c. live w t = Some (st, c) \<Longrightarrow> in_flight w t k \<Longrightarrow>
        c \<le> db_clock (ldb w) \<and> lasting (ldb w) k (c + keyTTL) \<and> k \<notin> done_keys (ldb w) \<and>
        (\<forall>c'\<in>set (verdict_claims k w). c' + keyTTL < c \<or> judged k (Some st))"
    and "\<And>t u k. in_flight w t k \<Longrightarrow> in_flight w u k \<Longrightarrow> t = u"
    and "\<And>k c. c \<in> set (verdict_claims k w) \<Longrightarrow> k \<in> done_keys (ldb w) \<or> c + keyTTL < db_clock (ldb w) \<or> lasting (ldb w) k (c + keyTTL)"
    and "\<And>k. sorted_wrt (\<lambda>a b. a + keyTTL < b) (verdict_claims k w)"
  shows "live_inv w"
  using assms unfolding live_inv_def by blast

lemma live_invD:
  assumes "live_inv w"
  shows "live w t = Some (st, c) \<Longrightarrow> in_flight w t k \<Longrightarrow> c \<le> db_clock (ldb w) \<and> lasting (ldb w) k (c + keyTTL) \<and> k \<notin> done_keys (ldb w)"
    and "live w t = Some (st, c) \<Longrightarrow> in_flight w t k \<Longrightarrow> c' \<in> set (verdict_claims k w) \<Longrightarrow> c' + keyTTL < c \<or> judged k (Some st)"
    and "in_flight w t k \<Longrightarrow> in_flight w u k \<Longrightarrow> t = u"
    and "c \<in> set (verdict_claims k w) \<Longrightarrow> k \<in> done_keys (ldb w) \<or> c + keyTTL < db_clock (ldb w) \<or> lasting (ldb w) k (c + keyTTL)"
    and "sorted_wrt (\<lambda>a b. a + keyTTL < b) (verdict_claims k w)"
  using assms unfolding live_inv_def by blast+

lemma verdict_claims_same: "went w' = went w \<Longrightarrow> verdict_claims k w' = verdict_claims k w"
  by (simp add: verdict_claims_def)

lemma verdict_claims_update [simp]:
  "verdict_claims k (w\<lparr>ldb := d\<rparr>) = verdict_claims k w" "verdict_claims k (w\<lparr>live := l\<rparr>) = verdict_claims k w"
  by (simp_all add: verdict_claims_def)

lemma in_flight_frame:
  "in_flight w' u k \<Longrightarrow> live w' u = live w u \<Longrightarrow> db_clock (ldb w) \<le> db_clock (ldb w') \<Longrightarrow> in_flight w u k"
  by (auto simp: in_flight_def split: option.splits)

text \<open>Work that holds no key: it may take time and remove what has expired by then.\<close>

lemma live_inv_quiet:
  assumes inv: "live_inv w" and "db_clock (ldb w) \<le> db_clock (ldb w')" and "done_keys (ldb w') = done_keys (ldb w)" and "went w' = went w"
    and keep: "\<And>k e. lasting (ldb w) k e \<Longrightarrow> db_clock (ldb w') \<le> e \<Longrightarrow> lasting (ldb w') k e"
    and quiet: "\<And>u k. live w' u = live w u \<or> \<not> in_flight w' u k"
  shows "live_inv w'"
proof (rule live_invI)
  have old: "in_flight w u k \<and> live w' u = live w u" if "in_flight w' u k" for u k
    using that quiet in_flight_frame [OF that _ assms(2)] by blast
  note claims = verdict_claims_same [OF assms(4)]
  show "c \<le> db_clock (ldb w') \<and> lasting (ldb w') k (c + keyTTL) \<and> k \<notin> done_keys (ldb w') \<and>
      (\<forall>c'\<in>set (verdict_claims k w'). c' + keyTTL < c \<or> judged k (Some st))"
    if "live w' u = Some (st, c)" "in_flight w' u k" for u k st c
  proof -
    have u: "live w u = Some (st, c)" "in_flight w u k" using old [OF that(2)] that(1) by simp_all
    have "db_clock (ldb w') \<le> c + keyTTL" using that by (simp add: in_flight_def)
    then show ?thesis using live_invD(1,2) [OF inv u] keep assms(2,3) by (auto simp: claims)
  qed
  show "u = v" if "in_flight w' u k" "in_flight w' v k" for u v k using old that live_invD(3) [OF inv] by blast
  show "k \<in> done_keys (ldb w') \<or> c + keyTTL < db_clock (ldb w') \<or> lasting (ldb w') k (c + keyTTL)"
    if "c \<in> set (verdict_claims k w')" for k c
    using live_invD(4) [OF inv, of c k] that keep [of k "c + keyTTL"] assms(2,3)
    by (cases "db_clock (ldb w') \<le> c + keyTTL") (auto simp: claims)
  show "sorted_wrt (\<lambda>a b. a + keyTTL < b) (verdict_claims k w')" for k using live_invD(5) [OF inv] by (simp add: claims)
qed

lemma live_inv_claim:
  assumes inv: "live_inv w" and "submitClaim req (ldb w) = (st, d)"
  shows "live_inv (w\<lparr>ldb := d, live := (live w)(t \<mapsto> (st, db_clock (ldb w)))\<rparr>)" (is "live_inv ?w")
proof -
  let ?k = "req_IdempotencyKey req"
  note rows = submitClaim_rows [OF assms(2)]
  show ?thesis
  proof (cases "st = Sending req")
    case False
    then show ?thesis using rows by (intro live_inv_quiet [OF inv]) (auto simp: in_flight_def)
  next
    case True
    then have k: "?k \<notin> claimed_keys (ldb w)" "lasting d ?k (db_clock (ldb w) + keyTTL)" using rows(4) by auto
    have free: "\<not> in_flight w u ?k" for u
      using live_invD(1) [OF inv, of u _ _ ?k] lasting_claimed k(1) by (force simp: in_flight_def split: option.splits prod.splits)
    have old: "u = t \<and> k = ?k \<or> u \<noteq> t \<and> in_flight w u k \<and> k \<noteq> ?k" if "in_flight ?w u k" for u k
    proof (cases "u = t")
      case False
      then have "in_flight w u k" using in_flight_frame [OF that, of w] rows(1) by simp
      then show ?thesis using False free by blast
    qed (use that True in \<open>simp add: in_flight_def\<close>)
    have "?k \<notin> done_keys (ldb w)" using k(1) by (auto simp: claimed_keys_def done_keys_def)
    then have past: "c' + keyTTL < db_clock (ldb w)" if "c' \<in> set (verdict_claims ?k w)" for c'
      using live_invD(4) [OF inv that] k(1) lasting_claimed by blast
    note claims = verdict_claims_update
    show ?thesis
    proof (rule live_invI)
      show "c \<le> db_clock (ldb ?w) \<and> lasting (ldb ?w) k (c + keyTTL) \<and> k \<notin> done_keys (ldb ?w) \<and>
          (\<forall>c'\<in>set (verdict_claims k ?w). c' + keyTTL < c \<or> judged k (Some st'))"
        if l: "live ?w u = Some (st', c)" "in_flight ?w u k" for u k st' c
      proof (cases "u = t")
        case True
        then show ?thesis using l old [OF l(2)] k(2) past rows(1,2) \<open>?k \<notin> done_keys (ldb w)\<close> by (auto simp: claims)
      next
        case False
        then have "live w u = Some (st', c)" "in_flight w u k" using l old [OF l(2)] by auto
        then show ?thesis using live_invD(1,2) [OF inv] rows(1-3) by (auto simp: claims)
      qed
      show "u = v" if "in_flight ?w u k" "in_flight ?w v k" for u v k
        using old [OF that(1)] old [OF that(2)] live_invD(3) [OF inv] by blast
      show "k \<in> done_keys (ldb ?w) \<or> c + keyTTL < db_clock (ldb ?w) \<or> lasting (ldb ?w) k (c + keyTTL)"
        if "c \<in> set (verdict_claims k ?w)" for k c
        using live_invD(4) [OF inv, of c k] that rows(1-3) by (auto simp: claims)
      show "sorted_wrt (\<lambda>a b. a + keyTTL < b) (verdict_claims k ?w)" for k using live_invD(5) [OF inv] by (simp add: claims)
    qed
  qed
qed

lemma live_inv_send:
  assumes inv: "live_inv w" and st: "live w t = Some (Sending req, c)" and soon: "db_clock (ldb w) \<le> c + keyTTL"
  shows "live_inv (w\<lparr>live := (live w)(t \<mapsto> (Recording req r, c)), went := went w @ [(req_IdempotencyKey req, c, r)]\<rparr>)"
    (is "live_inv ?w")
proof -
  let ?k = "req_IdempotencyKey req"
  have mine: "in_flight w t ?k" using st soon by (simp add: in_flight_def)
  have same: "in_flight ?w u k = in_flight w u k" for u k using st by (auto simp: in_flight_def split: option.splits)
  have past: "c' + keyTTL < c" if "c' \<in> set (verdict_claims ?k w)" for c'
    using live_invD(2) [OF inv st mine that] by simp
  have claims: "verdict_claims k ?w = verdict_claims k w @ (if k = ?k \<and> verdict r then [c] else [])" for k
    by (simp add: verdict_claims_def)
  show ?thesis
  proof (rule live_invI)
    show "c2 \<le> db_clock (ldb ?w) \<and> lasting (ldb ?w) k (c2 + keyTTL) \<and> k \<notin> done_keys (ldb ?w) \<and>
        (\<forall>c'\<in>set (verdict_claims k ?w). c' + keyTTL < c2 \<or> judged k (Some st2))"
      if l: "live ?w u = Some (st2, c2)" "in_flight ?w u k" for u k st2 c2
    proof (cases "u = t")
      case True
      then have "k = ?k" "st2 = Recording req r" "c2 = c" using l by (auto simp: in_flight_def)
      then show ?thesis using live_invD(1) [OF inv st mine] past by (auto simp: claims)
    next
      case False
      then have u: "live w u = Some (st2, c2)" "in_flight w u k" using l same by auto
      then have "k \<noteq> ?k" using live_invD(3) [OF inv mine] False by blast
      then show ?thesis using live_invD(1,2) [OF inv u] by (auto simp: claims)
    qed
    show "u = v" if "in_flight ?w u k" "in_flight ?w v k" for u v k using that live_invD(3) [OF inv] same by blast
    show "k \<in> done_keys (ldb ?w) \<or> c' + keyTTL < db_clock (ldb ?w) \<or> lasting (ldb ?w) k (c' + keyTTL)"
      if "c' \<in> set (verdict_claims k ?w)" for k c'
      using that live_invD(4) [OF inv, of c' k] live_invD(1) [OF inv st mine] by (auto simp: claims split: if_splits)
    show "sorted_wrt (\<lambda>a b. a + keyTTL < b) (verdict_claims k ?w)" for k
      using live_invD(5) [OF inv, of k] past by (auto simp: claims sorted_wrt_append)
  qed
qed

lemma live_inv_record:
  assumes inv: "live_inv w" and st: "live w t = Some (Recording req r, c)" and soon: "db_clock (ldb w) \<le> c + keyTTL"
    and rec: "submitRecord req r (ldb w) = (x, d)"
  shows "live_inv (w\<lparr>ldb := d, live := (live w)(t \<mapsto> (Finished x, c))\<rparr>)" (is "live_inv ?w")
proof -
  let ?k = "req_IdempotencyKey req"
  have mine: "in_flight w t ?k" using st soon by (simp add: in_flight_def)
  have rows: "db_clock d = db_clock (ldb w)" "done_keys (ldb w) \<subseteq> done_keys d" "done_keys d \<subseteq> insert ?k (done_keys (ldb w))"
    "(verdict r \<or> k \<noteq> ?k) \<Longrightarrow> lasting (ldb w) k e \<Longrightarrow> lasting d k e" for k e
    using submitRecord_kept [OF rec] by (auto simp: rows_kept_def)
  have old: "in_flight w u k \<and> k \<noteq> ?k \<and> live ?w u = live w u" if "in_flight ?w u k" for u k
  proof (cases "u = t")
    case False
    then have "in_flight w u k" using in_flight_frame [OF that, of w] rows(1) by simp
    then show ?thesis using live_invD(3) [OF inv mine] False by auto
  qed (use that in \<open>simp add: in_flight_def\<close>)
  note claims = verdict_claims_update
  show ?thesis
  proof (rule live_invI)
    show "c2 \<le> db_clock (ldb ?w) \<and> lasting (ldb ?w) k (c2 + keyTTL) \<and> k \<notin> done_keys (ldb ?w) \<and>
        (\<forall>c'\<in>set (verdict_claims k ?w). c' + keyTTL < c2 \<or> judged k (Some st2))"
      if l: "live ?w u = Some (st2, c2)" "in_flight ?w u k" for u k st2 c2
    proof -
      have u: "live w u = Some (st2, c2)" "in_flight w u k" "k \<noteq> ?k" using old [OF l(2)] l(1) by simp_all
      then show ?thesis using live_invD(1,2) [OF inv u(1,2)] rows by (auto simp: claims)
    qed
    show "u = v" if "in_flight ?w u k" "in_flight ?w v k" for u v k using old that live_invD(3) [OF inv] by blast
    show "k \<in> done_keys (ldb ?w) \<or> c' + keyTTL < db_clock (ldb ?w) \<or> lasting (ldb ?w) k (c' + keyTTL)"
      if "c' \<in> set (verdict_claims k ?w)" for k c'
    proof (cases "k = ?k \<and> \<not> verdict r")
      case True
      then have "c' + keyTTL < c" using live_invD(2) [OF inv st mine, of c'] that by (simp add: claims)
      moreover have "c \<le> db_clock (ldb w)" using live_invD(1) [OF inv st mine] by blast
      ultimately show ?thesis using rows(1) by simp
    next
      case False
      then show ?thesis using live_invD(4) [OF inv, of c' k] that rows by (auto simp: claims)
    qed
    show "sorted_wrt (\<lambda>a b. a + keyTTL < b) (verdict_claims k ?w)" for k using live_invD(5) [OF inv] by (simp add: claims)
  qed
qed

lemma live_inv_step:
  assumes inv: "live_inv w" and "live_step w w'"
  shows "live_inv w'"
  using assms(2)
proof cases
  case (live_begin t req)
  then show ?thesis by (intro live_inv_quiet [OF inv]) (auto simp: in_flight_def)
next
  case (live_check t req c st d)
  note stage = submitCheck_stage [OF live_check(3)]
  have d: "lasting d = lasting (ldb w)" "done_keys d = done_keys (ldb w)" "db_clock d = db_clock (ldb w)"
    using same_keys [OF stage(1)] key_views [of d "ldb w"] by simp_all
  have "\<not> holds k (Some st)" for k using stage(2) by auto
  then show ?thesis unfolding live_check(1) by (intro live_inv_quiet [OF inv]) (auto simp: in_flight_def d)
next
  case (live_claim t req c st d)
  then show ?thesis using live_inv_claim [OF inv] by simp
next
  case (live_send t req c r)
  then show ?thesis using live_inv_send [OF inv] by simp
next
  case (live_record t req r c x d)
  then show ?thesis using live_inv_record [OF inv] by simp
next
  case (live_crash t)
  then show ?thesis by (intro live_inv_quiet [OF inv]) (auto simp: in_flight_def)
next
  case (live_reap now s)
  then show ?thesis using ReapExpiredKeys_rows by (intro live_inv_quiet [OF inv]) auto
next
  case (live_other d)
  then show ?thesis using key_views [OF live_other(2)] by (intro live_inv_quiet [OF inv]) simp_all
qed

text \<open>A stored response stays, and its key gets no verdict any more.\<close>

definition settled_kept :: "live_world \<Rightarrow> live_world \<Rightarrow> bool" where
  "settled_kept w w' \<longleftrightarrow> (\<forall>k\<in>done_keys (ldb w). k \<in> done_keys (ldb w') \<and> verdict_claims k w' = verdict_claims k w)"

lemma settled_kept_step:
  assumes "live_inv w" and "live_step w w'"
  shows "settled_kept w w'"
  using assms(2)
proof cases
  case (live_check t req c st d)
  have "done_keys d = done_keys (ldb w)"
    using same_keys [OF submitCheck_stage(1) [OF live_check(3)]] by (intro key_views(2)) simp
  then show ?thesis by (simp add: settled_kept_def live_check(1))
next
  case (live_send t req c r)
  have "in_flight w t (req_IdempotencyKey req)" using live_send by (simp add: in_flight_def)
  then have "req_IdempotencyKey req \<notin> done_keys (ldb w)" using live_invD(1) [OF assms(1) live_send(2)] by blast
  then show ?thesis using live_send(1) by (auto simp: settled_kept_def verdict_claims_def)
next
  case (live_other d)
  then show ?thesis using key_views(2) [OF live_other(2)] by (simp add: settled_kept_def)
qed (auto simp: settled_kept_def submitClaim_rows(2) ReapExpiredKeys_rows(2) dest: submitRecord_done)

interpretation timed: stable_relation live_start live_step live_inv settled_kept
proof unfold_locales
  show "live_inv w" if "live_start w" for w
    using that by (auto simp: live_start_def live_inv_def in_flight_def verdict_claims_def)
  show "settled_kept a c" if "settled_kept a b" "settled_kept b c" for a b c using that by (simp add: settled_kept_def)
qed (simp_all add: settled_kept_def [of w w for w] live_inv_step settled_kept_step)

section \<open>A run\<close>

text \<open>A submission up to the network's answer, on a database that answers.\<close>

lemma submission_run:
  assumes "live w t = None" and "submitCheck req (ldb w) = (Claiming req, d1)" and "submitClaim req d1 = (Sending req, d2)"
  shows "live_step\<^sup>*\<^sup>* w (w\<lparr>ldb := d2, live := (live w)(t \<mapsto> (Recording req r, db_clock (ldb w))),
    went := went w @ [(req_IdempotencyKey req, db_clock (ldb w), r)]\<rparr>)"
proof -
  have clock: "db_clock d1 = db_clock (ldb w)" "db_clock d2 = db_clock (ldb w)"
    using same_keys [OF submitCheck_stage(1) [OF assms(2)]] submitClaim_rows(1) [OF assms(3)] by simp_all
  define w1 where "w1 = w\<lparr>live := (live w)(t \<mapsto> (Checking req, db_clock (ldb w)))\<rparr>"
  define w2 where "w2 = w1\<lparr>ldb := d1, live := (live w1)(t \<mapsto> (Claiming req, db_clock (ldb w1)))\<rparr>"
  define w3 where "w3 = w2\<lparr>ldb := d2, live := (live w2)(t \<mapsto> (Sending req, db_clock (ldb w2)))\<rparr>"
  define w4 where "w4 = w3\<lparr>live := (live w3)(t \<mapsto> (Recording req r, db_clock (ldb w2))),
    went := went w3 @ [(req_IdempotencyKey req, db_clock (ldb w2), r)]\<rparr>"
  have "live_step w w1" unfolding w1_def by (rule live_begin [OF assms(1)])
  moreover have "live_step w1 w2" unfolding w2_def
    by (rule live_check [where req = req and c = "db_clock (ldb w)"]) (simp_all add: w1_def assms(2))
  moreover have "live_step w2 w3" unfolding w3_def
    by (rule live_claim [where req = req and c = "db_clock (ldb w1)"]) (simp_all add: w2_def assms(3))
  moreover have "live_step w3 w4" unfolding w4_def
    by (rule live_send) (simp_all add: w3_def w2_def clock keyTTL_def)
  ultimately have "live_step\<^sup>*\<^sup>* w w4" by (meson converse_rtranclp_into_rtranclp r_into_rtranclp)
  then show ?thesis by (simp add: w4_def w3_def w2_def w1_def clock)
qed

definition ex_flaky :: pay_db where
  "ex_flaky = ex_db0\<lparr>faults := replicate 5 None @ [Some Fail]\<rparr>"

definition ex_claimed :: "pay_db \<Rightarrow> pay_db" where
  "ex_claimed db = snd (submitClaim ex_req (snd (submitCheck ex_req db)))"

definition ex_unrecorded :: "SubmitResponse res \<times> pay_db" where
  "ex_unrecorded = submitRecord ex_req (Inr ex_result) (ex_claimed ex_flaky)"

definition ex_next_day :: pay_db where
  "ex_next_day = (snd ex_unrecorded)\<lparr>db_clock := keyTTL + 3000\<rparr>"

definition ex_reaped :: pay_db where
  "ex_reaped = snd (ReapExpiredKeys (ex_tx (Inr ex_result)) (keyTTL + 3000) ex_next_day)"

lemma ex_flaky_eval:
  "submitCheck ex_req ex_flaky = (Claiming ex_req, snd (submitCheck ex_req ex_flaky))"
  "submitClaim ex_req (snd (submitCheck ex_req ex_flaky)) = (Sending ex_req, ex_claimed ex_flaky)"
  "submitCheck ex_req ex_reaped = (Claiming ex_req, snd (submitCheck ex_req ex_reaped))"
  "submitClaim ex_req (snd (submitCheck ex_req ex_reaped)) = (Sending ex_req, ex_claimed ex_reaped)"
  "db_clock ex_flaky = 0" "db_clock (ex_claimed ex_flaky) = 0" "db_clock (snd ex_unrecorded) = 0" "db_clock ex_reaped = keyTTL + 3000"
  by (simp_all add: prod_eq_iff ex_claimed_def) code_simp+

section \<open>Properties\<close>

text \<open>
  C15. Single flight with crashes, time and the reaper. Take any interleaving of submissions, of crashes at any point, of
  recordings that fail, of other work on the database, of passing time and of reaper runs at any moment, with any answers
  of the network and any connection failures; a submission sends and records only within a day of its claim, the life of
  its key. Then (1) two verdicts under one key belong to claims more than a day apart; (2) at any moment at most one
  submission within its day holds the key; (3) once the response of a key is stored it stays stored, and the key gets no
  further verdict, whatever happens later; (4) a verdict that is recorded without an error is stored. The run of the
  witness shows that the bound is met: a verdict whose recording fails leaves the key pending, the reaper frees it
  after a day, and the next submission under it gets a second verdict.
\<close>

theorem single_flight_reaped:
  assumes "reach live_start live_step w"
  shows "sorted_wrt (\<lambda>c c'. c + keyTTL < c') (verdict_claims k w) \<and>
    (in_flight w t k \<and> in_flight w u k \<longrightarrow> t = u) \<and>
    (k \<in> done_keys (ldb w) \<and> live_step\<^sup>*\<^sup>* w w' \<longrightarrow> k \<in> done_keys (ldb w') \<and> verdict_claims k w' = verdict_claims k w) \<and>
    (live w t = Some (Recording req r, c) \<and> db_clock (ldb w) \<le> c + keyTTL \<and> verdict r \<and> submitRecord req r (ldb w) = (Inr y, d) \<longrightarrow>
      req_IdempotencyKey req \<in> done_keys d)"
proof -
  note inv = timed.inv_reach [OF assms]
  have "req_IdempotencyKey req \<in> done_keys d"
    if "live w t = Some (Recording req r, c)" "db_clock (ldb w) \<le> c + keyTTL" "verdict r" "submitRecord req r (ldb w) = (Inr y, d)"
  proof -
    have "in_flight w t (req_IdempotencyKey req)" using that(1,2) by (simp add: in_flight_def)
    then have "req_IdempotencyKey req \<in> claimed_keys (ldb w)" using live_invD(1) [OF inv that(1)] lasting_claimed by blast
    then show ?thesis by (rule submitRecord_settles [OF that(4,3)])
  qed
  then show ?thesis using live_invD(3,5) [OF inv] timed.rel_steps [OF inv, of w'] by (auto simp: settled_kept_def)
qed

theorem single_flight_reaped_witness:
  "\<exists>w. reach live_start live_step w \<and> verdict_claims ''k1'' w = [0, keyTTL + 3000] \<and>
     sorted_wrt (\<lambda>c c'. c + keyTTL < c') (verdict_claims ''k1'' w)"
proof -
  define w0 where "w0 = \<lparr>ldb = ex_flaky, live = \<lambda>_. None, went = []\<rparr>"
  define w1 where "w1 = w0\<lparr>ldb := ex_claimed ex_flaky, live := (live w0)(0 \<mapsto> (Recording ex_req (Inr ex_result), 0)),
    went := went w0 @ [(req_IdempotencyKey ex_req, 0, Inr ex_result)]\<rparr>"
  define w2 where "w2 = w1\<lparr>ldb := snd ex_unrecorded, live := (live w1)(0 \<mapsto> (Finished (fst ex_unrecorded), 0))\<rparr>"
  define w3 where "w3 = w2\<lparr>ldb := ex_next_day\<rparr>"
  define w4 where "w4 = w3\<lparr>ldb := ex_reaped\<rparr>"
  define w5 where "w5 = w4\<lparr>ldb := ex_claimed ex_reaped, live := (live w4)(1 \<mapsto> (Recording ex_req (Inr ex_result), keyTTL + 3000)),
    went := went w4 @ [(req_IdempotencyKey ex_req, keyTTL + 3000, Inr ex_result)]\<rparr>"
  have "reach live_start live_step w0" by (rule reach_init) (simp add: live_start_def w0_def)
  moreover have "live_step\<^sup>*\<^sup>* w0 w1"
    using submission_run [of w0 0 ex_req _ _ "Inr ex_result", OF _ _ ex_flaky_eval(2)] ex_flaky_eval(1,5) by (simp add: w0_def w1_def)
  moreover have "live_step w1 w2" unfolding w2_def
    by (rule live_record [of _ _ ex_req "Inr ex_result"]) (simp_all add: w1_def ex_unrecorded_def ex_flaky_eval(6) keyTTL_def)
  moreover have "live_step w2 w3" unfolding w3_def
    by (rule live_other) (simp_all add: w2_def ex_next_day_def ex_flaky_eval(7) keyTTL_def)
  moreover have "live_step w3 w4" unfolding w4_def ex_reaped_def
    using live_reap [of "keyTTL + 3000" w3 "ex_tx (Inr ex_result)"] by (simp add: w3_def ex_next_day_def)
  moreover have "live_step\<^sup>*\<^sup>* w4 w5"
    using submission_run [of w4 1 ex_req _ _ "Inr ex_result", OF _ _ ex_flaky_eval(4)] ex_flaky_eval(3,8)
    by (simp add: w5_def w4_def w3_def w2_def w1_def w0_def)
  ultimately have r: "reach live_start live_step w5" by (meson reach_step reach_steps)
  have "verdict_claims ''k1'' w5 = [0, keyTTL + 3000]"
    by (simp add: w5_def w4_def w3_def w2_def w1_def w0_def verdict_claims_def verdict_def ex_req_def ex_result_def)
  with r single_flight_reaped [OF r] show ?thesis by blast
qed

end
