(* ===== verification/PortsTest.thy ===== *)
theory PortsTest
  imports Wire
begin

text \<open>
  \<open>backend/ports/portstest/chain.go\<close>: the double of the chain port that the tests of all services share. A hook
  that is not set answers with the zero value; every method counts its calls.
\<close>

record FakeChain =
  GetAccountFunc :: "(string \<Rightarrow> AccountInfo res) option"
  GetTrustlineFunc :: "(string \<Rightarrow> string \<Rightarrow> string \<Rightarrow> TrustlineInfo res) option"
  GetLedgerFunc :: "LedgerInfo res option"
  SimulateTransactionFunc :: "(string \<Rightarrow> SimulateResult res) option"
  SubmitClassicFunc :: "(string \<Rightarrow> SubmitResult res) option"
  SubmitSorobanFunc :: "(string \<Rightarrow> SubmitResult res) option"
  FundFunc :: "(string \<Rightarrow> unit res) option"
  GetAccountCalls :: int
  GetTrustlineCalls :: int
  GetLedgerCalls :: int
  SimulateTransactionCalls :: int
  SubmitClassicCalls :: int
  SubmitSorobanCalls :: int
  FundCalls :: int

definition fake_GetAccount :: "string \<Rightarrow> FakeChain \<Rightarrow> AccountInfo res \<times> FakeChain" where
  "fake_GetAccount address f =
     (case GetAccountFunc f of Some hook \<Rightarrow> hook address | None \<Rightarrow> Inr zero_AccountInfo,
      f\<lparr>GetAccountCalls := GetAccountCalls f + 1\<rparr>)"

definition fake_GetTrustline :: "string \<Rightarrow> string \<Rightarrow> string \<Rightarrow> FakeChain \<Rightarrow> TrustlineInfo res \<times> FakeChain" where
  "fake_GetTrustline address assetCode assetIssuer f =
     (case GetTrustlineFunc f of Some hook \<Rightarrow> hook address assetCode assetIssuer | None \<Rightarrow> Inr zero_TrustlineInfo,
      f\<lparr>GetTrustlineCalls := GetTrustlineCalls f + 1\<rparr>)"

definition fake_GetLedger :: "FakeChain \<Rightarrow> LedgerInfo res \<times> FakeChain" where
  "fake_GetLedger f =
     (case GetLedgerFunc f of Some hook \<Rightarrow> hook | None \<Rightarrow> Inr zero_LedgerInfo,
      f\<lparr>GetLedgerCalls := GetLedgerCalls f + 1\<rparr>)"

definition fake_SimulateTransaction :: "string \<Rightarrow> FakeChain \<Rightarrow> SimulateResult res \<times> FakeChain" where
  "fake_SimulateTransaction unsignedXDR f =
     (case SimulateTransactionFunc f of Some hook \<Rightarrow> hook unsignedXDR
      | None \<Rightarrow> Inr (zero_SimulateResult\<lparr>sr_Success := True\<rparr>),
      f\<lparr>SimulateTransactionCalls := SimulateTransactionCalls f + 1\<rparr>)"

definition fake_SubmitClassic :: "string \<Rightarrow> FakeChain \<Rightarrow> SubmitResult res \<times> FakeChain" where
  "fake_SubmitClassic signedXDR f =
     (case SubmitClassicFunc f of Some hook \<Rightarrow> hook signedXDR | None \<Rightarrow> Inr zero_SubmitResult,
      f\<lparr>SubmitClassicCalls := SubmitClassicCalls f + 1\<rparr>)"

definition fake_SubmitSoroban :: "string \<Rightarrow> FakeChain \<Rightarrow> SubmitResult res \<times> FakeChain" where
  "fake_SubmitSoroban signedXDR f =
     (case SubmitSorobanFunc f of Some hook \<Rightarrow> hook signedXDR | None \<Rightarrow> Inr zero_SubmitResult,
      f\<lparr>SubmitSorobanCalls := SubmitSorobanCalls f + 1\<rparr>)"

definition fake_Fund :: "string \<Rightarrow> FakeChain \<Rightarrow> unit res \<times> FakeChain" where
  "fake_Fund address f =
     (case FundFunc f of Some hook \<Rightarrow> hook address | None \<Rightarrow> Inr (),
      f\<lparr>FundCalls := FundCalls f + 1\<rparr>)"

text \<open>A call of the port and what it returns; the port as a record answers the same calls.\<close>

datatype port_call = CGetAccount string | CGetTrustline string string string | CGetLedger | CSimulate string
  | CSubmitClassic string | CSubmitSoroban string | CFund string

datatype port_answer = AAccount "AccountInfo res" | ATrustline "TrustlineInfo res" | ALedger "LedgerInfo res"
  | ASimulate "SimulateResult res" | ASubmit "SubmitResult res" | AFund "unit res"

fun fake_call :: "port_call \<Rightarrow> FakeChain \<Rightarrow> port_answer \<times> FakeChain" where
  "fake_call (CGetAccount a) f = map_prod AAccount id (fake_GetAccount a f)"
| "fake_call (CGetTrustline a c i) f = map_prod ATrustline id (fake_GetTrustline a c i f)"
| "fake_call CGetLedger f = map_prod ALedger id (fake_GetLedger f)"
| "fake_call (CSimulate x) f = map_prod ASimulate id (fake_SimulateTransaction x f)"
| "fake_call (CSubmitClassic x) f = map_prod ASubmit id (fake_SubmitClassic x f)"
| "fake_call (CSubmitSoroban x) f = map_prod ASubmit id (fake_SubmitSoroban x f)"
| "fake_call (CFund a) f = map_prod AFund id (fake_Fund a f)"

fun port_answer_of :: "ChainGateway \<Rightarrow> port_call \<Rightarrow> port_answer" where
  "port_answer_of g (CGetAccount a) = AAccount (GetAccount g a)"
| "port_answer_of g (CGetTrustline a c i) = ATrustline (GetTrustline g a c i)"
| "port_answer_of g CGetLedger = ALedger (GetLedger g)"
| "port_answer_of g (CSimulate x) = ASimulate (SimulateTransaction g x)"
| "port_answer_of g (CSubmitClassic x) = ASubmit (SubmitClassic g x)"
| "port_answer_of g (CSubmitSoroban x) = ASubmit (SubmitSoroban g x)"
| "port_answer_of g (CFund a) = AFund (Fund g a)"

fun fake_calls :: "port_call list \<Rightarrow> FakeChain \<Rightarrow> port_answer list \<times> FakeChain" where
  "fake_calls [] f = ([], f)"
| "fake_calls (c # cs) f = (let (a, f1) = fake_call c f; (as, f2) = fake_calls cs f1 in (a # as, f2))"

text \<open>The gateway a service sees when it is given the double.\<close>

definition fake_gateway :: "FakeChain \<Rightarrow> ChainGateway" where
  "fake_gateway f =
     \<lparr>GetAccount = case_option (\<lambda>_. Inr zero_AccountInfo) id (GetAccountFunc f),
      GetTrustline = case_option (\<lambda>_ _ _. Inr zero_TrustlineInfo) id (GetTrustlineFunc f),
      GetLedger = case_option (Inr zero_LedgerInfo) id (GetLedgerFunc f),
      SimulateTransaction = case_option (\<lambda>_. Inr (zero_SimulateResult\<lparr>sr_Success := True\<rparr>)) id (SimulateTransactionFunc f),
      SubmitClassic = case_option (\<lambda>_. Inr zero_SubmitResult) id (SubmitClassicFunc f),
      SubmitSoroban = case_option (\<lambda>_. Inr zero_SubmitResult) id (SubmitSorobanFunc f),
      Fund = case_option (\<lambda>_. Inr ()) id (FundFunc f)\<rparr>"

fun count_call :: "port_call \<Rightarrow> FakeChain \<Rightarrow> FakeChain" where
  "count_call (CGetAccount _) f = f\<lparr>GetAccountCalls := GetAccountCalls f + 1\<rparr>"
| "count_call (CGetTrustline _ _ _) f = f\<lparr>GetTrustlineCalls := GetTrustlineCalls f + 1\<rparr>"
| "count_call CGetLedger f = f\<lparr>GetLedgerCalls := GetLedgerCalls f + 1\<rparr>"
| "count_call (CSimulate _) f = f\<lparr>SimulateTransactionCalls := SimulateTransactionCalls f + 1\<rparr>"
| "count_call (CSubmitClassic _) f = f\<lparr>SubmitClassicCalls := SubmitClassicCalls f + 1\<rparr>"
| "count_call (CSubmitSoroban _) f = f\<lparr>SubmitSorobanCalls := SubmitSorobanCalls f + 1\<rparr>"
| "count_call (CFund _) f = f\<lparr>FundCalls := FundCalls f + 1\<rparr>"

lemmas fake_defs = fake_GetAccount_def fake_GetTrustline_def fake_GetLedger_def fake_SimulateTransaction_def
  fake_SubmitClassic_def fake_SubmitSoroban_def fake_Fund_def

lemma fake_call_answer: "fake_call c f = (port_answer_of (fake_gateway f) c, count_call c f)"
  by (cases c) (simp_all add: fake_defs fake_gateway_def split: option.split)

lemma count_call_gateway: "fake_gateway (count_call c f) = fake_gateway f"
  by (cases c) (simp_all add: fake_gateway_def)

abbreviation submits :: "port_call \<Rightarrow> bool" where
  "submits c \<equiv> (case c of CSubmitClassic _ \<Rightarrow> True | CSubmitSoroban _ \<Rightarrow> True | _ \<Rightarrow> False)"

text \<open>
  The double is a chain gateway for the tests: every sequence of calls is answered as by one gateway, which the
  calls do not change, and its counters say how often the network was asked to submit.
\<close>

theorem fake_chain_faithful:
  "fake_calls cs f = (map (port_answer_of (fake_gateway f)) cs, fold count_call cs f) \<and>
   SubmitClassicCalls (snd (fake_calls cs f)) + SubmitSorobanCalls (snd (fake_calls cs f)) =
     SubmitClassicCalls f + SubmitSorobanCalls f + int (length (filter submits cs))"
proof -
  have run: "fake_calls cs f = (map (port_answer_of (fake_gateway f)) cs, fold count_call cs f)"
    by (induction cs arbitrary: f) (simp_all add: fake_call_answer count_call_gateway)
  have "SubmitClassicCalls (fold count_call cs f) + SubmitSorobanCalls (fold count_call cs f) =
      SubmitClassicCalls f + SubmitSorobanCalls f + int (length (filter submits cs))"
  proof (induction cs arbitrary: f)
    case (Cons c cs)
    then show ?case by (cases c) simp_all
  qed simp
  then show ?thesis using run by simp
qed

end
