(* ===== verification/Spec2Isabelle.thy ===== *)
theory Spec2Isabelle
  imports Money Base64 StellarX ChequeFlows Schema Lifecycle ChequeHttp TxFlight Reaper Scheduler AuthProps ChainProps
    SchedulerHttp TxHttp Middleware AnchorProps Processes ReapFlight PortsTest
begin

text \<open>
  Verification library of the Go backend under \<open>src/backend\<close>: a payment service on Stellar in which a
  sender locks an amount in an escrow contract (a cheque), a receiver claims it, and an expired cheque is
  refunded.

  \<^bold>\<open>The program and how its parts interact.\<close> Six services, each with a repository (SQL), a service (the
  logic), handlers and routes: \<^emph>\<open>auth\<close> (SEP-10 login and tokens), \<^emph>\<open>cheque\<close> (the life cycle of cheques and the
  pool), \<^emph>\<open>tx\<close> (the only place that submits signed transactions, once per idempotency key), \<^emph>\<open>scheduler\<close>
  (refunds of expired cheques, through the cheque service), \<^emph>\<open>chain\<close> (the gateway to Horizon, Soroban RPC and
  friendbot) and \<^emph>\<open>anchor\<close> (a proxy to a SEP-6/12/24/38 anchor). All but \<^emph>\<open>chain\<close> and \<^emph>\<open>scheduler\<close> keep
  their tables in one Postgres database. A service reaches the chain through the port \<open>ports.ChainGateway\<close>, over
  HTTP or in process. \<open>cmd/monolith\<close> runs all of them in one process.

  \<^bold>\<open>State.\<close> The database is the record \<open>pay_db\<close> (theory ChequeRepo): one list of rows per table, the clock of
  the server and the list of connection failures still to come. A statement (\<open>exec\<close>) takes the next failure:
  none, lost before it ran, or lost after it ran, so that every error path of the repositories is a run of the
  model; \<open>tx_begin\<close>, \<open>tx_commit\<close> and \<open>rollback\<close> are the transaction. Unique and check constraints, column
  widths and \<open>NUMERIC(40,0)\<close> of \<open>deploy/migrations\<close> are guards of the statements. Go errors are \<open>go_error\<close>,
  a sum type result is \<open>'a res\<close>. Machine integers keep their width (\<open>u8\<close>, \<open>u32\<close>, \<open>i64\<close>, \<open>u64\<close>);
  \<open>big.Int\<close> is \<open>int\<close>; a time is nanoseconds as \<open>int\<close>.

  \<^bold>\<open>Theories.\<close>
  \<^item> Pay\_Prelude, Systems: decimal numerals, strings, list lemmas; reachable states, the locales
    \<open>invariant_system\<close> and \<open>stable_relation\<close> that all step relations below interpret.
  \<^item> Money (\<open>pkg/money\<close>), Base64, StellarX (\<open>pkg/stellarx\<close>), Ports (\<open>ports\<close>), PortsTest (\<open>ports/portstest\<close>):
    amounts, ScVal encoding, contract calls, the pre-authorization of a forced collection, decoding of contract
    records; exactness and round trips; the double of the chain port that the tests use answers as one gateway
    and counts its calls.
  \<^item> ChequeRepo, ChequeLedger, ChequeService, ChequeProps, ChequeFlows, Schema, Lifecycle, ChequeHttp (\<open>services/cheque\<close>,
    \<open>cmd/chequesvc\<close>): the tables and their invariant \<open>ledger_inv\<close>, the refinement to an abstract ledger of
    cheque states, creation, confirmations, reconciliation with the chain, column types,
    which senders a sweep frees (Lifecycle, on top of Scheduler), handlers and who may do what. The step relation \<open>repo_step\<close>
    is the abstraction to committed transactions that the lemmas share: every operation of repository and service is
    proved to be a run of it, and the properties of the service are stated over \<open>svc_step\<close>, its calls themselves.
  \<^item> TxService, TxFlight, Reaper, ReapFlight, TxHttp (\<open>services/tx\<close>, \<open>cmd/txsvc\<close>): a submission as stages that other
    submissions interleave with, the locale of the key gate and single flight, replay, the reaper; single flight
    against the clock, with crashes and the reaper.
  \<^item> AuthService, AuthProps (\<open>services/auth\<close>, \<open>cmd/authsvc\<close>): login, the life cycle of tokens, profiles.
  \<^item> Http, Middleware, Wire, Query, Nethost, Boot (\<open>pkg/httpx\<close>, \<open>pkg/authx\<close>, \<open>pkg/dbx\<close>, \<open>pkg/envx\<close>, \<open>pkg/nethost\<close>,
    what is used of \<open>net/http\<close>, \<open>encoding/json\<close> and \<open>net/url\<close>): requests, envelopes, bearer and key gates, the
    middleware chain, JSON of the wire types, query strings, the guarded client, starting and stopping.
  \<^item> ChainService, ChainProps (\<open>services/chain\<close>, \<open>ports/httpadapter\<close>, \<open>ports/directadapter\<close>, \<open>cmd/gatewaysvc\<close>): the
    gateway, and that its HTTP client returns what the service returned.
  \<^item> Scheduler, SchedulerHttp (\<open>services/scheduler\<close>, \<open>cmd/schedulersvc\<close>): the sweep with its backoff, what it
    refunds, that it refunds each cheque that is due whatever becomes of the others, what it records of failures; the
    same over HTTP.
  \<^item> AnchorRepo, AnchorService, AnchorHttp, AnchorProps (\<open>services/anchor\<close>, \<open>cmd/anchorsvc\<close>): the proxy, its egress,
    whose rows a request touches, which requests are bound to the caller's account, the trustline cache.
  \<^item> Sharing, Monolith (\<open>cmd/monolith\<close>): that each service writes its own tables, the surface of the one process
    and the invariants of the process as a whole.
  \<^item> Processes (the \<open>main\<close> of every directory of \<open>cmd\<close>): what each process reads from the environment and its key
    files, every way it stops before it serves, how it builds its services over the pool and its chain adapter; that the
    monolith answers every request as the separate process started from the same environment when the chain port
    answers the same, and that internal routes are never open.

  \<^bold>\<open>Interfaces.\<close> \<open>invariant_system\<close> is interpreted for the cheque tables (consistency, and column types), for the
  tx machine, for the anchor's egress and for the process; \<open>stable_relation\<close> for the advance of cheques and for the
  stored responses of the timed tx machine; the key gate of TxFlight by the idempotency table under all connection
  failures; \<open>transition_store\<close> (what a confirmation
  relies on) by \<open>Transition\<close>; \<open>db_relation\<close> (a relation every repository call of a handler keeps) by runs of
  repository steps, by confinement to a caller, by the growth of the recorded keys and by what a recording keeps of the
  other keys; \<open>refund_gateway\<close> and
  \<open>live_gateway\<close> (what a sweep relies on) by the in-process cheque gateway; \<open>wire_struct\<close> (a JSON form that decodes to what was encoded) by the types of the
  chain port; \<open>anchor_relation\<close> (a relation every outgoing request and every database call of an anchor operation
  keeps) by the egress invariant, by the confinement to own rows and by the cheque tables.

  \<^bold>\<open>Parameters.\<close> The Stellar SDK (\<open>sdk\<close>: XDR, strkeys, keys, the transaction builder), the SEP-10 functions, the
  JWT library, Horizon and Soroban RPC, the transport under the HTTP clients, URL and TOML parsing, the text form of
  JSON and of times, entropy and the clock are arguments of the definitions. What a theorem needs of them (a parser
  inverts its printer, a signed token verifies) is a named hypothesis, and a concrete instance in the witnesses
  satisfies it.

  \<^bold>\<open>Bounds and fuel.\<close> Redirects of the guarded client recurse on the ten that \<open>http.Client\<close> follows. The connect
  loop of \<open>dbx\<close> has fuel, and more fuel than failed attempts gives the result. All other loops are structural.

  \<^bold>\<open>Concurrency.\<close> Statements are atomic, as in the database. Service calls interleave between statements only in
  TxFlight; the cheque tables are protected by transactions, whose commits are the steps of ChequeLedger, so
  that \<open>ledger_inv\<close> holds in every interleaving of them. In ReapFlight submissions also crash at any
  point, their recordings fail, time passes and the reaper runs at any moment on whatever has expired. One condition there
  is not enforced by a lock of the code: a submission sends and records within a day of its claim, the life of its
  key (it ends with the timeouts of its requests, which are not modelled); the clocks of process and database are one.

  \<^bold>\<open>Not modelled.\<close> The escrow contract (Rust, runs on chain), the Flutter client, the migrations as files, the logger
  (\<open>pkg/obs\<close>), the parsing of PEM keys (a parameter), the socket server under \<open>httpx.ListenAndServe\<close> (how it ends is
  modelled), the interfaces \<open>repo_iface.go\<close> (no code) and the constructors with a repository of the tests' own.
  The requests that the SDK's stellar.toml client makes are not in the list of requests sent: that client is a parameter. A redirect keeps the headers of
  its request. The error type of \<open>ports/httpadapter\<close> is its text, which is all the services read of it; the limit of
  1 MiB that \<open>MaxBody\<close> puts around the gateway's router is not part of that router.
\<close>

end
